(* ===== verification/Prelude.thy ===== *)
theory Prelude
  imports Main "HOL-Library.Word"
begin

text \<open>
  Shared vocabulary of the development.  \<open>std::expected<T, E>\<close> is the sum type
  \<open>'e + 'a\<close>: \<open>Unexpected e\<close> for \<open>std::unexpected(e)\<close> and \<open>Ok x\<close> for a value.
  Fixed-width integers are words; \<open>std::vector\<close>, \<open>std::span\<close> and \<open>std::array\<close>
  are lists.  The theory also holds the collections of rewrite rules that the component
  theories extend, and the generic facts about lists and words that several of them use.
\<close>

section \<open>Types of the source language\<close>

type_synonym u8 = "8 word"
type_synonym u16 = "16 word"
type_synonym u32 = "32 word"
type_synonym u64 = "64 word"

text \<open>\<open>std::int64_t\<close> (and the count of \<open>std::chrono::nanoseconds\<close>): 64 bits read with \<open>sint\<close>.\<close>
type_synonym i64 = "64 word"

type_synonym byte = "8 word"
type_synonym bytes = "8 word list"

type_synonym ('e, 'a) expected = "'e + 'a"

abbreviation Unexpected :: "'e \<Rightarrow> ('e, 'a) expected" where
  "Unexpected \<equiv> Inl"

abbreviation Ok :: "'a \<Rightarrow> ('e, 'a) expected" where
  "Ok \<equiv> Inr"

fun has_value :: "('e, 'a) expected \<Rightarrow> bool" where
  "has_value (Inl e) = False"
| "has_value (Inr x) = True"

text \<open>\<open>if (auto r = ...; !r.has_value()) return std::unexpected(r.error());\<close> and the code after it.\<close>

fun and_then :: "('e, 'a) expected \<Rightarrow> ('a \<Rightarrow> ('e, 'b) expected) \<Rightarrow> ('e, 'b) expected" where
  "and_then (Inl e) f = Unexpected e"
| "and_then (Inr x) f = f x"

lemma and_then_eq_Ok: "and_then r f = Inr y \<longleftrightarrow> (\<exists>x. r = Inr x \<and> f x = Inr y)"
  by (cases r) simp_all

lemma and_then_eq_Unexpected:
  "and_then r f = Inl e \<longleftrightarrow> r = Inl e \<or> (\<exists>x. r = Inr x \<and> f x = Inl e)"
  by (cases r) simp_all

section \<open>Collections of rewrite rules\<close>

named_theorems f64_fields \<open>sign and magnitude of constructed doubles\<close>
named_theorems f64_order \<open>comparisons of doubles as comparisons of their keys\<close>
named_theorems wire_simps \<open>lengths, prefixes and round trips of wire encodings\<close>

section \<open>Lists\<close>

lemma list_all_update:
  "list_all P xs \<Longrightarrow> P x \<Longrightarrow> list_all P (xs[i := x])"
  using set_update_subset_insert [of xs i x] by (auto simp: list_all_iff)

lemma list_all_map_step:
  assumes "\<And>x. P x \<Longrightarrow> P (f x)" and "list_all P xs"
  shows "list_all P (map f xs)"
  using assms by (induction xs) auto

lemma take_prefix_append: "n \<le> length xs \<Longrightarrow> take n (xs @ ys) = take n xs"
  by simp

lemma nth_prefix_append: "i < length xs \<Longrightarrow> (xs @ ys) ! i = xs ! i"
  by (simp add: nth_append)

section \<open>Folding an operation over a run\<close>

text \<open>
  A component driven by a sequence of calls.  An interface that promises an invariant for one
  call keeps it over every run of calls; the client components obtain their run lemmas from
  here by interpretation.
\<close>

locale invariant_machine =
  fixes step :: "'s \<Rightarrow> 'e \<Rightarrow> 's"
    and legal :: "'e \<Rightarrow> bool"
    and inv :: "'s \<Rightarrow> bool"
  assumes step_inv: "inv s \<Longrightarrow> legal e \<Longrightarrow> inv (step s e)"
begin

lemma run_inv:
  assumes "inv s" and "list_all legal es"
  shows "inv (foldl step s es)"
  using assms by (induction es arbitrary: s) (auto intro: step_inv)

lemma run_prefix_inv:
  assumes "inv s" and "list_all legal es"
  shows "inv (foldl step s (take n es))"
  using assms by (intro run_inv) (auto simp: list_all_iff dest: in_set_takeD)

end

text \<open>
  A quantity that no legal call changes is unchanged by every run: the frame rule of an
  interface, used for latched states and frozen positions.
\<close>

locale framed_machine = invariant_machine +
  fixes obs :: "'s \<Rightarrow> 'o"
  assumes step_obs: "inv s \<Longrightarrow> legal e \<Longrightarrow> obs (step s e) = obs s"
begin

lemma run_obs:
  assumes "inv s" and "list_all legal es"
  shows "obs (foldl step s es) = obs s"
  using assms by (induction es arbitrary: s) (auto simp: step_obs step_inv)

end

section \<open>Start/stop lifecycles\<close>

text \<open>A run of calls with their results, oldest first.\<close>

fun run_calls :: "('s \<Rightarrow> 'c \<Rightarrow> 's \<times> 'r) \<Rightarrow> 's \<Rightarrow> 'c list \<Rightarrow> 's \<times> 'r list" where
  "run_calls call s [] = (s, [])"
| "run_calls call s (c # cs) =
     (let (s', r) = call s c; (s'', rs) = run_calls call s' cs in (s'', r # rs))"

datatype 'x lifecycle_call = Call_start 'x | Call_stop

text \<open>
  A component with a background thread: \<open>start\<close> (with what it samples from its environment) and
  \<open>stop\<close> exchange the running flag atomically, so only a change of the flag succeeds.
\<close>

locale lifecycle =
  fixes start :: "'x \<Rightarrow> 's \<Rightarrow> 's \<times> ('e, unit) expected"
    and stop :: "'s \<Rightarrow> 's \<times> ('e, unit) expected"
    and running :: "'s \<Rightarrow> bool"
    and already not_running :: 'e
  assumes start_result: "snd (start x s) = (if running s then Unexpected already else Ok ())"
    and start_running: "running (fst (start x s))"
    and start_twice: "running s \<Longrightarrow> fst (start x s) = s"
    and stop_result: "snd (stop s) = (if running s then Ok () else Unexpected not_running)"
    and stop_running: "\<not> running (fst (stop s))"
    and stop_twice: "\<not> running s \<Longrightarrow> fst (stop s) = s"
begin

fun call :: "'s \<Rightarrow> 'x lifecycle_call \<Rightarrow> 's \<times> ('e, unit) expected" where
  "call s (Call_start x) = start x s"
| "call s Call_stop = stop s"

lemma call_running: "running (fst (call s c)) \<longleftrightarrow> c \<noteq> Call_stop"
  by (cases c) (simp_all add: start_running stop_running)

lemma call_rejected: "\<not> has_value (snd (call s c)) \<Longrightarrow> fst (call s c) = s"
  by (cases c) (auto simp: start_result stop_result start_twice stop_twice split: if_splits)

lemma call_result: "has_value (snd (call s c)) \<longleftrightarrow> (running s \<longleftrightarrow> c = Call_stop)"
  by (cases c) (simp_all add: start_result stop_result)

text \<open>After a run the component runs iff the last call was a \<open>start\<close>; call \<open>i\<close> succeeded iff it is
  of the other kind than the call before it.\<close>

lemma run_running:
  "running (fst (run_calls call s cs)) \<longleftrightarrow> (if cs = [] then running s else last cs \<noteq> Call_stop)"
  by (induction cs arbitrary: s) (auto simp: split_beta call_running)

lemma run_results:
  "map has_value (snd (run_calls call s cs)) =
     map2 (\<lambda>p c. p \<longleftrightarrow> c = Call_stop) (running s # map (\<lambda>c. c \<noteq> Call_stop) cs) cs"
  by (induction cs arbitrary: s) (auto simp: split_beta call_running call_result)

end

end
