(* ===== verification/Float64.thy ===== *)
theory Float64
  imports Prelude
begin

text \<open>
  The C++ type \<open>double\<close>: IEEE 754 binary64, represented by its 64-bit pattern, with every
  operation rounded to nearest, ties to even (the environment the code runs in; no extended
  precision and no contraction into fused operations).

  A finite double is an integer multiple of \<open>2 ^ -1074\<close>.  \<open>scm m\<close> is that multiple for the
  magnitude field \<open>m\<close> (the pattern without its sign bit), and \<open>rnd_mag a b\<close> is the
  magnitude field of the double nearest to the quotient \<open>a / b\<close>, in the same unit.  Every
  arithmetic operation computes its exact result as such a quotient of naturals and rounds
  once.  The magnitude field is strictly monotone in the value, so comparison of doubles is
  comparison of signed magnitudes (\<open>f64_key\<close>).

  An operation whose result is a NaN returns the canonical quiet NaN; which payload the
  hardware would choose is not modelled, and no theorem depends on it.
\<close>

section \<open>Representation\<close>

datatype f64 = F64 (f64_bits: "64 word")

definition inf_mag :: nat where
  "inf_mag = 2047 * 2 ^ 52"

text \<open>The weight of the sign bit; magnitude fields lie below it.\<close>

definition sgn_bit :: nat where
  "sgn_bit = 2 ^ 63"

definition f64_neg :: "f64 \<Rightarrow> bool" where
  "f64_neg x \<longleftrightarrow> sgn_bit \<le> unat (f64_bits x)"

definition f64_mag :: "f64 \<Rightarrow> nat" where
  "f64_mag x = unat (f64_bits x) mod sgn_bit"

definition mk_f64 :: "bool \<Rightarrow> nat \<Rightarrow> f64" where
  "mk_f64 s m = F64 (word_of_nat ((if s then sgn_bit else 0) + m))"

definition is_nan :: "f64 \<Rightarrow> bool" where
  "is_nan x \<longleftrightarrow> inf_mag < f64_mag x"

definition is_inf :: "f64 \<Rightarrow> bool" where
  "is_inf x \<longleftrightarrow> f64_mag x = inf_mag"

definition is_finite :: "f64 \<Rightarrow> bool" where
  "is_finite x \<longleftrightarrow> f64_mag x < inf_mag"

definition quiet_nan :: f64 where
  "quiet_nan = mk_f64 False (inf_mag + 2 ^ 51)"

lemma f64_mag_less [simp]: "f64_mag x < sgn_bit"
  by (simp add: f64_mag_def sgn_bit_def)

lemma unat_of_nat_eq_64: "n < 2 ^ 64 \<Longrightarrow> unat (word_of_nat n :: 64 word) = n"
  by (simp only: unat_of_nat take_bit_nat_eq_self len_of_numeral_defs) simp

lemma unat_less_64: "unat (w :: 64 word) < 2 ^ 64"
  using unsigned_less [of w, where ?'a = nat] by simp

lemma mk_f64_fields [simp, f64_fields]:
  assumes "m < sgn_bit"
  shows "f64_mag (mk_f64 s m) = m" and "f64_neg (mk_f64 s m) = s"
proof -
  have "(if s then sgn_bit else 0) + m < (2 ^ 64 :: nat)" using assms by (simp add: sgn_bit_def)
  then have u: "unat (f64_bits (mk_f64 s m)) = (if s then sgn_bit else 0) + m"
    unfolding mk_f64_def f64.sel by (rule unat_of_nat_eq_64)
  show "f64_mag (mk_f64 s m) = m"
    using assms unfolding f64_mag_def u by simp
  show "f64_neg (mk_f64 s m) = s"
    using assms unfolding f64_neg_def u by simp
qed

lemma mk_f64_self [simp]: "mk_f64 (f64_neg x) (f64_mag x) = x"
proof -
  have lt: "unat (f64_bits x) < 2 ^ 64"
    by (rule unat_less_64)
  have "(if f64_neg x then sgn_bit else 0) + f64_mag x = unat (f64_bits x)"
  proof (cases "f64_neg x")
    case True
    then have ge: "sgn_bit \<le> unat (f64_bits x)" by (simp add: f64_neg_def)
    then have "unat (f64_bits x) mod sgn_bit = (unat (f64_bits x) - sgn_bit) mod sgn_bit"
      by (simp add: le_mod_geq)
    also have "\<dots> = unat (f64_bits x) - sgn_bit" using lt by (simp add: sgn_bit_def)
    finally show ?thesis using ge True by (simp add: f64_mag_def)
  next
    case False
    then show ?thesis by (simp add: f64_neg_def f64_mag_def)
  qed
  then show ?thesis by (simp add: mk_f64_def)
qed

text \<open>Fields of a literal pattern.\<close>

lemma F64_fields [f64_fields]:
  "f64_mag (F64 w) = unat w mod sgn_bit" "f64_neg (F64 w) = (sgn_bit \<le> unat w)"
  by (simp_all add: f64_mag_def f64_neg_def)

lemma f64_eqI:
  assumes "f64_neg x = f64_neg y" and "f64_mag x = f64_mag y"
  shows "x = y"
proof -
  have "mk_f64 (f64_neg x) (f64_mag x) = mk_f64 (f64_neg y) (f64_mag y)"
    by (simp only: assms)
  then show ?thesis by (simp only: mk_f64_self)
qed

section \<open>Rounding\<close>

fun nbits :: "nat \<Rightarrow> nat" where
  "nbits n = (if n = 0 then 0 else Suc (nbits (n div 2)))"

declare nbits.simps [simp del]

lemma nbits_le_iff: "nbits n \<le> k \<longleftrightarrow> n < 2 ^ k"
proof (induction n arbitrary: k rule: nbits.induct)
  case (1 n)
  show ?case
  proof (cases "n = 0")
    case True
    then show ?thesis by (simp add: nbits.simps)
  next
    case False
    show ?thesis
    proof (cases k)
      case 0
      with False show ?thesis by (subst nbits.simps) simp
    next
      case (Suc j)
      from False have "nbits n \<le> k \<longleftrightarrow> nbits (n div 2) \<le> j"
        by (subst nbits.simps) (simp add: Suc)
      also have "\<dots> \<longleftrightarrow> n div 2 < 2 ^ j" using "1.IH" False by simp
      also have "\<dots> \<longleftrightarrow> n < 2 ^ k" by (simp add: Suc) linarith
      finally show ?thesis .
    qed
  qed
qed

lemma nbits_mono: "m \<le> n \<Longrightarrow> nbits m \<le> nbits n"
  by (meson le_less_trans nbits_le_iff order_refl)

lemma nbits_lower: "k < nbits n \<Longrightarrow> 2 ^ k \<le> n"
  by (metis linorder_not_le nbits_le_iff)

lemma nbits_eqI: "2 ^ k \<le> n \<Longrightarrow> n < 2 ^ Suc k \<Longrightarrow> nbits n = Suc k"
  by (metis le_SucE linorder_not_le nbits_le_iff)

text \<open>The natural nearest to \<open>a / b\<close>, ties to even.\<close>

definition rne :: "nat \<Rightarrow> nat \<Rightarrow> nat" where
  "rne a b =
     (let q = a div b; r = a mod b
      in if 2 * r < b then q else if b < 2 * r then Suc q else if even q then q else Suc q)"

lemma rne_bounds:
  assumes "0 < b"
  shows "2 * a \<le> (2 * rne a b + 1) * b" and "2 * rne a b * b \<le> 2 * a + b"
    and "2 * a = (2 * rne a b + 1) * b \<Longrightarrow> even (rne a b)"
    and "2 * rne a b * b = 2 * a + b \<Longrightarrow> even (rne a b)"
proof -
  define q r where "q = a div b" and "r = a mod b"
  have a: "a = q * b + r" and r: "r < b" using assms by (simp_all add: q_def r_def)
  have n: "rne a b = (if 2 * r < b then q else if b < 2 * r then Suc q
      else if even q then q else Suc q)"
    by (simp add: rne_def q_def r_def Let_def)
  show "2 * a \<le> (2 * rne a b + 1) * b" "2 * rne a b * b \<le> 2 * a + b"
    unfolding n using a r by (simp_all add: algebra_simps)
  show "2 * a = (2 * rne a b + 1) * b \<Longrightarrow> even (rne a b)"
    "2 * rne a b * b = 2 * a + b \<Longrightarrow> even (rne a b)"
    unfolding n using a r assms by (auto simp: algebra_simps split: if_splits)
qed

lemma rne_mono:
  assumes "0 < b" "0 < b'" "a * b' \<le> a' * b"
  shows "rne a b \<le> rne a' b'"
proof (rule ccontr)
  define n n' where "n = rne a b" and "n' = rne a' b'"
  assume "\<not> rne a b \<le> rne a' b'"
  then have lt: "Suc n' \<le> n" by (simp add: n_def n'_def)
  have "(2 * n' + 1) * b * b' \<le> (2 * n - 1) * b * b'"
    using lt by (intro mult_right_mono) auto
  also have "\<dots> \<le> 2 * a * b'"
    using rne_bounds(2) [OF assms(1), of a] lt
    by (intro mult_right_mono) (auto simp: n_def [symmetric] algebra_simps diff_mult_distrib)
  also have "\<dots> \<le> 2 * a' * b" using assms(3) by (simp add: mult.assoc)
  finally have up: "(2 * n' + 1) * b * b' \<le> 2 * a' * b" .
  have lo: "2 * a' * b \<le> (2 * n' + 1) * b' * b"
    using rne_bounds(1) [OF assms(2), of a'] by (intro mult_right_mono) (auto simp: n'_def)
  have tie': "2 * a' * b = ((2 * n' + 1) * b') * b"
    using up lo by (simp add: algebra_simps)
  then have "2 * a' = (2 * n' + 1) * b'" using assms(1) by simp
  then have ev': "even n'" using rne_bounds(3) [OF assms(2), of a'] by (simp add: n'_def)
  have "2 * n * b * b' \<le> (2 * a + b) * b'"
    using rne_bounds(2) [OF assms(1), of a] by (intro mult_right_mono) (auto simp: n_def)
  also have "\<dots> \<le> (2 * n' + 2) * b * b'"
    using assms(3) tie' by (simp add: algebra_simps)
  finally have "(2 * n * b) * b' \<le> ((2 * n' + 2) * b) * b'" .
  then have "2 * n * b \<le> (2 * n' + 2) * b" using assms(2) mult_right_le_imp_le by blast
  then have "2 * n \<le> 2 * n' + 2" using assms(1) mult_right_le_imp_le by blast
  then have "n \<le> Suc n'" by simp
  with lt have n: "n = Suc n'" by simp
  have "2 * a * b' \<le> (2 * n' + 1) * b' * b" using assms(3) tie' by (simp add: algebra_simps)
  moreover have "2 * n * b * b' \<le> (2 * a + b) * b'"
    using rne_bounds(2) [OF assms(1), of a] by (intro mult_right_mono) (auto simp: n_def)
  ultimately have "(2 * n * b) * b' = (2 * a + b) * b'" using n by (simp add: algebra_simps)
  then have "2 * n * b = 2 * a + b" using assms(2) by simp
  then have "even n" using rne_bounds(4) [OF assms(1), of a] by (simp add: n_def)
  with ev' n show False by simp
qed

lemma rne_exact [simp]: "0 < b \<Longrightarrow> rne (c * b) b = c"
  by (simp add: rne_def)

lemma rne_scale: "0 < c \<Longrightarrow> 0 < b \<Longrightarrow> rne (a * c) (b * c) = rne a b"
  by (intro antisym rne_mono) (simp_all add: ac_simps)

text \<open>
  Magnitude fields as multiples of \<open>2 ^ -1074\<close>: subnormal below \<open>2 ^ 52\<close>, and a
  53-bit significand shifted by the exponent above.
\<close>

definition scm :: "nat \<Rightarrow> nat" where
  "scm m = (let e = m div 2 ^ 52; f = m mod 2 ^ 52
            in if e = 0 then f else (2 ^ 52 + f) * 2 ^ (e - 1))"

text \<open>The magnitude field of the double nearest to \<open>a / b\<close>, overflowing to infinity.\<close>

definition rnd_mag :: "nat \<Rightarrow> nat \<Rightarrow> nat" where
  "rnd_mag a b =
     (let k = nbits (a div b) - 53
      in min (k * 2 ^ 52 + rne a (b * 2 ^ k)) inf_mag)"

lemma rnd_mag_le_inf: "rnd_mag a b \<le> inf_mag"
  by (simp add: rnd_mag_def Let_def)

lemma inf_mag_less [simp]: "inf_mag < sgn_bit"
  by (simp add: inf_mag_def sgn_bit_def)

lemma rnd_mag_less [simp]: "rnd_mag a b < sgn_bit"
  using rnd_mag_le_inf inf_mag_less by (rule le_less_trans)

lemma rnd_mag_zero [simp]: "rnd_mag 0 b = 0"
  by (simp add: rnd_mag_def rne_def nbits.simps)

lemma div_mono_cross:
  fixes a b a' b' :: nat
  assumes "0 < b" "0 < b'" "a * b' \<le> a' * b"
  shows "a div b \<le> a' div b'"
proof -
  have "(a div b) * b \<le> a" by simp
  then have "(a div b) * b * b' \<le> a * b'" by (rule mult_right_mono) simp
  also have "\<dots> \<le> a' * b" by (rule assms(3))
  finally have "(a div b) * b' * b \<le> a' * b" by (simp add: ac_simps)
  then have "(a div b) * b' \<le> a'" using assms(1) by simp
  then show ?thesis using assms(2) by (simp add: less_eq_div_iff_mult_less_eq)
qed

text \<open>The significand produced for the exponent shift that \<open>rnd_mag\<close> chooses.\<close>

lemma rne_upper:
  assumes "0 < b" and "nbits (a div b) \<le> 53 + k"
  shows "rne a (b * 2 ^ k) \<le> 2 ^ 53"
proof -
  have "a div b < 2 ^ (53 + k)" using assms(2) by (simp only: nbits_le_iff)
  then have "a < 2 ^ (53 + k) * b" using assms(1) by (simp add: div_less_iff_less_mult)
  then have "a * (b * 2 ^ k) \<le> (2 ^ 53 * (b * 2 ^ k)) * (b * 2 ^ k)"
    by (intro mult_right_mono) (simp_all add: power_add ac_simps)
  then have "rne a (b * 2 ^ k) \<le> rne (2 ^ 53 * (b * 2 ^ k)) (b * 2 ^ k)"
    using assms(1) by (intro rne_mono) auto
  then show ?thesis using assms(1) by simp
qed

lemma rne_lower:
  assumes "0 < b" and "52 + k < nbits (a div b)"
  shows "2 ^ 52 \<le> rne a (b * 2 ^ k)"
proof -
  have "2 ^ (52 + k) \<le> a div b" using assms(2) by (rule nbits_lower)
  then have "2 ^ (52 + k) * b \<le> a" using assms(1) by (simp add: less_eq_div_iff_mult_less_eq)
  then have "(2 ^ 52 * (b * 2 ^ k)) * (b * 2 ^ k) \<le> a * (b * 2 ^ k)"
    by (intro mult_right_mono) (simp_all add: power_add ac_simps)
  then have "rne (2 ^ 52 * (b * 2 ^ k)) (b * 2 ^ k) \<le> rne a (b * 2 ^ k)"
    using assms(1) by (intro rne_mono) auto
  then show ?thesis using assms(1) by simp
qed

lemma rnd_mag_mono:
  assumes "0 < b" "0 < b'" "a * b' \<le> a' * b"
  shows "rnd_mag a b \<le> rnd_mag a' b'"
proof -
  define k k' where "k = nbits (a div b) - 53" and "k' = nbits (a' div b') - 53"
  have "nbits (a div b) \<le> nbits (a' div b')"
    using div_mono_cross [OF assms] by (rule nbits_mono)
  then have kk: "k \<le> k'" by (simp add: k_def k'_def)
  have "k * 2 ^ 52 + rne a (b * 2 ^ k) \<le> k' * 2 ^ 52 + rne a' (b' * 2 ^ k')"
  proof (cases "k = k'")
    case True
    have "a * (b' * 2 ^ k) \<le> a' * (b * 2 ^ k)" using assms(3) by (simp add: ac_simps)
    then show ?thesis using True assms by (simp add: rne_mono)
  next
    case False
    then have lt: "Suc k \<le> k'" using kk by simp
    have "rne a (b * 2 ^ k) \<le> 2 ^ 53"
      using assms(1) by (rule rne_upper) (simp add: k_def)
    moreover have "2 ^ 52 \<le> rne a' (b' * 2 ^ k')"
      using assms(2) by (rule rne_lower) (use lt in \<open>simp add: k'_def\<close>)
    moreover have "Suc k * 2 ^ 52 \<le> k' * (2 ^ 52 :: nat)" using lt by (rule mult_right_mono) simp
    ultimately show ?thesis by simp
  qed
  then show ?thesis
    unfolding rnd_mag_def k_def [symmetric] k'_def [symmetric] Let_def
    by (intro min.mono) simp_all
qed

lemma rnd_mag_scale: "0 < c \<Longrightarrow> 0 < b \<Longrightarrow> rnd_mag (a * c) (b * c) = rnd_mag a b"
  by (intro antisym rnd_mag_mono) (simp_all add: ac_simps)

text \<open>Rounding is the identity on representable values.\<close>

lemma rnd_mag_scm [simp]:
  assumes "m \<le> inf_mag"
  shows "rnd_mag (scm m) (Suc 0) = m"
proof -
  define e f where "e = m div 2 ^ 52" and "f = m mod 2 ^ 52"
  have m: "m = e * 2 ^ 52 + f" and f: "f < 2 ^ 52" by (simp_all add: e_def f_def)
  have s: "scm m = (if e = 0 then f else (2 ^ 52 + f) * 2 ^ (e - 1))"
    by (simp add: scm_def e_def f_def Let_def)
  show ?thesis
  proof (cases "e = 0")
    case True
    have "nbits f \<le> 52" using f by (simp only: nbits_le_iff)
    moreover have "rne f (Suc 0) = f" using rne_exact [of "Suc 0" f] by simp
    ultimately show ?thesis using True m s assms by (simp add: rnd_mag_def)
  next
    case False
    have "nbits ((2 ^ 52 + f) * 2 ^ (e - 1)) = Suc (52 + (e - 1))"
      using f by (intro nbits_eqI) (simp_all add: power_add)
    moreover have "rne ((2 ^ 52 + f) * 2 ^ (e - 1)) (2 ^ (e - 1)) = 2 ^ 52 + f" by simp
    moreover have "(e - 1) * 2 ^ 52 + (2 ^ 52 + f) = m"
      using False m by (cases e) auto
    ultimately show ?thesis using False s assms by (simp add: rnd_mag_def)
  qed
qed

lemma scm_zero [simp]: "scm 0 = 0"
  by (simp add: scm_def)

lemma scm_le_iff [f64_order]:
  assumes "m \<le> inf_mag" "n \<le> inf_mag"
  shows "scm m \<le> scm n \<longleftrightarrow> m \<le> n"
proof
  assume "scm m \<le> scm n"
  then have "rnd_mag (scm m) (Suc 0) \<le> rnd_mag (scm n) (Suc 0)" by (intro rnd_mag_mono) simp_all
  then show "m \<le> n" using assms by simp
next
  assume le: "m \<le> n"
  show "scm m \<le> scm n"
  proof (rule ccontr)
    assume "\<not> scm m \<le> scm n"
    then have "rnd_mag (scm n) (Suc 0) \<le> rnd_mag (scm m) (Suc 0)" by (intro rnd_mag_mono) simp_all
    then have "m = n" using assms le by simp
    with \<open>\<not> scm m \<le> scm n\<close> show False by simp
  qed
qed

lemma scm_eq_iff: "m \<le> inf_mag \<Longrightarrow> n \<le> inf_mag \<Longrightarrow> scm m = scm n \<longleftrightarrow> m = n"
  by (metis rnd_mag_scm)

section \<open>Operations\<close>

text \<open>The signed multiple of \<open>2 ^ -1074\<close> that a double denotes (infinities denote \<open>2 ^ 2098\<close>).\<close>

definition fsc :: "f64 \<Rightarrow> int" where
  "fsc x = (if f64_neg x then - int (scm (f64_mag x)) else int (scm (f64_mag x)))"

definition f64_key :: "f64 \<Rightarrow> int" where
  "f64_key x = (if f64_neg x then - int (f64_mag x) else int (f64_mag x))"

text \<open>The number of units in \<open>1.0\<close>.\<close>

definition unit_scale :: nat where
  "unit_scale = 2 ^ 1074"

lemma unit_scale_pos [simp]: "0 < unit_scale"
  by (simp add: unit_scale_def)

lemma sgn_bit_pos [simp]: "0 < sgn_bit"
  by (simp add: sgn_bit_def)

instantiation f64 :: "{zero, one, plus, minus, uminus, times, inverse, abs, ord}"
begin

definition zero_f64 :: f64 where
  "zero_f64 = mk_f64 False 0"

definition one_f64 :: f64 where
  "one_f64 = F64 0x3FF0000000000000"

definition uminus_f64 :: "f64 \<Rightarrow> f64" where
  "uminus_f64 x = mk_f64 (\<not> f64_neg x) (f64_mag x)"

definition abs_f64 :: "f64 \<Rightarrow> f64" where
  "abs_f64 x = mk_f64 False (f64_mag x)"

definition plus_f64 :: "f64 \<Rightarrow> f64 \<Rightarrow> f64" where
  "plus_f64 x y =
     (if is_nan x \<or> is_nan y then quiet_nan
      else if is_inf x then (if is_inf y \<and> f64_neg x \<noteq> f64_neg y then quiet_nan else x)
      else if is_inf y then y
      else let p = fsc x + fsc y
           in if p = 0 then mk_f64 (f64_neg x \<and> f64_neg y) 0
              else mk_f64 (p < 0) (rnd_mag (nat \<bar>p\<bar>) 1))"

definition minus_f64 :: "f64 \<Rightarrow> f64 \<Rightarrow> f64" where
  "minus_f64 x y = x + - y"

definition times_f64 :: "f64 \<Rightarrow> f64 \<Rightarrow> f64" where
  "times_f64 x y =
     (let s = (f64_neg x \<noteq> f64_neg y)
      in if is_nan x \<or> is_nan y then quiet_nan
         else if is_inf x \<or> is_inf y
           then (if f64_mag x = 0 \<or> f64_mag y = 0 then quiet_nan else mk_f64 s inf_mag)
         else mk_f64 s (rnd_mag (scm (f64_mag x) * scm (f64_mag y)) unit_scale))"

definition divide_f64 :: "f64 \<Rightarrow> f64 \<Rightarrow> f64" where
  "divide_f64 x y =
     (let s = (f64_neg x \<noteq> f64_neg y)
      in if is_nan x \<or> is_nan y then quiet_nan
         else if is_inf x then (if is_inf y then quiet_nan else mk_f64 s inf_mag)
         else if is_inf y then mk_f64 s 0
         else if f64_mag y = 0
           then (if f64_mag x = 0 then quiet_nan else mk_f64 s inf_mag)
         else mk_f64 s (rnd_mag (scm (f64_mag x) * unit_scale) (scm (f64_mag y))))"

definition inverse_f64 :: "f64 \<Rightarrow> f64" where
  "inverse_f64 x = 1 div x"

definition less_eq_f64 :: "f64 \<Rightarrow> f64 \<Rightarrow> bool" where
  "less_eq_f64 x y \<longleftrightarrow> \<not> is_nan x \<and> \<not> is_nan y \<and> f64_key x \<le> f64_key y"

definition less_f64 :: "f64 \<Rightarrow> f64 \<Rightarrow> bool" where
  "less_f64 x y \<longleftrightarrow> \<not> is_nan x \<and> \<not> is_nan y \<and> f64_key x < f64_key y"

instance ..

end

text \<open>C++ \<open>==\<close> on doubles: NaN differs from everything, the two zeros are equal.\<close>

definition feq :: "f64 \<Rightarrow> f64 \<Rightarrow> bool" where
  "feq x y \<longleftrightarrow> \<not> is_nan x \<and> \<not> is_nan y \<and> f64_key x = f64_key y"

text \<open>\<open>std::min\<close>, \<open>std::max\<close> and \<open>std::clamp\<close>, with the comparisons of the standard's wording.\<close>

definition std_min :: "f64 \<Rightarrow> f64 \<Rightarrow> f64" where
  "std_min a b = (if b < a then b else a)"

definition std_max :: "f64 \<Rightarrow> f64 \<Rightarrow> f64" where
  "std_max a b = (if a < b then b else a)"

definition std_clamp :: "f64 \<Rightarrow> f64 \<Rightarrow> f64 \<Rightarrow> f64" where
  "std_clamp v lo hi = (if v < lo then lo else if hi < v then hi else v)"

text \<open>Conversion of an integer, rounded to nearest: \<open>static_cast<double>\<close>.\<close>

definition f64_of_int :: "int \<Rightarrow> f64" where
  "f64_of_int i = mk_f64 (i < 0) (rnd_mag (nat \<bar>i\<bar> * unit_scale) 1)"

text \<open>Literals of the source.\<close>

definition f64_half :: f64 where "f64_half = F64 0x3FE0000000000000"
definition f64_two :: f64 where "f64_two = F64 0x4000000000000000"
definition f64_five :: f64 where "f64_five = F64 0x4014000000000000"
definition f64_eight :: f64 where "f64_eight = F64 0x4020000000000000"
definition f64_180 :: f64 where "f64_180 = F64 0x4066800000000000"
definition f64_1e9 :: f64 where "f64_1e9 = F64 0x41CDCD6500000000"

text \<open>\<open>std::numbers::pi\<close>.\<close>
definition f64_pi :: f64 where "f64_pi = F64 0x400921FB54442D18"

text \<open>
  \<open>std::chrono::duration<double>(dt).count()\<close> for \<open>dt\<close> in nanoseconds: the count
  converted to \<open>double\<close>, divided by \<open>1e9\<close>.
\<close>

definition seconds_of :: "i64 \<Rightarrow> f64" where
  "seconds_of dt = f64_of_int (sint dt) / f64_1e9"

end
