(* ===== verification/Wire.thy ===== *)
theory Wire
  imports Prelude Float64
begin

text \<open>
  Big-endian encodings of the protocol: the byte-order helpers of
  \<open>src/protocol/frame_codec.cpp\<close> and of \<open>src/cli/byte_order_internal.hpp\<close>.  A \<open>write\<close> function
  appends to the output vector, a \<open>read\<close> function looks at the first bytes of a span that its
  callers have checked to be long enough.  All of them are instances of one interface, the
  fixed-length codec, whose consequences (lengths, prefixes, round trips, sequences of
  encoded values) the payload theories use.
\<close>

section \<open>The fixed-length codec interface\<close>

locale fixed_codec =
  fixes wr :: "bytes \<Rightarrow> 'a \<Rightarrow> bytes"
    and rd :: "bytes \<Rightarrow> 'a"
    and size :: nat
  assumes write_appends: "wr out x = out @ wr [] x"
    and write_length: "length (wr [] x) = size"
    and read_write: "rd (wr [] x @ rest) = x"
    and write_read: "length bs = size \<Longrightarrow> wr [] (rd bs) = bs"
begin

lemma read_write_exact: "rd (wr [] x) = x"
  using read_write [of x "[]"] by simp

lemma write_inject: "wr [] x = wr [] y \<longleftrightarrow> x = y"
  by (metis read_write_exact)

lemma read_take: "size \<le> length bs \<Longrightarrow> rd (take size bs) = rd bs"
  by (metis append_take_drop_id length_take min.absorb2 read_write write_read)

lemma read_append: "size \<le> length bs \<Longrightarrow> rd (bs @ rest) = rd bs"
  using read_take [of bs] read_take [of "bs @ rest"] by simp

lemma write_read_take: "size \<le> length bs \<Longrightarrow> wr [] (rd bs) = take size bs"
  using write_read [of "take size bs"] by (simp add: read_take)

lemma foldl_write: "foldl wr out xs = out @ concat (map (wr []) xs)"
proof (induction xs arbitrary: out)
  case (Cons x xs)
  then show ?case by (simp add: write_appends [of out])
qed simp

lemma concat_write_length: "length (concat (map (wr []) xs)) = size * length xs"
  by (induction xs) (simp_all add: write_length)

end

section \<open>Spans\<close>

text \<open>\<open>std::span::subspan(offset, count)\<close>.\<close>

definition subspan :: "bytes \<Rightarrow> nat \<Rightarrow> nat \<Rightarrow> bytes" where
  "subspan bs offset count = take count (drop offset bs)"

section \<open>Sixteen and thirty-two bits\<close>

definition writeU16BE :: "bytes \<Rightarrow> u16 \<Rightarrow> bytes" where
  "writeU16BE out value =
     out @ [ucast (and (drop_bit 8 value) 0xFF)] @ [ucast (and value 0xFF)]"

definition writeU32BE :: "bytes \<Rightarrow> u32 \<Rightarrow> bytes" where
  "writeU32BE out value =
     out @ [ucast (and (drop_bit 24 value) 0xFF)]
         @ [ucast (and (drop_bit 16 value) 0xFF)]
         @ [ucast (and (drop_bit 8 value) 0xFF)]
         @ [ucast (and value 0xFF)]"

definition readU16BE :: "bytes \<Rightarrow> u16" where
  "readU16BE bs = or (push_bit 8 (ucast (bs ! 0))) (ucast (bs ! 1))"

definition readU32BE :: "bytes \<Rightarrow> u32" where
  "readU32BE bs =
     or (or (or (push_bit 24 (ucast (bs ! 0))) (push_bit 16 (ucast (bs ! 1))))
            (push_bit 8 (ucast (bs ! 2))))
        (ucast (bs ! 3))"

section \<open>Doubles\<close>

text \<open>\<open>std::bit_cast\<close> between \<open>double\<close> and \<open>std::uint64_t\<close> is \<open>f64_bits\<close> and \<open>F64\<close>.\<close>

definition writeF64BE :: "bytes \<Rightarrow> f64 \<Rightarrow> bytes" where
  "writeF64BE out value =
     foldl (\<lambda>out shift. out @ [ucast (and (drop_bit shift (f64_bits value)) 0xFF)]) out
       [56, 48, 40, 32, 24, 16, 8, 0]"

definition readF64BE :: "bytes \<Rightarrow> f64" where
  "readF64BE bs =
     F64 (foldl (\<lambda>bits i. or (push_bit 8 bits) (ucast (bs ! i))) 0 [0..<8])"

section \<open>The byte-order helpers are codecs\<close>

lemma mask_byte: "(0xFF :: 'a :: len word) = mask 8"
  by (simp add: mask_eq_exp_minus_1)

lemma byte_mask [simp]: "(ucast (and w (0xFF :: 'a :: len word)) :: byte) = ucast w"
  unfolding mask_byte by (rule bit_word_eqI) (auto simp: bit_simps dest: bit_imp_le_length)

lemma bit_shifted [simp]:
  "bit (w :: 'a :: len word) (k + (n - k)) = (if k \<le> n then bit w n else bit w k)"
  by simp

lemma bit_byte_high [simp]: "8 \<le> k \<Longrightarrow> \<not> bit (b :: byte) (k + n)"
  using bit_imp_le_length [of b "k + n"] by auto

lemma length_2_cases: "length bs = 2 \<Longrightarrow> \<exists>a b. bs = [a, b]"
  by (auto simp: eval_nat_numeral length_Suc_conv)

lemma length_4_cases: "length bs = 4 \<Longrightarrow> \<exists>a b c d. bs = [a, b, c, d]"
  by (auto simp: eval_nat_numeral length_Suc_conv)

lemma length_8_cases: "length bs = 8 \<Longrightarrow> \<exists>a b c d e f g h. bs = [a, b, c, d, e, f, g, h]"
  by (auto simp: eval_nat_numeral length_Suc_conv)

interpretation u16: fixed_codec writeU16BE readU16BE 2
proof unfold_locales
  show "readU16BE (writeU16BE [] x @ rest) = x" for x rest
    by (rule bit_word_eqI) (auto simp: writeU16BE_def readU16BE_def bit_simps)
  show "writeU16BE [] (readU16BE bs) = bs" if "length bs = 2" for bs
    using length_2_cases [OF that]
    by (auto simp: writeU16BE_def readU16BE_def bit_simps intro!: bit_word_eqI dest: bit_imp_le_length)
qed (simp_all add: writeU16BE_def)

interpretation u32: fixed_codec writeU32BE readU32BE 4
proof unfold_locales
  show "readU32BE (writeU32BE [] x @ rest) = x" for x rest
    by (rule bit_word_eqI) (auto simp: writeU32BE_def readU32BE_def bit_simps)
  show "writeU32BE [] (readU32BE bs) = bs" if "length bs = 4" for bs
    using length_4_cases [OF that]
    by (auto simp: writeU32BE_def readU32BE_def bit_simps intro!: bit_word_eqI dest: bit_imp_le_length)
qed (simp_all add: writeU32BE_def)

interpretation f64: fixed_codec writeF64BE readF64BE 8
proof unfold_locales
  show "readF64BE (writeF64BE [] x @ rest) = x" for x rest
  proof (cases x)
    case (F64 w)
    show ?thesis unfolding F64 f64.inject writeF64BE_def readF64BE_def
    proof (rule bit_word_eqI)
      fix n :: nat
      assume "n < LENGTH(64)"
      then have "n < 8 \<or> (8 \<le> n \<and> n < 16) \<or> (16 \<le> n \<and> n < 24) \<or> (24 \<le> n \<and> n < 32) \<or>
        (32 \<le> n \<and> n < 40) \<or> (40 \<le> n \<and> n < 48) \<or> (48 \<le> n \<and> n < 56) \<or> (56 \<le> n \<and> n < 64)"
        by auto
      then show "bit (foldl (\<lambda>bits i. or (push_bit 8 bits) (ucast ((foldl (\<lambda>out shift. out @
            [ucast (and (drop_bit shift (f64_bits (F64 w))) 0xFF) :: byte]) [] [56, 48, 40, 32, 24, 16, 8, 0] @ rest) ! i)))
          (0 :: 64 word) [0..<8]) n = bit w n"
        by (elim disjE conjE) (simp_all add: upt_conv_Cons bit_simps less_diff_conv2)
    qed
  qed
  show "writeF64BE [] (readF64BE bs) = bs" if "length bs = 8" for bs
    using length_8_cases [OF that]
    by (auto simp: writeF64BE_def readF64BE_def upt_conv_Cons bit_simps intro!: bit_word_eqI
      dest: bit_imp_le_length)
qed (simp_all add: writeF64BE_def)

lemmas wire_codecs [wire_simps] =
  u16.write_length u32.write_length f64.write_length
  u16.read_write u32.read_write f64.read_write
  u16.read_write_exact u32.read_write_exact f64.read_write_exact

section \<open>Characters\<close>

text \<open>\<open>std::string\<close> holds bytes: \<open>static_cast<std::byte>(c)\<close> and the inverse reinterpretation.\<close>

definition byte_of_char :: "char \<Rightarrow> byte" where
  "byte_of_char c = word_of_nat (of_char c)"

definition char_of_byte :: "byte \<Rightarrow> char" where
  "char_of_byte b = char_of (unat b)"

lemma char_of_byte_of_char [simp]: "char_of_byte (byte_of_char c) = c"
  by (simp add: char_of_byte_def byte_of_char_def unat_of_nat)

lemma byte_of_char_of_byte [simp]: "byte_of_char (char_of_byte b) = b"
proof -
  have "unat b < 256" using unsigned_less [of b, where ?'a = nat] by simp
  then show ?thesis by (simp add: char_of_byte_def byte_of_char_def)
qed

lemma map_char_of_byte_of_char [simp]: "map char_of_byte (map byte_of_char s) = s"
  by (simp add: comp_def)

lemma map_byte_of_char_of_byte [simp]: "map byte_of_char (map char_of_byte bs) = bs"
  by (simp add: comp_def)

end
