(* ===== verification/Base64.thy ===== *)
theory Base64
  imports Wire
begin

text \<open>
  \<open>robot::websocket::base64Encode\<close> (\<open>include/robot/websocket/base64.hpp\<close>,
  \<open>src/websocket/base64.cpp\<close>), with a decoder as its specification.
\<close>

section \<open>The encoder\<close>

definition kAlphabet :: string where
  "kAlphabet = ''ABCDEFGHIJKLMNOPQRSTUVWXYZabcdefghijklmnopqrstuvwxyz0123456789+/''"

text \<open>\<open>kAlphabet[(value >> shift) & 0x3F]\<close>.\<close>

definition sextet :: "u32 \<Rightarrow> nat \<Rightarrow> char" where
  "sextet value shift = kAlphabet ! unat (and (drop_bit shift value) 0x3F)"

text \<open>The loop consumes three bytes per pass; the two final branches are the last one or two.\<close>

fun base64Encode :: "bytes \<Rightarrow> string" where
  "base64Encode (a # b # c # rest) =
     (let triple = or (or (push_bit 16 (ucast a)) (push_bit 8 (ucast b))) (ucast c)
      in [sextet triple 18, sextet triple 12, sextet triple 6, sextet triple 0] @ base64Encode rest)"
| "base64Encode [a] =
     (let value = push_bit 16 (ucast a) in [sextet value 18, sextet value 12, CHR ''='', CHR ''=''])"
| "base64Encode [a, b] =
     (let value = or (push_bit 16 (ucast a)) (push_bit 8 (ucast b))
      in [sextet value 18, sextet value 12, sextet value 6, CHR ''=''])"
| "base64Encode [] = []"

section \<open>A decoder\<close>

text \<open>The value of a character of the alphabet.\<close>

definition sextet_value :: "char \<Rightarrow> u32" where
  "sextet_value c = word_of_nat (length (takeWhile (\<lambda>x. x \<noteq> c) kAlphabet))"

definition join_sextets :: "char \<Rightarrow> char \<Rightarrow> char \<Rightarrow> char \<Rightarrow> u32" where
  "join_sextets p q r s =
     or (or (push_bit 18 (sextet_value p)) (push_bit 12 (sextet_value q)))
        (or (push_bit 6 (sextet_value r)) (sextet_value s))"

fun base64_decode :: "string \<Rightarrow> bytes option" where
  "base64_decode [] = Some []"
| "base64_decode (p # q # r # s # rest) =
     (if r = CHR ''='' then Some [ucast (drop_bit 16 (join_sextets p q (CHR ''A'') (CHR ''A'')))]
      else if s = CHR ''='' then
        (let v = join_sextets p q r (CHR ''A'') in Some [ucast (drop_bit 16 v), ucast (drop_bit 8 v)])
      else
        (let v = join_sextets p q r s in
         map_option (\<lambda>bs. [ucast (drop_bit 16 v), ucast (drop_bit 8 v), ucast v] @ bs) (base64_decode rest)))"
| "base64_decode _ = None"

section \<open>Lemmas\<close>

lemma alphabet_values:
  "list_all (\<lambda>i. length (takeWhile (\<lambda>x. x \<noteq> kAlphabet ! i) kAlphabet) = i \<and> kAlphabet ! i \<noteq> CHR ''='') [0..<64]"
  by code_simp

lemma sextet_index: "unat (and w (0x3F :: u32)) < 64"
proof -
  have "(0x3F :: u32) = mask 6" by (simp add: mask_eq_exp_minus_1)
  then have "and w (0x3F :: u32) = take_bit 6 w" by (simp add: take_bit_eq_mask)
  then show ?thesis using unsigned_take_bit_eq [of 6 w, where ?'a = nat] take_bit_nat_less_exp [of 6 "unat w"] by simp
qed

lemma sextet_facts:
  "sextet_value (sextet v k) = take_bit 6 (drop_bit k v)" "sextet v k \<noteq> CHR ''=''"
proof -
  let ?i = "unat (and (drop_bit k v) 0x3F)"
  have "length (takeWhile (\<lambda>x. x \<noteq> kAlphabet ! ?i) kAlphabet) = ?i" "kAlphabet ! ?i \<noteq> CHR ''=''"
    using alphabet_values sextet_index [of "drop_bit k v"] by (simp_all add: list_all_length)
  moreover have "(0x3F :: u32) = mask 6" by (simp add: mask_eq_exp_minus_1)
  ultimately show "sextet_value (sextet v k) = take_bit 6 (drop_bit k v)" "sextet v k \<noteq> CHR ''=''"
    by (simp_all add: sextet_value_def sextet_def take_bit_eq_mask)
qed

lemma sextet_value_A: "sextet_value (CHR ''A'') = 0"
  by (simp add: sextet_value_def kAlphabet_def)

lemma join_four: "join_sextets (sextet t 18) (sextet t 12) (sextet t 6) (sextet t 0) = take_bit 24 t"
  unfolding join_sextets_def sextet_facts
  by (rule bit_word_eqI) (auto simp: bit_simps)

lemma join_three:
  "join_sextets (sextet t 18) (sextet t 12) (sextet t 6) (CHR ''A'') = take_bit 24 (and t (not (mask 6)))"
  unfolding join_sextets_def sextet_facts sextet_value_A
  by (rule bit_word_eqI) (auto simp: bit_simps)

lemma join_two:
  "join_sextets (sextet t 18) (sextet t 12) (CHR ''A'') (CHR ''A'') = take_bit 24 (and t (not (mask 12)))"
  unfolding join_sextets_def sextet_facts sextet_value_A
  by (rule bit_word_eqI) (auto simp: bit_simps)

lemma triple_bytes:
  fixes a b c :: byte
  defines "t \<equiv> or (or (push_bit 16 (ucast a)) (push_bit 8 (ucast b))) (ucast c) :: u32"
  shows "ucast (drop_bit 16 (take_bit 24 t)) = a" and "ucast (drop_bit 8 (take_bit 24 t)) = b"
    and "ucast (take_bit 24 t) = c"
  unfolding t_def by (rule bit_word_eqI, auto simp: bit_simps dest: bit_imp_le_length)+

lemma double_bytes:
  fixes a b :: byte
  defines "t \<equiv> take_bit 24 (and (or (push_bit 16 (ucast a)) (push_bit 8 (ucast b))) (not (mask 6))) :: u32"
  shows "ucast (drop_bit 16 t) = a" and "ucast (drop_bit 8 t) = b"
  unfolding t_def by (rule bit_word_eqI, auto simp: bit_simps dest: bit_imp_le_length)+

lemma single_byte: "ucast (drop_bit 16 (take_bit 24 (and (push_bit 16 (ucast a)) (not (mask 12))) :: u32)) = (a :: byte)"
  by (rule bit_word_eqI, auto simp: bit_simps dest: bit_imp_le_length)

lemma base64_decode_encode: "base64_decode (base64Encode bs) = Some bs"
  by (induction bs rule: base64Encode.induct)
    (simp_all only: base64Encode.simps base64_decode.simps Let_def append.simps sextet_facts(2) if_False
      if_True simp_thms join_four join_three join_two triple_bytes double_bytes single_byte option.map)

lemma div_3_step: "(5 + n) div 3 = Suc ((n + 2) div 3)" for n :: nat
  by presburger

lemma base64_length: "length (base64Encode bs) = (length bs + 2) div 3 * 4"
  by (induction bs rule: base64Encode.induct) (simp_all add: Let_def div_3_step)

section \<open>Properties\<close>

text \<open>Base64: decoding what \<open>base64Encode\<close> returns gives back the input, for every input, so the
  padding is right in all three cases; and the result has the length the code reserves.\<close>

theorem base64_roundtrip:
  "base64_decode (base64Encode input) = Some input \<and>
   length (base64Encode input) = (length input + 2) div 3 * 4"
  by (simp add: base64_decode_encode base64_length)

end
