(* ===== verification/Sha1.thy ===== *)
theory Sha1
  imports Wire
begin

text \<open>
  \<open>robot::websocket::sha1\<close> (\<open>include/robot/websocket/sha1.hpp\<close>, \<open>src/websocket/sha1.cpp\<close>).  The
  function is the sequence the source has: padding, one pass per 64-byte chunk (the message
  schedule, then 80 rounds), and the digest bytes.
\<close>

definition rotateLeft :: "u32 \<Rightarrow> nat \<Rightarrow> u32" where
  "rotateLeft value bits = or (push_bit bits value) (drop_bit (32 - bits) value)"

definition zeros_needed :: "nat \<Rightarrow> nat" where
  "zeros_needed n = (120 - n mod 64) mod 64"

lemma zeros_needed_step:
  assumes "n mod 64 \<noteq> 56"
  shows "zeros_needed n = Suc (zeros_needed (Suc n))"
proof -
  have m: "(120 - r) mod 64 = (if r \<le> 56 then 56 - r else 120 - r)" if "r < 64" for r :: nat
    using that by (auto simp: le_mod_geq)
  have "n mod 64 < 64" "Suc n mod 64 = (if n mod 64 = 63 then 0 else Suc (n mod 64))"
    by (simp_all add: mod_Suc)
  then show ?thesis using assms by (auto simp: zeros_needed_def m)
qed

text \<open>\<open>while (message.size() % 64 != 56) push_back(0)\<close>.\<close>

function pad_zeros :: "bytes \<Rightarrow> bytes" where
  "pad_zeros message = (if length message mod 64 \<noteq> 56 then pad_zeros (message @ [0]) else message)"
  by auto
termination
proof (relation "measure (\<lambda>m. zeros_needed (length m))")
  fix message :: bytes
  assume "length message mod 64 \<noteq> 56"
  then show "(message @ [0], message) \<in> measure (\<lambda>m. zeros_needed (length m))"
    using zeros_needed_step [of "length message"] by simp
qed simp

declare pad_zeros.simps [simp del]

definition pad_message :: "bytes \<Rightarrow> bytes" where
  "pad_message message =
     (let originalBitLength = (word_of_nat (length message) * 8 :: u64);
          message = message @ [0x80];
          message = pad_zeros message
      in foldl (\<lambda>out shift. out @ [ucast (and (drop_bit shift originalBitLength) 0xFF)]) message
           [56, 48, 40, 32, 24, 16, 8, 0])"

record sha1_state =
  h0 :: u32
  h1 :: u32
  h2 :: u32
  h3 :: u32
  h4 :: u32

definition sha1_init :: sha1_state where
  "sha1_init = \<lparr>h0 = 0x67452301, h1 = 0xEFCDAB89, h2 = 0x98BADCFE, h3 = 0x10325476, h4 = 0xC3D2E1F0\<rparr>"

text \<open>The message schedule: sixteen words of the chunk, then 64 derived ones.\<close>

definition schedule_word :: "bytes \<Rightarrow> nat \<Rightarrow> u32" where
  "schedule_word chunk i =
     (let offset = i * 4 in
      or (or (or (push_bit 24 (ucast (chunk ! offset))) (push_bit 16 (ucast (chunk ! (offset + 1)))))
             (push_bit 8 (ucast (chunk ! (offset + 2)))))
         (ucast (chunk ! (offset + 3))))"

definition schedule :: "bytes \<Rightarrow> u32 list" where
  "schedule chunk =
     foldl (\<lambda>w i. w @ [rotateLeft (xor (xor (xor (w ! (i - 3)) (w ! (i - 8))) (w ! (i - 14))) (w ! (i - 16))) 1])
       (map (schedule_word chunk) [0..<16]) [16..<80]"

definition round_function :: "nat \<Rightarrow> u32 \<Rightarrow> u32 \<Rightarrow> u32 \<Rightarrow> u32 \<times> u32" where
  "round_function i b c d =
     (if i < 20 then (or (and b c) (and (not b) d), 0x5A827999)
      else if i < 40 then (xor (xor b c) d, 0x6ED9EBA1)
      else if i < 60 then (or (or (and b c) (and b d)) (and c d), 0x8F1BBCDC)
      else (xor (xor b c) d, 0xCA62C1D6))"

definition sha1_round :: "u32 list \<Rightarrow> sha1_state \<Rightarrow> nat \<Rightarrow> sha1_state" where
  "sha1_round w s i =
     (let (f, k) = round_function i (h1 s) (h2 s) (h3 s);
          temp = rotateLeft (h0 s) 5 + f + h4 s + k + w ! i
      in \<lparr>h0 = temp, h1 = h0 s, h2 = rotateLeft (h1 s) 30, h3 = h2 s, h4 = h3 s\<rparr>)"

definition sha1_chunk :: "sha1_state \<Rightarrow> bytes \<Rightarrow> sha1_state" where
  "sha1_chunk s chunk =
     (let w = schedule chunk;
          r = foldl (sha1_round w) s [0..<80]
      in \<lparr>h0 = h0 s + h0 r, h1 = h1 s + h1 r, h2 = h2 s + h2 r, h3 = h3 s + h3 r, h4 = h4 s + h4 r\<rparr>)"

definition chunks_of :: "bytes \<Rightarrow> bytes list" where
  "chunks_of message = map (\<lambda>n. take 64 (drop (n * 64) message)) [0..<length message div 64]"

definition sha1_digest :: "sha1_state \<Rightarrow> bytes" where
  "sha1_digest s =
     concat (map (\<lambda>v. [ucast (and (drop_bit 24 v) 0xFF), ucast (and (drop_bit 16 v) 0xFF),
                    ucast (and (drop_bit 8 v) 0xFF), ucast (and v 0xFF)])
       [h0 s, h1 s, h2 s, h3 s, h4 s])"

definition sha1 :: "bytes \<Rightarrow> bytes" where
  "sha1 input = sha1_digest (foldl sha1_chunk sha1_init (chunks_of (pad_message input)))"

section \<open>Lemmas\<close>

lemma rotateLeft_rotl:
  assumes "0 < n" "n < 32"
  shows "rotateLeft v n = word_rotl n v"
proof (rule bit_word_eqI)
  fix i
  assume i: "i < LENGTH(32)"
  have "(i + 32 - n) mod 32 = (if n \<le> i then i - n else 32 - n + i)"
    using assms i by (auto simp: le_mod_geq)
  then show "bit (rotateLeft v n) i = bit (word_rotl n v) i"
    using assms i by (auto simp: rotateLeft_def bit_simps bit_word_rotl_iff dest: bit_imp_le_length)
qed

lemma pad_zeros_replicate: "pad_zeros m = m @ replicate (zeros_needed (length m)) 0"
proof (induction m rule: pad_zeros.induct)
  case (1 m)
  show ?case
  proof (cases "length m mod 64 = 56")
    case True
    then show ?thesis by (subst pad_zeros.simps) (simp add: zeros_needed_def)
  next
    case False
    then show ?thesis using 1 zeros_needed_step [of "length m"] by (subst pad_zeros.simps) simp
  qed
qed

lemma pad_zeros_length: "length (pad_zeros m) mod 64 = 56"
proof (induction m rule: pad_zeros.induct)
  case (1 m)
  then show ?case by (cases "length m mod 64 = 56") (subst pad_zeros.simps, simp)+
qed

text \<open>The last eight bytes are the big-endian bit length.\<close>

lemma pad_message_parts:
  "pad_message m = (m @ [0x80] @ replicate (zeros_needed (Suc (length m))) 0) @
     writeF64BE [] (F64 (word_of_nat (length m) * 8))"
proof -
  have "foldl (\<lambda>out shift. out @ [ucast (and (drop_bit shift w) 0xFF)]) out
      [56, 48, 40, 32, 24, 16, 8, 0] = out @ writeF64BE [] (F64 w)" for w out
    unfolding writeF64BE_def by simp
  then show ?thesis by (simp add: pad_message_def pad_zeros_replicate)
qed

lemma pad_message_blocks: "length (pad_message m) mod 64 = 0"
proof -
  have "length (m @ [0x80] @ replicate (zeros_needed (Suc (length m))) 0) mod 64 = 56"
    using pad_zeros_length [of "m @ [0x80]"] by (simp add: pad_zeros_replicate)
  then have "(length (m @ [0x80] @ replicate (zeros_needed (Suc (length m))) 0) + 8) mod 64 = 0"
    by presburger
  then show ?thesis
    unfolding pad_message_parts length_append [of _ "writeF64BE [] _"] f64.write_length .
qed

lemma bit_length_inject:
  assumes "n < 2 ^ 61" "k < 2 ^ 61" "(word_of_nat n * 8 :: u64) = word_of_nat k * 8"
  shows "n = k"
proof -
  have "(word_of_nat (n * 8) :: u64) = word_of_nat (k * 8)" using assms(3) by simp
  then have "unat (word_of_nat (n * 8) :: u64) = unat (word_of_nat (k * 8) :: u64)" by (simp only:)
  moreover have "unat (word_of_nat (n * 8) :: u64) = n * 8" "unat (word_of_nat (k * 8) :: u64) = k * 8"
    using assms(1,2) by (intro unat_of_nat_eq_64; simp)+
  ultimately show ?thesis by simp
qed

lemma pad_message_inject:
  assumes "pad_message m = pad_message m'" and "length m < 2 ^ 61" "length m' < 2 ^ 61"
  shows "m = m'"
proof -
  have "writeF64BE [] (F64 (word_of_nat (length m) * 8)) = writeF64BE [] (F64 (word_of_nat (length m') * 8))"
    using assms(1) unfolding pad_message_parts by (rule conjunct2 [OF append_eq_append_conv [THEN iffD1], rotated])
      (simp add: f64.write_length)
  then have "length m = length m'"
    using assms(2,3) by (intro bit_length_inject) (simp_all add: f64.write_inject)
  then show ?thesis using assms(1) by (simp add: pad_message_parts)
qed

lemma sha1_length: "length (sha1 m) = 20"
  by (simp add: sha1_def sha1_digest_def)

lemma chunks_cover: "concat (chunks_of m) = take (length m div 64 * 64) m"
proof -
  have "concat (map (\<lambda>n. take 64 (drop (n * 64) m)) [0..<k]) = take (k * 64) m" if "k * 64 \<le> length m" for k
    using that
  proof (induction k)
    case (Suc k)
    have "Suc k * 64 = k * 64 + 64" by simp
    then show ?case using Suc by (simp only: take_add) simp
  qed simp
  then show ?thesis by (simp add: chunks_of_def)
qed

section \<open>Properties\<close>

text \<open>The padding of SHA-1 is the standard's: for messages below \<open>2 ^ 61\<close> bytes two messages are
  padded alike only if they are equal, the padded length is a multiple of 64, so the chunks
  that are hashed are the whole padded message, and it begins with the message and the byte
  0x80.  The digest has twenty bytes.\<close>

theorem sha1_padding_is_reversible:
  assumes "length m < 2 ^ 61" and "length m' < 2 ^ 61"
  shows "(pad_message m = pad_message m' \<longleftrightarrow> m = m') \<and>
    concat (chunks_of (pad_message m)) = pad_message m \<and>
    take (Suc (length m)) (pad_message m) = m @ [0x80] \<and>
    length (pad_message m) mod 64 = 0 \<and> length (sha1 m) = 20"
proof -
  have "length (pad_message m) div 64 * 64 = length (pad_message m)"
    using pad_message_blocks [of m] by (simp add: minus_mod_eq_div_mult [symmetric])
  then have "concat (chunks_of (pad_message m)) = pad_message m" by (simp add: chunks_cover)
  then show ?thesis
    using pad_message_inject [OF _ assms] pad_message_blocks [of m] sha1_length [of m]
    by (auto simp: pad_message_parts)
qed

theorem sha1_padding_is_reversible_witness:
  "pad_message [1, 2] \<noteq> pad_message [1, 2, 0x80]"
  using sha1_padding_is_reversible [of "[1, 2]" "[1, 2, 0x80]"] by simp

end
