(* ===== verification/Tcp.thy ===== *)
theory Tcp
  imports Prelude
begin

text \<open>
  \<open>robot::protocol::TcpConnection\<close> (\<open>include/robot/protocol/\<close>, \<open>src/protocol/tcp_connection.cpp\<close>)
  above the operating system: \<open>::send\<close> and \<open>::recv\<close> are the environment, given by what they do,
  call after call.  The theory also holds the lemma about byte streams that
  every reader of a connection uses.
\<close>

section \<open>Errors and receives\<close>

datatype transport_error =
    BindFailed | ListenFailed | AcceptFailed | ConnectFailed | SendFailed | ReceiveFailed | ConnectionClosed

text \<open>\<open>receive\<close>, from the count that \<open>::recv\<close> returns and the bytes it has put into the buffer.\<close>

definition TcpConnection_receive :: "int \<Rightarrow> bytes \<Rightarrow> (transport_error, bytes) expected" where
  "TcpConnection_receive n buffer =
     (if n = 0 then Unexpected ConnectionClosed
      else if n < 0 then Unexpected ReceiveFailed
      else Ok (take (nat n) buffer))"

text \<open>The results of successive calls of \<open>receive\<close>.\<close>

type_synonym receives = "(transport_error, bytes) expected list"

section \<open>The send loop\<close>

text \<open>
  A call of \<open>::send\<close> returns a number, or it does not return: on a connection that the peer has
  closed it raises \<open>SIGPIPE\<close>.  The calls carry no \<open>MSG_NOSIGNAL\<close> and no program of the repository
  ignores or handles the signal, so its default action ends the process.
\<close>

datatype send_call =
    Returned int
  | Sigpipe

text \<open>
  \<open>results\<close> are the calls, \<open>wire\<close> the bytes taken so far; a call takes the first \<open>n\<close> of the bytes it
  is offered.  \<open>None\<close>: \<open>send\<close> does not return, because \<open>SIGPIPE\<close> has ended the process or the
  loop is not finished after the calls listed.
\<close>

fun send_loop ::
    "bytes \<Rightarrow> nat \<Rightarrow> send_call list \<Rightarrow> bytes \<Rightarrow> ((transport_error, unit) expected \<times> bytes) option" where
  "send_loop bs sent results wire =
     (if \<not> sent < length bs then Some (Ok (), wire)
      else case results of
        [] \<Rightarrow> None
      | Sigpipe # _ \<Rightarrow> None
      | Returned n # results \<Rightarrow>
          if n < 0 then Some (Unexpected SendFailed, wire)
          else send_loop bs (sent + nat n) results (wire @ take (nat n) (drop sent bs)))"

declare send_loop.simps [simp del]

definition TcpConnection_send ::
    "bytes \<Rightarrow> send_call list \<Rightarrow> ((transport_error, unit) expected \<times> bytes) option" where
  "TcpConnection_send bs results = send_loop bs 0 results []"

text \<open>
  What POSIX promises of \<open>::send\<close>: it never takes more than it is offered.  Nothing is said of
  the calls listed after the last byte has gone, which the loop does not make.
\<close>

fun takes_at_most :: "nat \<Rightarrow> send_call list \<Rightarrow> bool" where
  "takes_at_most n [] = True"
| "takes_at_most n (Sigpipe # rs) = True"
| "takes_at_most n (Returned r # rs) =
     (n = 0 \<or> r \<le> int n \<and> (r < 0 \<or> takes_at_most (n - nat r) rs))"

text \<open>A call that makes progress.\<close>

fun takes_some :: "send_call \<Rightarrow> bool" where
  "takes_some (Returned n) = (0 < n)"
| "takes_some Sigpipe = False"

lemma send_loop_wire:
  assumes "send_loop bs sent results wire = Some (res, out)"
    and "takes_at_most (length bs - sent) results" and "sent \<le> length bs" and "wire = take sent bs"
  shows "(case res of Inl e \<Rightarrow> e = SendFailed \<and> (\<exists>k < length bs. out = take k bs) | Inr _ \<Rightarrow> out = bs)"
  using assms
proof (induction results arbitrary: sent wire)
  case Nil
  then show ?case by (auto simp: send_loop.simps split: if_splits)
next
  case (Cons call results)
  show ?case
  proof (cases call)
    case Sigpipe
    then show ?thesis using Cons.prems by (auto simp: send_loop.simps [of bs sent] split: if_splits)
  next
    case n: (Returned n)
    show ?thesis
    proof (cases "sent < length bs \<and> 0 \<le> n")
      case False
      then show ?thesis using Cons.prems n
        by (subst (asm) send_loop.simps) (auto split: if_splits intro!: exI [of _ sent])
    next
      case True
      have le: "sent + nat n \<le> length bs" using Cons.prems(2) True n by auto
      have "send_loop bs (sent + nat n) results (wire @ take (nat n) (drop sent bs)) = Some (res, out)"
        using Cons.prems(1) True n by (subst (asm) send_loop.simps) simp
      moreover have "wire @ take (nat n) (drop sent bs) = take (sent + nat n) bs"
        using Cons.prems(4) by (simp add: take_add)
      moreover have "takes_at_most (length bs - (sent + nat n)) results"
        using Cons.prems(2) True n by simp
      ultimately show ?thesis using Cons.IH le by blast
    qed
  qed
qed

lemma send_exact:
  assumes "TcpConnection_send bs results = Some (Ok (), out)" and "takes_at_most (length bs) results"
  shows "out = bs"
  using send_loop_wire [of bs 0 results "[]" "Ok ()" out] assms by (simp add: TcpConnection_send_def)

text \<open>A call that takes at least one byte makes progress, so enough of them finish the loop.\<close>

lemma send_loop_finishes:
  assumes "list_all takes_some results" and "length bs \<le> sent + length results"
  shows "\<exists>out. send_loop bs sent results wire = Some (Ok (), out)"
  using assms
proof (induction results arbitrary: sent wire)
  case (Cons call results)
  obtain n where n: "call = Returned n" "0 < n" using Cons.prems(1) by (cases call) simp_all
  show ?case
  proof (cases "sent < length bs")
    case True
    then show ?thesis
      using Cons.prems n Cons.IH [of "sent + nat n" "wire @ take (nat n) (drop sent bs)"]
      by (subst send_loop.simps) auto
  qed (subst send_loop.simps, simp)
qed (simp add: send_loop.simps)

section \<open>Streams\<close>

lemma append_split:
  assumes "xs @ ys = us @ vs" and "length us \<le> length xs"
  shows "xs = us @ drop (length us) xs" and "vs = drop (length us) xs @ ys"
proof -
  have "take (length us) xs = us" "vs = drop (length us) xs @ ys"
    using assms by (auto simp: append_eq_append_conv_if split: if_splits)
  then show "xs = us @ drop (length us) xs" "vs = drop (length us) xs @ ys"
    by (metis append_take_drop_id)+
qed

section \<open>Properties\<close>

text \<open>\<open>send\<close> puts exactly the given bytes on the wire, once and in order, however the system splits
  them, before it reports success; on failure a proper prefix of them is on the wire.  If the
  system takes at least one byte per call, as many calls as there are bytes suffice.\<close>

theorem tcp_send_is_exact:
  assumes "takes_at_most (length bs) results"
  shows "(case TcpConnection_send bs results of
      Some (Inr _, wire) \<Rightarrow> wire = bs
    | Some (Inl e, wire) \<Rightarrow> e = SendFailed \<and> (\<exists>k < length bs. wire = take k bs)
    | None \<Rightarrow> \<not> (list_all takes_some results \<and> length bs \<le> length results))"
  using send_loop_wire [of bs 0 results "[]"] send_loop_finishes [of results bs 0 "[]"] assms
  unfolding TcpConnection_send_def by (fastforce split: option.splits sum.splits)

theorem tcp_send_is_exact_witness:
  "\<exists>wire. TcpConnection_send [1, 2, 3] [Returned 2, Returned 1, Returned 1] = Some (Ok (), wire) \<and> wire = [1, 2, 3]"
  using tcp_send_is_exact [of "[1, 2, 3]" "[Returned 2, Returned 1, Returned 1]"]
  by (simp add: TcpConnection_send_def send_loop.simps)

text \<open>A peer that has closed the connection ends the process: with \<open>SIGPIPE\<close> among the calls that \<open>send\<close>
  makes, nothing is returned and nothing after the call happens.\<close>

theorem sigpipe_ends_the_process:
  assumes "list_all (\<lambda>n. 0 \<le> n) ns" "sum_list ns < int (length bs)"
  shows "TcpConnection_send bs (map Returned ns @ Sigpipe # later) = None"
proof -
  have "send_loop bs sent (map Returned ns @ Sigpipe # later) wire = None"
    if "list_all (\<lambda>n. 0 \<le> n) ns" "int sent + sum_list ns < int (length bs)" for sent wire
    using that
  proof (induction ns arbitrary: sent wire)
    case (Cons n ns)
    moreover have "0 \<le> sum_list ns" using Cons.prems(1) by (intro sum_list_nonneg) (simp add: list_all_iff)
    ultimately show ?case by (subst send_loop.simps) simp
  qed (simp add: send_loop.simps)
  then show ?thesis using assms by (simp add: TcpConnection_send_def)
qed

theorem sigpipe_ends_the_process_witness:
  "TcpConnection_send [1, 2, 3] [Returned 2, Sigpipe, Returned 1] = None"
  using sigpipe_ends_the_process [of "[2]" "[1, 2, 3]" "[Returned 1]"] by simp

end
