(* ===== verification/Websocket.thy ===== *)
theory Websocket
  imports Base64 Sha1 Tcp
begin

text \<open>
  \<open>robot::websocket::WebSocketConnection\<close> (\<open>include/robot/websocket/\<close>,
  \<open>src/websocket/websocket_connection.cpp\<close>): the buffered reader, the opening handshake, the
  text frames sent and the client frames read.  The connection is the list of the results of
  its receives; a list that is exhausted counts as a failed receive.
\<close>

datatype websocket_error = HandshakeFailed | TransportFailure | ConnectionClosed

record websocket_connection =
  ws_incoming :: receives
  ws_residual :: bytes

section \<open>Reading an exact number of bytes\<close>

fun read_exact :: "nat \<Rightarrow> receives \<Rightarrow> bytes \<Rightarrow> (websocket_error, bytes) expected \<times> receives \<times> bytes" where
  "read_exact count [] residual =
     (if length residual < count then (Unexpected ConnectionClosed, [], residual)
      else (Ok (take count residual), [], drop count residual))"
| "read_exact count (n # incoming) residual =
     (if length residual < count
      then case n of
          Inl _ \<Rightarrow> (Unexpected ConnectionClosed, incoming, residual)
        | Inr chunk \<Rightarrow> read_exact count incoming (residual @ chunk)
      else (Ok (take count residual), n # incoming, drop count residual))"

definition readExactBuffered ::
    "nat \<Rightarrow> websocket_connection \<Rightarrow> (websocket_error, bytes) expected \<times> websocket_connection" where
  "readExactBuffered count ws =
     (let (r, incoming, residual) = read_exact count (ws_incoming ws) (ws_residual ws)
      in (r, ws\<lparr>ws_incoming := incoming, ws_residual := residual\<rparr>))"

text \<open>A read whose error ends the caller.\<close>

fun then_read ::
    "(websocket_error, 'a) expected \<times> websocket_connection \<Rightarrow>
     ('a \<Rightarrow> websocket_connection \<Rightarrow> (websocket_error, 'b) expected \<times> websocket_connection) \<Rightarrow>
     (websocket_error, 'b) expected \<times> websocket_connection" where
  "then_read (Inl e, ws) f = (Unexpected e, ws)"
| "then_read (Inr x, ws) f = f x ws"

section \<open>Client frames\<close>

definition ext_length :: "u64 \<Rightarrow> websocket_connection \<Rightarrow> (websocket_error, u64) expected \<times> websocket_connection" where
  "ext_length payloadLen ws =
     (if payloadLen = 126 then
        then_read (readExactBuffered 2 ws) (\<lambda>ext ws.
          (Ok (or (push_bit 8 (ucast (ext ! 0))) (ucast (ext ! 1))), ws))
      else if payloadLen = 127 then
        then_read (readExactBuffered 8 ws) (\<lambda>ext ws.
          (Ok (foldl (\<lambda>len i. or (push_bit 8 len) (ucast (ext ! i))) 0 [0..<8]), ws))
      else (Ok payloadLen, ws))"

definition unmask :: "bytes \<Rightarrow> bytes \<Rightarrow> bytes" where
  "unmask maskKey payload = map (\<lambda>i. xor (payload ! i) (maskKey ! (i mod 4))) [0..<length payload]"

definition pollForClose :: "websocket_connection \<Rightarrow> (websocket_error, unit) expected \<times> websocket_connection" where
  "pollForClose ws =
     then_read (readExactBuffered 2 ws) (\<lambda>header ws.
       let byte0 = header ! 0;
           byte1 = header ! 1;
           opcode = and byte0 0x0F;
           masked = (and byte1 0x80 \<noteq> 0)
       in then_read (ext_length (ucast (and byte1 0x7F)) ws) (\<lambda>payloadLen ws.
          then_read (if masked then readExactBuffered 4 ws else (Ok [0, 0, 0, 0], ws)) (\<lambda>maskKey ws.
          then_read (if 0 < payloadLen then readExactBuffered (unat payloadLen) ws else (Ok [], ws))
            (\<lambda>payload ws.
              let payload = (if masked then unmask maskKey payload else payload)
              in (if opcode = 0x8 then Unexpected ConnectionClosed else Ok (), ws)))))"

section \<open>Text frames\<close>

text \<open>The bytes that \<open>sendText\<close> hands to the connection.\<close>

definition text_frame :: "bytes \<Rightarrow> bytes" where
  "text_frame text =
     (let frame = [0x81]; len = (word_of_nat (length text) :: u64);
          frame =
            (if length text \<le> 125 then frame @ [ucast len]
             else if length text \<le> 0xFFFF then
               frame @ [126] @ [ucast (and (drop_bit 8 len) 0xFF)] @ [ucast (and len 0xFF)]
             else foldl (\<lambda>frame shift. frame @ [ucast (and (drop_bit shift len) 0xFF)]) (frame @ [127])
                    [56, 48, 40, 32, 24, 16, 8, 0])
      in frame @ text)"

definition sendText :: "bytes \<Rightarrow> send_call list \<Rightarrow> ((websocket_error, unit) expected \<times> bytes) option" where
  "sendText text results =
     (case TcpConnection_send (text_frame text) results of
        None \<Rightarrow> None
      | Some (Inl _, wire) \<Rightarrow> Some (Unexpected TransportFailure, wire)
      | Some (Inr _, wire) \<Rightarrow> Some (Ok (), wire))"

section \<open>Frames on the wire\<close>

text \<open>
  RFC 6455 frames, as a browser sends them: the length in one of three forms, an optional mask
  key, and the payload, masked if there is a key.
\<close>

definition length_field :: "byte \<Rightarrow> nat \<Rightarrow> bytes" where
  "length_field mask_bit n =
     (if n \<le> 125 then [or mask_bit (word_of_nat n)]
      else if n \<le> 0xFFFF then or mask_bit 126 # writeU16BE [] (word_of_nat n)
      else or mask_bit 127 # writeF64BE [] (F64 (word_of_nat n)))"

definition ws_frame :: "byte \<Rightarrow> bytes option \<Rightarrow> bytes \<Rightarrow> bytes" where
  "ws_frame byte0 key payload =
     byte0 # length_field (if key = None then 0 else 0x80) (length payload) @
     (case key of None \<Rightarrow> payload | Some k \<Rightarrow> k @ unmask k payload)"

definition ws_frame_ok :: "bytes option \<Rightarrow> bytes \<Rightarrow> bool" where
  "ws_frame_ok key payload \<longleftrightarrow> length payload < 2 ^ 64 \<and> (key = None \<or> length (the key) = 4)"

text \<open>The bytes still to be read from a connection whose receives all succeed.\<close>

definition stream_is :: "bytes \<Rightarrow> websocket_connection \<Rightarrow> bool" where
  "stream_is bs ws \<longleftrightarrow> (\<exists>chunks. ws_incoming ws = map Inr chunks \<and> ws_residual ws @ concat chunks = bs)"

lemma read_exact_stream:
  assumes "residual @ concat chunks = xs @ rest"
  shows "\<exists>residual' chunks'. read_exact (length xs) (map Inr chunks) residual = (Ok xs, map Inr chunks', residual') \<and>
    residual' @ concat chunks' = rest"
  using assms
proof (induction chunks arbitrary: residual)
  case (Cons chunk chunks)
  show ?case
  proof (cases "length residual < length xs")
    case True
    then show ?thesis using Cons.IH [of "residual @ chunk"] Cons.prems by simp
  next
    case False
    note sp = append_split [OF Cons.prems] False
    have "take (length xs) residual = xs" by (subst sp(1)) (use False in simp_all)
    then show ?thesis using sp(2) False
      by (intro exI [of _ "drop (length xs) residual"] exI [of _ "chunk # chunks"]) simp
  qed
qed simp

lemma readExact_stream:
  assumes "stream_is (xs @ rest) ws"
  shows "\<exists>ws'. readExactBuffered (length xs) ws = (Ok xs, ws') \<and> stream_is rest ws'"
proof -
  obtain chunks where c: "ws_incoming ws = map Inr chunks" "ws_residual ws @ concat chunks = xs @ rest"
    using assms by (auto simp: stream_is_def)
  then show ?thesis
    using read_exact_stream [OF c(2)] by (auto simp: readExactBuffered_def stream_is_def c(1))
qed

lemma then_read_stream:
  assumes "stream_is (xs @ rest) ws" and "length xs = n"
  shows "\<exists>ws'. then_read (readExactBuffered n ws) f = f xs ws' \<and> stream_is rest ws'"
  using readExact_stream [OF assms(1)] assms(2) by auto

section \<open>Reading a frame\<close>

lemma length_bits:
  "list_all (\<lambda>n. list_all (\<lambda>m.
     ucast (and (or m (word_of_nat n :: byte)) 0x7F) = (word_of_nat n :: u64) \<and>
     (and (or m (word_of_nat n :: byte)) 0x80 = 0) = (m = 0)) [0, 0x80]) [0..<128]"
  by code_simp

lemma length_bit_facts:
  assumes "n < 128" and "m \<in> {0, 0x80 :: byte}"
  shows "ucast (and (or m (word_of_nat n)) 0x7F) = (word_of_nat n :: u64)"
    and "and (or m (word_of_nat n)) 0x80 = 0 \<longleftrightarrow> m = 0"
  using length_bits [unfolded list_all_iff, rule_format, of n m] assms by auto

lemma u64_eq_iff: "n < 2 ^ 64 \<Longrightarrow> k < 2 ^ 64 \<Longrightarrow> (word_of_nat n :: u64) = word_of_nat k \<longleftrightarrow> n = k"
  using unat_of_nat_eq_64 [of n] unat_of_nat_eq_64 [of k] by metis

lemma ext16: "or (push_bit 8 (ucast (writeU16BE [] w ! 0))) (ucast (writeU16BE [] w ! 1)) = (ucast w :: u64)"
  by (rule bit_word_eqI) (auto simp: writeU16BE_def bit_simps dest: bit_imp_le_length)

lemma ext64: "foldl (\<lambda>len i. or (push_bit 8 len) (ucast (writeF64BE [] (F64 w) ! i))) 0 [0..<8] = w"
  using f64.read_write_exact [of "F64 w"] by (simp add: readF64BE_def)

text \<open>The first byte of a length field, and what \<open>ext_length\<close> makes of the rest.\<close>

lemma length_field_stream:
  assumes "n < 2 ^ 64" and "m \<in> {0, 0x80}"
    and "stream_is (tl (length_field m n) @ rest) ws"
  shows "\<exists>ws'. ext_length (ucast (and (hd (length_field m n)) 0x7F)) ws = (Ok (word_of_nat n), ws') \<and>
    stream_is rest ws'"
    and "and (hd (length_field m n)) 0x80 = 0 \<longleftrightarrow> m = 0"
proof -
  have c126: "ucast (and (or m 126) 0x7F) = (126 :: u64)" and c127: "ucast (and (or m 127) 0x7F) = (127 :: u64)"
    and z: "and (or m 126) 0x80 = 0 \<longleftrightarrow> m = 0" "and (or m 127) 0x80 = 0 \<longleftrightarrow> m = 0"
    using length_bit_facts [of 126 m] length_bit_facts [of 127 m] assms(2) by simp_all
  consider (small) "n \<le> 125" | (medium) "125 < n" "n \<le> 0xFFFF" | (large) "0xFFFF < n" by linarith
  then have "(\<exists>ws'. ext_length (ucast (and (hd (length_field m n)) 0x7F)) ws = (Ok (word_of_nat n), ws') \<and>
    stream_is rest ws') \<and> (and (hd (length_field m n)) 0x80 = 0 \<longleftrightarrow> m = 0)"
  proof cases
    case small
    have "(word_of_nat n :: u64) \<noteq> 126" "(word_of_nat n :: u64) \<noteq> 127"
      using u64_eq_iff [of n 126] u64_eq_iff [of n 127] small by simp_all
    then show ?thesis
      using small assms length_bit_facts [of n m] by (simp add: length_field_def ext_length_def)
  next
    case medium
    have "stream_is (writeU16BE [] (word_of_nat n) @ rest) ws"
      using assms(3) medium by (simp add: length_field_def)
    then obtain ws' where "readExactBuffered 2 ws = (Ok (writeU16BE [] (word_of_nat n)), ws')" "stream_is rest ws'"
      using readExact_stream [of "writeU16BE [] (word_of_nat n)" rest ws] by (auto simp: u16.write_length)
    moreover have "unat (word_of_nat n :: u16) = n" using medium by (simp add: unat_of_nat)
    then have "ucast (word_of_nat n :: u16) = (word_of_nat n :: u64)" by (metis of_nat_unat)
    ultimately show ?thesis
      using medium z by (simp add: length_field_def ext_length_def c126 ext16 [unfolded One_nat_def])
  next
    case large
    have "stream_is (writeF64BE [] (F64 (word_of_nat n)) @ rest) ws"
      using assms(3) large by (simp add: length_field_def)
    then obtain ws' where "readExactBuffered 8 ws = (Ok (writeF64BE [] (F64 (word_of_nat n))), ws')" "stream_is rest ws'"
      using readExact_stream [of "writeF64BE [] (F64 (word_of_nat n))" rest ws] by (auto simp: f64.write_length)
    then show ?thesis
      using large z by (simp add: length_field_def ext_length_def c127 ext64 del: upt_rec_numeral)
  qed
  then show "\<exists>ws'. ext_length (ucast (and (hd (length_field m n)) 0x7F)) ws = (Ok (word_of_nat n), ws') \<and>
      stream_is rest ws'" "and (hd (length_field m n)) 0x80 = 0 \<longleftrightarrow> m = 0" by blast+
qed

lemma length_field_Cons: "length_field m n = hd (length_field m n) # tl (length_field m n)"
  by (simp add: length_field_def)

lemma unmask_length [simp]: "length (unmask key payload) = length payload"
  by (simp add: unmask_def)

text \<open>Masking is an involution, so the reader recovers the payload.\<close>

lemma unmask_unmask: "unmask key (unmask key payload) = payload"
  by (rule nth_equalityI) (simp_all add: unmask_def xor.assoc)

lemma pollForClose_frame:
  assumes "ws_frame_ok key payload" and "stream_is (ws_frame byte0 key payload @ rest) ws"
  shows "\<exists>ws'. pollForClose ws =
      (if and byte0 0x0F = 0x8 then Unexpected ConnectionClosed else Ok (), ws') \<and> stream_is rest ws'"
proof -
  define m :: byte where "m = (if key = None then 0 else 0x80)"
  define mk where "mk = (case key of None \<Rightarrow> [] | Some k \<Rightarrow> k)"
  define body where "body = (case key of None \<Rightarrow> payload | Some k \<Rightarrow> unmask k payload)"
  let ?n = "length payload" and ?lf = "length_field m (length payload)"
  have n: "?n < 2 ^ 64" and m: "m \<in> {0, 0x80}" and mk: "m \<noteq> 0 \<longrightarrow> length mk = 4" "m = 0 \<longrightarrow> mk = []"
    and body: "length body = ?n"
    using assms(1) by (auto simp: ws_frame_ok_def m_def mk_def body_def split: option.splits)
  have frame: "ws_frame byte0 key payload @ rest =
      [byte0, hd ?lf] @ tl ?lf @ mk @ body @ rest"
    using length_field_Cons [of m ?n]
    by (auto simp: ws_frame_def m_def mk_def body_def split: option.splits)
  obtain ws1 where r1: "readExactBuffered 2 ws = (Ok [byte0, hd ?lf], ws1)"
    "stream_is (tl ?lf @ mk @ body @ rest) ws1"
    using readExact_stream [of "[byte0, hd ?lf]"] assms(2) unfolding frame by (auto simp: numeral_2_eq_2)
  obtain ws2 where r2: "ext_length (ucast (and (hd ?lf) 0x7F)) ws1 = (Ok (word_of_nat ?n), ws2)"
    "stream_is (mk @ body @ rest) ws2"
    using length_field_stream(1) [OF n m r1(2)] by blast
  have masked: "and (hd ?lf) 0x80 = 0 \<longleftrightarrow> m = 0" by (rule length_field_stream(2) [OF n m r1(2)])
  obtain k ws3 where r3: "(if and (hd ?lf) 0x80 \<noteq> 0 then readExactBuffered 4 ws2 else (Ok [0, 0, 0, 0], ws2)) =
      (Ok k, ws3)" "stream_is (body @ rest) ws3"
    using readExact_stream [OF r2(2)] mk r2(2) masked by (cases "m = 0") auto
  have pos: "0 < (word_of_nat ?n :: u64) \<longleftrightarrow> payload \<noteq> []" "unat (word_of_nat ?n :: u64) = ?n"
    using n by (simp_all add: word_less_nat_alt unat_of_nat_eq_64)
  obtain p ws4 where r4: "(if 0 < (word_of_nat ?n :: u64) then readExactBuffered (unat (word_of_nat ?n :: u64)) ws3
      else (Ok [], ws3)) = (Ok p, ws4)" "stream_is rest ws4"
    using readExact_stream [OF r3(2)] r3(2) body unfolding pos by (cases "payload = []") auto
  show ?thesis
    unfolding pollForClose_def r1(1) then_read.simps Let_def nth_Cons_0 nth_Cons_Suc One_nat_def
      r2(1) r3(1) r4(1)
    using r4(2) by auto
qed

lemma read_exact_error: "read_exact n incoming residual = (Inl e, r) \<Longrightarrow> e = ConnectionClosed"
  by (induction n incoming residual rule: read_exact.induct) (auto split: if_splits sum.splits)

lemma readExactBuffered_error: "fst (readExactBuffered n ws) \<noteq> Unexpected TransportFailure"
  using read_exact_error [of n "ws_incoming ws" "ws_residual ws"]
  by (auto simp: readExactBuffered_def split: prod.splits)

lemma then_read_error:
  assumes "fst r \<noteq> Unexpected e" and "\<And>x ws. fst (f x ws) \<noteq> Unexpected e"
  shows "fst (then_read r f) \<noteq> Unexpected e"
  using assms by (cases "(r, f)" rule: then_read.cases) auto

lemma ext_length_error: "fst (ext_length n ws) \<noteq> Unexpected TransportFailure"
  by (simp del: One_nat_def upt_rec_numeral add: ext_length_def then_read_error [OF readExactBuffered_error])

lemma pollForClose_no_TransportFailure: "fst (pollForClose ws) \<noteq> Unexpected TransportFailure"
  unfolding pollForClose_def Let_def
  by (intro then_read_error readExactBuffered_error ext_length_error) (simp_all add: readExactBuffered_error)

lemma low_byte: "(ucast (word_of_nat n :: 'a :: len word) :: byte) = word_of_nat n" if "8 \<le> LENGTH('a)"
  using that by (intro bit_word_eqI) (auto simp: bit_simps bit_of_nat_iff_bit)

lemma high_byte:
  "(ucast (drop_bit 8 (word_of_nat n :: u64)) :: byte) = ucast (drop_bit 8 (word_of_nat n :: u16))"
  by (rule bit_word_eqI) (auto simp: bit_simps bit_of_nat_iff_bit)

lemma text_frame_ws_frame: "text_frame text = ws_frame 0x81 None text"
proof -
  have e: "foldl (\<lambda>frame shift. frame @ [ucast (and (drop_bit shift w) 0xFF)]) out
      [56, 48, 40, 32, 24, 16, 8, 0] = out @ writeF64BE [] (F64 w)" for w :: u64 and out
    unfolding writeF64BE_def by simp
  consider (small) "length text \<le> 125" | (medium) "125 < length text" "length text \<le> 0xFFFF"
    | (large) "0xFFFF < length text" by linarith
  then show ?thesis
  proof cases
    case small
    then show ?thesis by (simp add: text_frame_def ws_frame_def length_field_def Let_def low_byte)
  next
    case medium
    then show ?thesis
      by (simp add: text_frame_def ws_frame_def length_field_def Let_def writeU16BE_def high_byte low_byte)
  next
    case large
    then show ?thesis
      unfolding text_frame_def Let_def e by (simp add: ws_frame_def length_field_def)
  qed
qed

section \<open>The handshake\<close>

text \<open>\<open>std::string::find(needle, from)\<close>: the first position at or after \<open>from\<close>, \<open>None\<close> for \<open>npos\<close>.\<close>

definition str_find :: "string \<Rightarrow> nat \<Rightarrow> string \<Rightarrow> nat option" where
  "str_find needle from s =
     List.find (\<lambda>i. take (length needle) (drop i s) = needle) [from..<Suc (length s) - length needle]"

definition crlf :: string where
  "crlf = [CHR 0x0D, CHR 0x0A]"

definition kRfc6455Guid :: string where
  "kRfc6455Guid = ''258EAFA5-E914-47DA-95CA-C5AB0DC85B11''"

text \<open>\<open>readUntil\<close>: the offset after the needle, the buffer and the receives left.\<close>

fun readUntil ::
    "receives \<Rightarrow> string \<Rightarrow> string \<Rightarrow> (websocket_error, nat) expected \<times> string \<times> receives" where
  "readUntil [] buffer needle =
     (case str_find needle 0 buffer of
        Some pos \<Rightarrow> (Ok (pos + length needle), buffer, [])
      | None \<Rightarrow> (Unexpected TransportFailure, buffer, []))"
| "readUntil (n # incoming) buffer needle =
     (case str_find needle 0 buffer of
        Some pos \<Rightarrow> (Ok (pos + length needle), buffer, n # incoming)
      | None \<Rightarrow>
          (case n of
             Inl _ \<Rightarrow> (Unexpected TransportFailure, buffer, incoming)
           | Inr chunk \<Rightarrow>
               let buffer = buffer @ map char_of_byte chunk
               in if 16384 < length buffer then (Unexpected HandshakeFailed, buffer, incoming)
                  else readUntil incoming buffer needle))"

text \<open>\<open>std::tolower\<close> in the C locale.\<close>

definition tolower :: "char \<Rightarrow> char" where
  "tolower c = (let n = of_char c :: nat in if 65 \<le> n \<and> n \<le> 90 then char_of (n + 32) else c)"

definition is_blank :: "char \<Rightarrow> bool" where
  "is_blank c \<longleftrightarrow> c = CHR '' '' \<or> c = CHR 0x09"

definition findHeaderValue :: "string \<Rightarrow> string \<Rightarrow> (websocket_error, string) expected" where
  "findHeaderValue request headerName =
     (let lowerRequest = map tolower request;
          lowerName = map tolower headerName
      in case str_find lowerName 0 lowerRequest of
          None \<Rightarrow> Unexpected HandshakeFailed
        | Some pos \<Rightarrow>
          (case str_find '':'' pos request of
            None \<Rightarrow> Unexpected HandshakeFailed
          | Some colon \<Rightarrow>
            (case str_find crlf colon request of
              None \<Rightarrow> Unexpected HandshakeFailed
            | Some lineEnd \<Rightarrow>
                let value = take (lineEnd - colon - 1) (drop (colon + 1) request)
                in if list_all is_blank value then Unexpected HandshakeFailed
                   else Ok (rev (dropWhile is_blank (rev (dropWhile is_blank value)))))))"

definition accept_response :: "string \<Rightarrow> string" where
  "accept_response acceptValue =
     ''HTTP/1.1 101 Switching Protocols'' @ crlf @ ''Upgrade: websocket'' @ crlf @
     ''Connection: Upgrade'' @ crlf @ ''Sec-WebSocket-Accept: '' @ acceptValue @ crlf @ crlf"

text \<open>
  \<open>accept\<close>, with the results of the receives and the calls of \<open>::send\<close>: the connection or
  the error, and the bytes put on the wire (\<open>None\<close> if \<open>send\<close> does not return).
\<close>

definition WebSocketConnection_accept ::
    "receives \<Rightarrow> send_call list \<Rightarrow> ((websocket_error, websocket_connection) expected \<times> bytes) option" where
  "WebSocketConnection_accept incoming results =
     (case readUntil incoming [] (crlf @ crlf) of
        (Inl e, _, _) \<Rightarrow> Some (Unexpected e, [])
      | (Inr headerEnd, requestBuffer, incoming) \<Rightarrow>
        (case findHeaderValue requestBuffer ''Sec-WebSocket-Key'' of
           Inl e \<Rightarrow> Some (Unexpected e, [])
         | Inr key \<Rightarrow>
           let digest = sha1 (map byte_of_char (key @ kRfc6455Guid));
               acceptValue = base64Encode digest;
               responseBytes = map byte_of_char (accept_response acceptValue)
           in case TcpConnection_send responseBytes results of
                None \<Rightarrow> None
              | Some (Inl _, wire) \<Rightarrow> Some (Unexpected TransportFailure, wire)
              | Some (Inr _, wire) \<Rightarrow>
                  let leftover = drop headerEnd requestBuffer
                  in Some (Ok \<lparr>ws_incoming = incoming, ws_residual = map byte_of_char leftover\<rparr>, wire)))"

section \<open>Lemmas on the handshake\<close>

lemma str_find_SomeD:
  assumes "str_find needle from s = Some i"
  shows "from \<le> i" "i + length needle \<le> length s" "take (length needle) (drop i s) = needle"
    and "\<And>j. from \<le> j \<Longrightarrow> j < i \<Longrightarrow> take (length needle) (drop j s) \<noteq> needle"
proof -
  obtain k where k: "k < Suc (length s) - length needle - from" "i = from + k"
    "take (length needle) (drop i s) = needle"
    "\<And>j. j < k \<Longrightarrow> take (length needle) (drop (from + j) s) \<noteq> needle"
    using assms by (auto simp: str_find_def find_Some_iff)
  then show "from \<le> i" "i + length needle \<le> length s" "take (length needle) (drop i s) = needle" by auto
  show "take (length needle) (drop j s) \<noteq> needle" if "from \<le> j" "j < i" for j
    using k(2) k(4) [of "j - from"] that by simp
qed

lemma str_find_SomeI:
  assumes "from \<le> i" "i + length needle \<le> length s" "take (length needle) (drop i s) = needle"
    and "\<And>j. from \<le> j \<Longrightarrow> j < i \<Longrightarrow> take (length needle) (drop j s) \<noteq> needle"
  shows "str_find needle from s = Some i"
  unfolding str_find_def find_Some_iff using assms by (intro exI [of _ "i - from"]) auto

text \<open>What is found in a string is found at the same place in every extension of it.\<close>

lemma str_find_append:
  assumes "str_find needle from s = Some i"
  shows "str_find needle from (s @ t) = Some i"
proof (rule str_find_SomeI)
  note f = str_find_SomeD [OF assms]
  have same: "take (length needle) (drop j (s @ t)) = take (length needle) (drop j s)" if "j \<le> i" for j
    using that f(2) by simp
  show "from \<le> i" "i + length needle \<le> length (s @ t)" using f by simp_all
  show "take (length needle) (drop i (s @ t)) = needle" using f(3) same by simp
  show "take (length needle) (drop j (s @ t)) \<noteq> needle" if "from \<le> j" "j < i" for j
    unfolding same [OF less_imp_le [OF that(2)]] by (rule f(4) [OF that])
qed

lemma readUntil_stream:
  assumes "str_find needle 0 req = Some k" and "k + length needle = length req"
    and "length (req @ rest) \<le> 16384"
    and "buffer @ map char_of_byte (concat chunks) = req @ rest"
  shows "\<exists>extra chunks'. readUntil (map Inr chunks) buffer needle = (Ok (length req), req @ extra, map Inr chunks') \<and>
    extra @ map char_of_byte (concat chunks') = rest"
  using assms(4)
proof (induction chunks arbitrary: buffer)
  case Nil
  then show ?case using str_find_append [OF assms(1), of rest] assms(2) by simp
next
  case (Cons chunk chunks)
  show ?case
  proof (cases "length req \<le> length buffer")
    case True
    note sp = append_split [OF Cons.prems True]
    have "str_find needle 0 buffer = Some k"
      by (subst sp(1)) (rule str_find_append [OF assms(1)])
    then show ?thesis
      using sp assms(2) by (intro exI [of _ "drop (length req) buffer"] exI [of _ "chunk # chunks"]) simp
  next
    case False
    have "str_find needle 0 buffer = None"
    proof (cases "str_find needle 0 buffer")
      case (Some i)
      have "take (length buffer) (req @ rest) = buffer"
        using Cons.prems by (metis append_eq_conv_conj)
      then have "req = buffer @ drop (length buffer) req"
        using False by (metis append_take_drop_id less_imp_le not_le_imp_less take_all_iff take_append
          diff_is_0_eq append_Nil2 take_0)
      then have "str_find needle 0 req = Some i" using str_find_append [OF Some] by metis
      then have "i + length needle = length req" using assms(1,2) by simp
      then show ?thesis using str_find_SomeD(2) [OF Some] False by simp
    qed
    moreover have "length (buffer @ map char_of_byte chunk) \<le> 16384"
      using arg_cong [OF Cons.prems, of length] assms(3) by simp
    moreover have "(buffer @ map char_of_byte chunk) @ map char_of_byte (concat chunks) = req @ rest"
      using Cons.prems by simp
    ultimately show ?thesis using Cons.IH [of "buffer @ map char_of_byte chunk"] by (simp add: Let_def)
  qed
qed

lemma findHeaderValue_append:
  assumes "findHeaderValue request name = Ok value"
  shows "findHeaderValue (request @ extra) name = Ok value"
proof -
  obtain pos colon lineEnd where f: "str_find (map tolower name) 0 (map tolower request) = Some pos"
    "str_find '':'' pos request = Some colon" "str_find crlf colon request = Some lineEnd"
    using assms by (auto simp: findHeaderValue_def Let_def split: option.splits)
  have "lineEnd \<le> length request" "colon + 1 \<le> length request"
    using str_find_SomeD(2) [OF f(3)] str_find_SomeD(2) [OF f(2)] by simp_all
  then have "take (lineEnd - colon - 1) (drop (colon + 1) (request @ extra)) =
      take (lineEnd - colon - 1) (drop (colon + 1) request)"
    by simp
  then show ?thesis
    using assms unfolding findHeaderValue_def Let_def map_append f
      str_find_append [OF f(1), of "map tolower extra"] str_find_append [OF f(2), of extra]
      str_find_append [OF f(3), of extra] option.case
    by (simp only:)
qed

section \<open>Properties\<close>

text \<open>C38. \<open>sendText\<close> and \<open>pollForClose\<close> agree on the wire format: what \<open>sendText\<close> has put on the
  wire when it reports success is one unmasked RFC 6455 frame with the final bit and the text
  opcode; and for every frame a peer can send (any first byte, masked or not, any of the three
  length forms), in whatever pieces it arrives, one poll reads exactly that frame, leaves the
  bytes after it for the next read, and returns \<open>ConnectionClosed\<close> exactly for the close opcode.
  \<open>TransportFailure\<close> is returned for no connection at all: a failed receive is reported as
  \<open>ConnectionClosed\<close>, although the header promises the former.\<close>

theorem websocket_frames:
  assumes "sendText msg results = Some (Ok (), wire)" and "takes_at_most (length (text_frame msg)) results"
    and "length payload < 2 ^ 64" and "key = None \<or> length (the key) = 4"
    and "residual @ concat chunks = ws_frame byte0 key payload @ rest"
  shows "wire = ws_frame 0x81 None msg \<and>
    (\<exists>residual' chunks'.
      pollForClose \<lparr>ws_incoming = map Ok chunks, ws_residual = residual\<rparr> =
        (if and byte0 0x0F = 8 then Unexpected ConnectionClosed else Ok (),
         \<lparr>ws_incoming = map Ok chunks', ws_residual = residual'\<rparr>) \<and>
      residual' @ concat chunks' = rest) \<and>
    fst (pollForClose ws) \<noteq> Unexpected TransportFailure"
proof -
  have "TcpConnection_send (text_frame msg) results = Some (Ok (), wire)"
    using assms(1) by (auto simp: sendText_def split: option.splits sum.splits)
  then have "wire = ws_frame 0x81 None msg"
    using send_exact assms(2) by (simp add: text_frame_ws_frame)
  moreover have "ws_frame_ok key payload" using assms(3,4) by (simp add: ws_frame_ok_def)
  moreover have "stream_is (ws_frame byte0 key payload @ rest) \<lparr>ws_incoming = map Ok chunks, ws_residual = residual\<rparr>"
    using assms(5) by (auto simp: stream_is_def)
  ultimately obtain ws' where "wire = ws_frame 0x81 None msg"
    "pollForClose \<lparr>ws_incoming = map Ok chunks, ws_residual = residual\<rparr> =
      (if and byte0 0x0F = 0x8 then Unexpected ConnectionClosed else Ok (), ws')" "stream_is rest ws'"
    using pollForClose_frame by blast
  then show ?thesis by (cases ws') (auto simp: stream_is_def pollForClose_no_TransportFailure)
qed

theorem websocket_frames_witness:
  "fst (pollForClose \<lparr>ws_incoming = map Ok [[0x83, 1, 2], [3, 4, 5, 6, 7, 9]], ws_residual = [0x88]\<rparr>) =
     Unexpected ConnectionClosed"
proof -
  have f: "[0x88] @ concat [[0x83, 1, 2], [3, 4, 5, 6, 7, 9]] = ws_frame 0x88 (Some [1, 2, 3, 4]) [4, 4, 4] @ [9]"
    by code_simp
  have s: "sendText [104] [Returned 2, Returned 1] = Some (Ok (), [0x81, 1, 104])" "takes_at_most (length (text_frame [104])) [Returned 2, Returned 1]"
    by code_simp+
  have c: "and 0x88 0x0F = (8 :: byte)" by simp
  show ?thesis
    using websocket_frames [OF s _ _ f, of "\<lparr>ws_incoming = [], ws_residual = []\<rparr>"] unfolding c by auto
qed

text \<open>C39. The opening handshake: if the request ends with the first empty line, has a
  \<open>Sec-WebSocket-Key\<close> header and (with what has already arrived after it) at most 16,384 bytes,
  and the response can be sent, \<open>accept\<close> has answered with the base64 form of the SHA-1 digest
  of the key and the GUID, and no byte after the request is lost to the frames that follow,
  however the bytes are split into receives and sends.\<close>

theorem handshake_answers_and_keeps_stream:
  assumes "concat chunks = map byte_of_char request @ rest"
    and "str_find (crlf @ crlf) 0 request = Some k" and "k + 4 = length request"
    and "findHeaderValue request ''Sec-WebSocket-Key'' = Ok key"
    and "length request + length rest \<le> 16384"
    and "response = map byte_of_char (accept_response (base64Encode (sha1 (map byte_of_char (key @ kRfc6455Guid)))))"
    and "takes_at_most (length response) results"
    and "TcpConnection_send response results = Some (Ok (), wire)"
  shows "wire = response \<and>
    (\<exists>residual chunks'. WebSocketConnection_accept (map Ok chunks) results =
      Some (Ok \<lparr>ws_incoming = map Ok chunks', ws_residual = residual\<rparr>, wire) \<and>
    residual @ concat chunks' = rest)"
proof -
  have "[] @ map char_of_byte (concat chunks) = request @ map char_of_byte rest"
    by (simp add: assms(1) comp_def)
  then obtain extra chunks' where r:
    "readUntil (map Inr chunks) [] (crlf @ crlf) = (Ok (length request), request @ extra, map Inr chunks')"
    "extra @ map char_of_byte (concat chunks') = map char_of_byte rest"
    using readUntil_stream [OF assms(2), of "map char_of_byte rest" "[]" chunks] assms(3,5)
    by (auto simp: crlf_def)
  have "map byte_of_char (extra @ map char_of_byte (concat chunks')) = rest"
    unfolding r(2) by (simp add: comp_def)
  moreover have "wire = response" by (rule send_exact [OF assms(8,7)])
  ultimately show ?thesis
    using r(1) findHeaderValue_append [OF assms(4), of extra] assms(8) unfolding assms(6)
    by (intro conjI exI [of _ "map byte_of_char extra"] exI [of _ chunks'])
      (simp_all add: WebSocketConnection_accept_def Let_def comp_def)
qed

theorem handshake_answers_and_keeps_stream_witness:
  "let response = map byte_of_char (accept_response (base64Encode (sha1 (map byte_of_char (''x'' @ kRfc6455Guid)))))
   in \<exists>ws. WebSocketConnection_accept
        (map Ok [map byte_of_char (''Sec-WebSocket-Key: '' @ [CHR ''x'']), map byte_of_char (crlf @ crlf) @ [0x81]])
        [Returned (int (length response))] = Some (Ok ws, response)"
proof -
  let ?request = "''Sec-WebSocket-Key: '' @ [CHR ''x''] @ crlf @ crlf"
  let ?response =
    "map byte_of_char (accept_response (base64Encode (sha1 (map byte_of_char (''x'' @ kRfc6455Guid)))))"
  have k: "str_find (crlf @ crlf) 0 ?request = Some 20" "length ?request = 24" by code_simp+
  have v: "findHeaderValue ?request ''Sec-WebSocket-Key'' = Ok ''x''" by code_simp
  have "?response \<noteq> []" by (simp add: accept_response_def)
  then have t: "takes_at_most (length ?response) [Returned (int (length ?response))]"
    "TcpConnection_send ?response [Returned (int (length ?response))] = Some (Ok (), ?response)"
    by (simp_all add: TcpConnection_send_def send_loop.simps)
  show ?thesis
    using handshake_answers_and_keeps_stream [OF _ k(1) _ v _ refl t, of
        "[map byte_of_char (''Sec-WebSocket-Key: '' @ [CHR ''x'']), map byte_of_char (crlf @ crlf) @ [0x81]]" "[0x81]"]
      k(2)
    unfolding Let_def by auto
qed

end
