(* ===== verification/Fault.thy ===== *)
theory Fault
  imports Prelude
begin

text \<open>
  \<open>robot::fault::FaultInjector\<close> (\<open>include/robot/fault/\<close>, \<open>src/fault/\<close>): the registry of active
  faults and the dispatch to handlers.  A handler is code of the caller; it is known here by a
  name, and the calls made are the list \<open>fi_calls\<close>.
\<close>

section \<open>Faults and the registry\<close>

datatype fault_type =
    EncoderFailure | MotorFailure | OverCurrent | OverTemperature | CommunicationTimeout
  | PositionError | VelocityError | BrakeFailure | LimitSwitch | EmergencyStop | PowerFailure

text \<open>The underlying value of the enum, the key of the handlers.\<close>

fun fault_code :: "fault_type \<Rightarrow> int" where
  "fault_code EncoderFailure = 0"
| "fault_code MotorFailure = 1"
| "fault_code OverCurrent = 2"
| "fault_code OverTemperature = 3"
| "fault_code CommunicationTimeout = 4"
| "fault_code PositionError = 5"
| "fault_code VelocityError = 6"
| "fault_code BrakeFailure = 7"
| "fault_code LimitSwitch = 8"
| "fault_code EmergencyStop = 9"
| "fault_code PowerFailure = 10"

fun fault_toString :: "fault_type \<Rightarrow> string" where
  "fault_toString EncoderFailure = ''EncoderFailure''"
| "fault_toString MotorFailure = ''MotorFailure''"
| "fault_toString OverCurrent = ''OverCurrent''"
| "fault_toString OverTemperature = ''OverTemperature''"
| "fault_toString CommunicationTimeout = ''CommunicationTimeout''"
| "fault_toString PositionError = ''PositionError''"
| "fault_toString VelocityError = ''VelocityError''"
| "fault_toString BrakeFailure = ''BrakeFailure''"
| "fault_toString LimitSwitch = ''LimitSwitch''"
| "fault_toString EmergencyStop = ''EmergencyStop''"
| "fault_toString PowerFailure = ''PowerFailure''"

record active_fault =
  fault :: fault_type
  jointIndex :: "nat option"

record 'h fault_injector =
  fi_active :: "active_fault list"
  fi_handlers :: "int \<rightharpoonup> 'h"
  fi_calls :: "('h \<times> nat option) list"

definition FaultInjector_create :: "'h fault_injector" where
  "FaultInjector_create = \<lparr>fi_active = [], fi_handlers = (\<lambda>_. None), fi_calls = []\<rparr>"

section \<open>Operations\<close>

definition onFault :: "fault_type \<Rightarrow> 'h \<Rightarrow> 'h fault_injector \<Rightarrow> 'h fault_injector" where
  "onFault type handler fi = fi\<lparr>fi_handlers := (fi_handlers fi)(fault_code type \<mapsto> handler)\<rparr>"

definition inject :: "fault_type \<Rightarrow> nat option \<Rightarrow> 'h fault_injector \<Rightarrow> 'h fault_injector" where
  "inject type j fi =
     (let f = \<lparr>fault = type, jointIndex = j\<rparr>;
          fi = (if f \<notin> set (fi_active fi) then fi\<lparr>fi_active := fi_active fi @ [f]\<rparr> else fi)
      in case fi_handlers fi (fault_code type) of
           Some handler \<Rightarrow> fi\<lparr>fi_calls := fi_calls fi @ [(handler, j)]\<rparr>
         | None \<Rightarrow> fi)"

definition clear :: "fault_type \<Rightarrow> nat option \<Rightarrow> 'h fault_injector \<Rightarrow> 'h fault_injector" where
  "clear type j fi =
     (let f = \<lparr>fault = type, jointIndex = j\<rparr> in fi\<lparr>fi_active := removeAll f (fi_active fi)\<rparr>)"

definition clearAll :: "'h fault_injector \<Rightarrow> 'h fault_injector" where
  "clearAll fi = fi\<lparr>fi_active := []\<rparr>"

definition isActive :: "fault_type \<Rightarrow> nat option \<Rightarrow> 'h fault_injector \<Rightarrow> bool" where
  "isActive type j fi \<longleftrightarrow> \<lparr>fault = type, jointIndex = j\<rparr> \<in> set (fi_active fi)"

definition activeFaults :: "'h fault_injector \<Rightarrow> active_fault list" where
  "activeFaults fi = fi_active fi"

section \<open>Sequences of calls\<close>

datatype 'h fault_op =
    OnFault fault_type 'h
  | Inject fault_type "nat option"
  | Clear fault_type "nat option"
  | ClearAll

fun fault_step :: "'h fault_op \<Rightarrow> 'h fault_injector \<Rightarrow> 'h fault_injector" where
  "fault_step (OnFault t h) = onFault t h"
| "fault_step (Inject t j) = inject t j"
| "fault_step (Clear t j) = clear t j"
| "fault_step ClearAll = clearAll"

definition fault_run :: "'h fault_op list \<Rightarrow> 'h fault_injector" where
  "fault_run ops = fold fault_step ops FaultInjector_create"

text \<open>
  What the header promises, read off the history: a fault is active if the last call about it
  injected it; the handler of a type is the one registered last; every injection calls it.
\<close>

fun about_fault :: "active_fault \<Rightarrow> 'h fault_op \<Rightarrow> bool" where
  "about_fault f (OnFault t h) = False"
| "about_fault f (Inject t j) = (f = \<lparr>fault = t, jointIndex = j\<rparr>)"
| "about_fault f (Clear t j) = (f = \<lparr>fault = t, jointIndex = j\<rparr>)"
| "about_fault f ClearAll = True"

fun is_inject :: "'h fault_op \<Rightarrow> bool" where
  "is_inject (Inject t j) = True"
| "is_inject _ = False"

definition last_injected :: "'h fault_op list \<Rightarrow> active_fault \<Rightarrow> bool" where
  "last_injected ops f =
     (case List.find (about_fault f) (rev ops) of None \<Rightarrow> False | Some op \<Rightarrow> is_inject op)"

text \<open>When a fault was last inactive.\<close>

definition last_off :: "'h fault_op list \<Rightarrow> active_fault \<Rightarrow> nat" where
  "last_off ops f = last (filter (\<lambda>i. \<not> last_injected (take i ops) f) [0..<Suc (length ops)])"

fun registers :: "fault_type \<Rightarrow> 'h fault_op \<Rightarrow> 'h option" where
  "registers t (OnFault t' h) = (if t = t' then Some h else None)"
| "registers t _ = None"

definition last_handler :: "'h fault_op list \<Rightarrow> fault_type \<Rightarrow> 'h option" where
  "last_handler ops t = (case List.map_filter (registers t) (rev ops) of [] \<Rightarrow> None | h # _ \<Rightarrow> Some h)"

definition calls_due :: "'h fault_op list \<Rightarrow> ('h \<times> nat option) list" where
  "calls_due ops = concat (map (\<lambda>i. case ops ! i of
       Inject t j \<Rightarrow> (case last_handler (take i ops) t of None \<Rightarrow> [] | Some h \<Rightarrow> [(h, j)])
     | _ \<Rightarrow> []) [0..<length ops])"

section \<open>Lemmas\<close>

lemma fault_code_inj: "fault_code t = fault_code t' \<longleftrightarrow> t = t'"
  by (cases t; cases t') simp_all

lemma fault_run_snoc [simp]: "fault_run (ops @ [op]) = fault_step op (fault_run ops)"
  and fault_run_Nil [simp]: "fault_run [] = FaultInjector_create"
  by (simp_all add: fault_run_def)

lemma last_injected_snoc [simp]:
  "last_injected (ops @ [op]) f = (if about_fault f op then is_inject op else last_injected ops f)"
  and last_injected_Nil [simp]: "last_injected [] f = False"
  by (simp_all add: last_injected_def)

lemma last_handler_snoc [simp]:
  "last_handler (ops @ [op]) t = (case registers t op of Some h \<Rightarrow> Some h | None \<Rightarrow> last_handler ops t)"
  and last_handler_Nil [simp]: "last_handler [] t = None"
  by (simp_all add: last_handler_def List.map_filter_simps split: option.splits)

lemma calls_due_snoc [simp]:
  "calls_due (ops @ [op]) = calls_due ops @
     (case op of Inject t j \<Rightarrow> (case last_handler ops t of None \<Rightarrow> [] | Some h \<Rightarrow> [(h, j)]) | _ \<Rightarrow> [])"
  unfolding calls_due_def by (auto simp: nth_append split: fault_op.splits intro!: arg_cong [where f = concat])

lemma last_off_snoc:
  "last_off (ops @ [op]) f =
     (if last_injected (ops @ [op]) f then last_off ops f else Suc (length ops))"
proof -
  have "filter (\<lambda>i. \<not> last_injected (take i (ops @ [op])) f) [0..<Suc (length ops)] =
      filter (\<lambda>i. \<not> last_injected (take i ops) f) [0..<Suc (length ops)]"
    by (rule filter_cong) auto
  then show ?thesis unfolding last_off_def by (simp del: upt_Suc add: upt_Suc [of 0 "Suc (length ops)"])
qed

lemma last_off_Nil: "last_off [] f = 0"
  by (simp add: last_off_def)

lemma last_off_le: "last_off ops f \<le> length ops"
  by (induction ops rule: rev_induct) (simp_all add: last_off_snoc last_off_Nil)

lemma last_off_less: "last_injected ops f \<longleftrightarrow> last_off ops f < length ops"
  by (induction ops rule: rev_induct) (auto simp: last_off_snoc last_off_Nil le_imp_less_Suc [OF last_off_le])

text \<open>The registry as a function of the history.\<close>

lemma fault_active: "f \<in> set (fi_active (fault_run ops)) \<longleftrightarrow> last_injected ops f"
proof (induction ops rule: rev_induct)
  case (snoc op ops)
  then show ?case
    by (cases op) (auto simp: onFault_def inject_def clear_def clearAll_def Let_def split: option.splits)
qed (simp add: FaultInjector_create_def)

lemma fault_handlers: "fi_handlers (fault_run ops) (fault_code t) = last_handler ops t"
proof (induction ops rule: rev_induct)
  case (snoc op ops)
  then show ?case
    by (cases op)
      (auto simp: onFault_def inject_def clear_def clearAll_def Let_def fault_code_inj split: option.splits)
qed (simp add: FaultInjector_create_def)

lemma fault_calls: "fi_calls (fault_run ops) = calls_due ops"
proof (induction ops rule: rev_induct)
  case (snoc op ops)
  then show ?case
    by (cases op)
      (auto simp: onFault_def inject_def clear_def clearAll_def Let_def fault_handlers split: option.splits)
qed (simp add: FaultInjector_create_def calls_due_def)

lemma fault_order:
  "sorted_wrt (\<lambda>f g. last_off ops f < last_off ops g) (fi_active (fault_run ops))"
proof (induction ops rule: rev_induct)
  case (snoc op ops)
  let ?R = "\<lambda>f g. last_off ops f < last_off ops g" and ?R' = "\<lambda>f g. last_off (ops @ [op]) f < last_off (ops @ [op]) g"
  have keep: "last_off (ops @ [op]) f = last_off ops f" if "f \<in> set (fi_active (fault_run (ops @ [op])))" for f
    using that unfolding fault_active by (simp only: last_off_snoc if_True)
  have "sorted_wrt ?R (fi_active (fault_run (ops @ [op])))"
  proof (cases op)
    case (Inject t j)
    have "last_off ops f < last_off ops \<lparr>fault = t, jointIndex = j\<rparr>"
      if "f \<in> set (fi_active (fault_run ops))" "\<lparr>fault = t, jointIndex = j\<rparr> \<notin> set (fi_active (fault_run ops))" for f
      using that last_off_le [of ops "\<lparr>fault = t, jointIndex = j\<rparr>"] unfolding fault_active last_off_less by simp
    then show ?thesis using snoc Inject
      by (auto simp: inject_def Let_def sorted_wrt_append split: option.splits)
  qed (use snoc in \<open>auto simp: onFault_def clear_def clearAll_def removeAll_filter_not_eq sorted_wrt_filter\<close>)
  then show ?case by (rule sorted_wrt_mono_rel [rotated]) (simp add: keep)
qed (simp add: FaultInjector_create_def)

lemma fault_distinct: "distinct (fi_active (fault_run ops))"
  unfolding distinct_conv_nth
  using fault_order [of ops] by (metis less_irrefl linorder_neqE_nat sorted_wrt_iff_nth_less)

section \<open>Properties\<close>

text \<open>C40. The fault registry is its history: after any sequence of calls a fault (with its joint) is
  active iff the last call about it injected it; the active faults are listed once each, in the
  order in which they became active; and the handler calls are exactly one per injection, repeated
  ones included, to the handler registered last for that type.\<close>

theorem fault_registry_is_its_history:
  "isActive t j (fault_run ops) = last_injected ops \<lparr>fault = t, jointIndex = j\<rparr> \<and>
   set (activeFaults (fault_run ops)) = {f. last_injected ops f} \<and>
   distinct (activeFaults (fault_run ops)) \<and>
   sorted_wrt (\<lambda>f g. last_off ops f < last_off ops g) (activeFaults (fault_run ops)) \<and>
   fi_calls (fault_run ops) = calls_due ops"
  by (auto simp: isActive_def activeFaults_def fault_active fault_calls fault_order fault_distinct)

end
