(* ===== verification/Cli_Payload.thy ===== *)
theory Cli_Payload
  imports Wire
begin

text \<open>
  The command payloads of \<open>robot::cli\<close> (\<open>include/robot/cli/\<close>, \<open>src/cli/status_payload.cpp\<close>,
  \<open>src/cli/move_joint_payload.cpp\<close>): the status report, whose strings and joint list are
  preceded by 16-bit sizes, and the fixed nine bytes of a joint move.
\<close>

section \<open>Data\<close>

datatype cli_error =
    InvalidHostPort | MissingCommand | UnknownCommand | MissingArgument | InvalidArgument
  | TruncatedPayload | TransportFailure | ProtocolFailure | UnexpectedResponseType
  | ServerReportedError

record joint_status =
  js_positionRadians :: f64
  js_velocityRadiansPerSecond :: f64

record status_payload =
  sp_robotName :: string
  sp_controllerStateName :: string
  sp_joints :: "joint_status list"

record move_joint_payload =
  mj_jointIndex :: u8
  mj_targetRadians :: f64

section \<open>Encoding\<close>

definition writeString :: "bytes \<Rightarrow> string \<Rightarrow> bytes" where
  "writeString out s = foldl (\<lambda>out c. out @ [byte_of_char c]) (writeU16BE out (word_of_nat (length s))) s"

definition writeJointStatus :: "bytes \<Rightarrow> joint_status \<Rightarrow> bytes" where
  "writeJointStatus out j =
     writeF64BE (writeF64BE out (js_positionRadians j)) (js_velocityRadiansPerSecond j)"

definition encodeStatusPayload :: "status_payload \<Rightarrow> bytes" where
  "encodeStatusPayload status =
     (let out = writeString [] (sp_robotName status);
          out = writeString out (sp_controllerStateName status);
          out = writeU16BE out (word_of_nat (length (sp_joints status)))
      in foldl writeJointStatus out (sp_joints status))"

definition encodeMoveJointPayload :: "move_joint_payload \<Rightarrow> bytes" where
  "encodeMoveJointPayload payload =
     writeF64BE ([] @ [mj_jointIndex payload]) (mj_targetRadians payload)"

section \<open>Decoding\<close>

definition needBytes :: "bytes \<Rightarrow> nat \<Rightarrow> nat \<Rightarrow> (cli_error, unit) expected" where
  "needBytes bs offset n = (if length bs - offset < n then Unexpected TruncatedPayload else Ok ())"

text \<open>The joint loop: \<open>n\<close> joints are left to read, \<open>joints\<close> are those already read.\<close>

fun decodeJoints ::
    "bytes \<Rightarrow> nat \<Rightarrow> nat \<Rightarrow> joint_status list \<Rightarrow> (cli_error, joint_status list) expected" where
  "decodeJoints bs offset 0 joints = Ok joints"
| "decodeJoints bs offset (Suc n) joints =
     and_then (needBytes bs offset 16) (\<lambda>_.
       let position = readF64BE (subspan bs offset 8);
           velocity = readF64BE (subspan bs (offset + 8) 8)
       in decodeJoints bs (offset + 16) n
            (joints @ [\<lparr>js_positionRadians = position, js_velocityRadiansPerSecond = velocity\<rparr>]))"

definition decodeStatusPayload :: "bytes \<Rightarrow> (cli_error, status_payload) expected" where
  "decodeStatusPayload bs =
     (let offset = 0 in
      and_then (needBytes bs offset 2) (\<lambda>_.
      let nameLength = unat (readU16BE (subspan bs offset 2)); offset = offset + 2 in
      and_then (needBytes bs offset nameLength) (\<lambda>_.
      let robotName = map char_of_byte (subspan bs offset nameLength);
          offset = offset + nameLength in
      and_then (needBytes bs offset 2) (\<lambda>_.
      let stateNameLength = unat (readU16BE (subspan bs offset 2)); offset = offset + 2 in
      and_then (needBytes bs offset stateNameLength) (\<lambda>_.
      let stateName = map char_of_byte (subspan bs offset stateNameLength);
          offset = offset + stateNameLength in
      and_then (needBytes bs offset 2) (\<lambda>_.
      let jointCount = unat (readU16BE (subspan bs offset 2)); offset = offset + 2 in
      and_then (decodeJoints bs offset jointCount []) (\<lambda>joints.
      Ok \<lparr>sp_robotName = robotName, sp_controllerStateName = stateName, sp_joints = joints\<rparr>)))))))"

definition kEncodedSize :: nat where
  "kEncodedSize = 1 + 8"

definition decodeMoveJointPayload :: "bytes \<Rightarrow> (cli_error, move_joint_payload) expected" where
  "decodeMoveJointPayload bs =
     (if length bs < kEncodedSize then Unexpected TruncatedPayload
      else Ok \<lparr>mj_jointIndex = bs ! 0, mj_targetRadians = readF64BE (subspan bs 1 8)\<rparr>)"

section \<open>The fixed-length parts are codecs\<close>

definition readJointStatus :: "bytes \<Rightarrow> joint_status" where
  "readJointStatus bs =
     \<lparr>js_positionRadians = readF64BE (subspan bs 0 8),
      js_velocityRadiansPerSecond = readF64BE (subspan bs 8 8)\<rparr>"

interpretation joint_codec: fixed_codec writeJointStatus readJointStatus 16
proof unfold_locales
  show app: "writeJointStatus out x = out @ writeJointStatus [] x" for out x
    unfolding writeJointStatus_def by (subst (1 2 3) f64.write_appends) simp
  have w: "writeJointStatus [] x =
      writeF64BE [] (js_positionRadians x) @ writeF64BE [] (js_velocityRadiansPerSecond x)" for x
    unfolding writeJointStatus_def by (rule f64.write_appends)
  show "length (writeJointStatus [] x) = 16" for x by (simp add: w wire_simps)
  show "readJointStatus (writeJointStatus [] x @ rest) = x" for x rest
    by (simp add: w readJointStatus_def subspan_def wire_simps)
  show "writeJointStatus [] (readJointStatus bs) = bs" if "length bs = 16" for bs
    using that by (simp add: w readJointStatus_def subspan_def f64.write_read flip: take_add)
qed

definition readMoveJoint :: "bytes \<Rightarrow> move_joint_payload" where
  "readMoveJoint bs = \<lparr>mj_jointIndex = bs ! 0, mj_targetRadians = readF64BE (subspan bs 1 8)\<rparr>"

lemma encodeMoveJointPayload_Cons:
  "encodeMoveJointPayload p = mj_jointIndex p # writeF64BE [] (mj_targetRadians p)"
  unfolding encodeMoveJointPayload_def by (subst f64.write_appends) simp

interpretation move_codec: fixed_codec "\<lambda>out p. out @ encodeMoveJointPayload p" readMoveJoint 9
proof unfold_locales
  show "[] @ encodeMoveJointPayload (readMoveJoint bs) = bs" if "length bs = 9" for bs
    using that by (cases bs) (simp_all add: encodeMoveJointPayload_Cons readMoveJoint_def subspan_def f64.write_read)
qed (simp_all add: encodeMoveJointPayload_Cons readMoveJoint_def subspan_def wire_simps)

section \<open>Reading back one field\<close>

lemma needBytes_Ok: "needBytes bs offset n = Inr u \<longleftrightarrow> n \<le> length bs - offset"
  by (simp add: needBytes_def not_less)

lemma needBytes_Unexpected:
  "needBytes bs offset n = Inl e \<longleftrightarrow> length bs - offset < n \<and> e = TruncatedPayload"
  by (auto simp: needBytes_def)

lemma writeString_app: "writeString out s = out @ writeU16BE [] (word_of_nat (length s)) @ map byte_of_char s"
proof -
  have "foldl (\<lambda>out c. out @ [byte_of_char c]) out s = out @ map byte_of_char s" for out
    by (induction s arbitrary: out) simp_all
  then show ?thesis unfolding writeString_def by (subst u16.write_appends) simp
qed

lemma encodeStatusPayload_app:
  "encodeStatusPayload st = writeString [] (sp_robotName st) @ writeString [] (sp_controllerStateName st) @
     writeU16BE [] (word_of_nat (length (sp_joints st))) @ concat (map (writeJointStatus []) (sp_joints st))"
  unfolding encodeStatusPayload_def Let_def joint_codec.foldl_write
  by (subst u16.write_appends, subst (2) writeString_app) (simp add: writeString_app)

lemma unat_size_field: "n < 65536 \<Longrightarrow> unat (word_of_nat n :: u16) = n"
  by (simp add: unat_of_nat)

lemma drop_shift: "drop offset bs = xs @ rest \<Longrightarrow> length xs = n \<Longrightarrow> drop (offset + n) bs = rest"
  by (metis add.commute append_eq_conv_conj drop_drop)

lemma length_from_drop: "drop offset bs = xs \<Longrightarrow> length xs = length bs - offset"
  by auto

lemma size_field:
  assumes "drop offset bs = writeU16BE [] v @ rest"
  shows "needBytes bs offset 2 = Ok ()" and "readU16BE (subspan bs offset 2) = v"
    and "drop (offset + 2) bs = rest"
  using assms length_from_drop [OF assms] drop_shift [OF assms]
  by (simp_all add: needBytes_def subspan_def wire_simps)

lemma size_field_rev:
  assumes "needBytes bs offset 2 = Ok ()"
  shows "drop offset bs = writeU16BE [] (readU16BE (subspan bs offset 2)) @ drop (offset + 2) bs"
proof -
  have "drop (offset + 2) bs = drop 2 (drop offset bs)" by (simp add: add.commute)
  moreover have "writeU16BE [] (readU16BE (subspan bs offset 2)) = take 2 (drop offset bs)"
    using assms by (simp add: needBytes_Ok subspan_def u16.write_read)
  ultimately show ?thesis by (metis append_take_drop_id)
qed

lemma chars_field:
  assumes "drop offset bs = map byte_of_char s @ rest"
  shows "needBytes bs offset (length s) = Ok ()"
    and "map char_of_byte (subspan bs offset (length s)) = s"
    and "drop (offset + length s) bs = rest"
  using assms length_from_drop [OF assms] drop_shift [OF assms]
  by (simp_all add: needBytes_def subspan_def comp_def)

lemma chars_field_rev:
  assumes "needBytes bs offset n = Ok ()"
  shows "drop offset bs = map byte_of_char (map char_of_byte (subspan bs offset n)) @ drop (offset + n) bs"
    and "length (subspan bs offset n) = n"
  unfolding map_byte_of_char_of_byte using assms
  by (simp_all add: needBytes_Ok subspan_def add.commute flip: drop_drop)

lemma joints_field:
  "drop offset bs = concat (map (writeJointStatus []) js) @ rest \<Longrightarrow>
   decodeJoints bs offset (length js) acc = Ok (acc @ js)"
proof (induction js arbitrary: offset acc)
  case (Cons j js)
  let ?rest = "concat (map (writeJointStatus []) js) @ rest"
  have d: "drop offset bs = writeJointStatus [] j @ ?rest" using Cons.prems by simp
  have n: "needBytes bs offset 16 = Ok ()"
    using length_from_drop [OF d] by (simp add: needBytes_def joint_codec.write_length)
  have s8: "subspan bs (offset + 8) 8 = subspan (drop offset bs) 8 8"
    by (simp add: subspan_def add.commute)
  have j: "readJointStatus (drop offset bs) = j" by (simp add: d joint_codec.read_write)
  have "drop (offset + 16) bs = ?rest" by (rule drop_shift [OF d joint_codec.write_length])
  then show ?case
    using Cons.IH [of "offset + 16" "acc @ [j]"] n j
    by (simp add: s8 readJointStatus_def) (simp add: subspan_def)
qed simp

lemma joints_field_rev:
  "decodeJoints bs offset n acc = Ok r \<Longrightarrow>
   \<exists>js. r = acc @ js \<and> length js = n \<and>
     drop offset bs = concat (map (writeJointStatus []) js) @ drop (offset + 16 * n) bs"
proof (induction n arbitrary: offset acc)
  case (Suc n)
  let ?j = "readJointStatus (drop offset bs)"
  have s: "subspan bs offset 8 = subspan (drop offset bs) 0 8"
    "subspan bs (offset + 8) 8 = subspan (drop offset bs) 8 8"
    by (simp_all add: subspan_def add.commute)
  have n: "needBytes bs offset 16 = Ok ()"
    and rec: "decodeJoints bs (offset + 16) n (acc @ [?j]) = Ok r"
    using Suc.prems by (auto simp: and_then_eq_Ok s readJointStatus_def)
  have "drop offset bs = writeJointStatus [] ?j @ drop (offset + 16) bs"
    using n joint_codec.write_read_take [of "drop offset bs"] append_take_drop_id [of 16 "drop offset bs"]
    by (simp add: needBytes_Ok add.commute)
  moreover obtain js where "r = (acc @ [?j]) @ js" "length js = n"
    "drop (offset + 16) bs = concat (map (writeJointStatus []) js) @ drop (offset + 16 + 16 * n) bs"
    using Suc.IH [OF rec] by blast
  ultimately show ?case
    by (intro exI [of _ "?j # js"]) (simp add: algebra_simps)
qed simp

lemma decodeJoints_error: "decodeJoints bs offset n acc = Inl e \<Longrightarrow> e = TruncatedPayload"
  by (induction n arbitrary: offset acc) (auto simp: and_then_eq_Unexpected needBytes_Unexpected Let_def)

section \<open>Reading back a whole status\<close>

definition status_sizes_ok :: "status_payload \<Rightarrow> bool" where
  "status_sizes_ok st \<longleftrightarrow> length (sp_robotName st) < 65536 \<and>
     length (sp_controllerStateName st) < 65536 \<and> length (sp_joints st) < 65536"

lemma decode_status_encode:
  assumes "status_sizes_ok st"
  shows "decodeStatusPayload (encodeStatusPayload st @ rest) = Ok st"
proof -
  let ?bs = "encodeStatusPayload st @ rest"
  have sz: "length (sp_robotName st) < 65536" "length (sp_controllerStateName st) < 65536"
    "length (sp_joints st) < 65536"
    using assms by (simp_all add: status_sizes_ok_def)
  have d0: "drop 0 ?bs = writeU16BE [] (word_of_nat (length (sp_robotName st))) @
      map byte_of_char (sp_robotName st) @
      writeU16BE [] (word_of_nat (length (sp_controllerStateName st))) @
      map byte_of_char (sp_controllerStateName st) @
      writeU16BE [] (word_of_nat (length (sp_joints st))) @
      concat (map (writeJointStatus []) (sp_joints st)) @ rest"
    by (simp add: encodeStatusPayload_app writeString_app)
  note f1 = size_field [OF d0]
  note f2 = chars_field [OF f1(3)]
  note f3 = size_field [OF f2(3)]
  note f4 = chars_field [OF f3(3)]
  note f5 = size_field [OF f4(3)]
  note f6 = joints_field [OF f5(3), of "[]"]
  show ?thesis
    unfolding decodeStatusPayload_def Let_def
    by (simp only: f1 f2 f3 f4 f5 f6 and_then.simps unat_size_field sz append_Nil) simp
qed

lemma decode_status_canonical:
  assumes "decodeStatusPayload bs = Ok st"
  shows "\<exists>rest. bs = encodeStatusPayload st @ rest" and "status_sizes_ok st"
proof -
  obtain n1 n2 n3 joints where
    n1: "needBytes bs 0 2 = Ok ()" "n1 = readU16BE (subspan bs 0 2)" and
    c1: "needBytes bs (0 + 2) (unat n1) = Ok ()" and
    n2: "needBytes bs (0 + 2 + unat n1) 2 = Ok ()" "n2 = readU16BE (subspan bs (0 + 2 + unat n1) 2)" and
    c2: "needBytes bs (0 + 2 + unat n1 + 2) (unat n2) = Ok ()" and
    n3: "needBytes bs (0 + 2 + unat n1 + 2 + unat n2) 2 = Ok ()"
      "n3 = readU16BE (subspan bs (0 + 2 + unat n1 + 2 + unat n2) 2)" and
    j: "decodeJoints bs (0 + 2 + unat n1 + 2 + unat n2 + 2) (unat n3) [] = Ok joints" and
    st: "st = \<lparr>sp_robotName = map char_of_byte (subspan bs (0 + 2) (unat n1)),
      sp_controllerStateName = map char_of_byte (subspan bs (0 + 2 + unat n1 + 2) (unat n2)),
      sp_joints = joints\<rparr>"
    using assms unfolding decodeStatusPayload_def Let_def and_then_eq_Ok by auto
  note s1 = size_field_rev [OF n1(1), folded n1(2)] and s2 = size_field_rev [OF n2(1), folded n2(2)]
    and s3 = size_field_rev [OF n3(1), folded n3(2)]
  note t1 = chars_field_rev [OF c1] and t2 = chars_field_rev [OF c2]
  obtain js where js: "joints = js" "length js = unat n3"
    "drop (0 + 2 + unat n1 + 2 + unat n2 + 2) bs = concat (map (writeJointStatus []) js) @
       drop (0 + 2 + unat n1 + 2 + unat n2 + 2 + 16 * unat n3) bs"
    using joints_field_rev [OF j] by auto
  have "bs = drop 0 bs" by simp
  also have "\<dots> = encodeStatusPayload st @ drop (0 + 2 + unat n1 + 2 + unat n2 + 2 + 16 * unat n3) bs"
    unfolding s1 t1(1) s2 t2(1) s3 js(3)
    by (simp only: encodeStatusPayload_app writeString_app st status_payload.simps length_map t1(2)
        t2(2) js(1,2) of_nat_unat ucast_id append_assoc append_Nil)
  finally show "\<exists>rest. bs = encodeStatusPayload st @ rest" ..
  show "status_sizes_ok st"
    using t1(2) t2(2) js unsigned_less [of n1, where ?'a = nat] unsigned_less [of n2, where ?'a = nat]
      unsigned_less [of n3, where ?'a = nat]
    by (simp add: status_sizes_ok_def st)
qed

lemma decode_status_error: "decodeStatusPayload bs = Inl e \<Longrightarrow> e = TruncatedPayload"
  unfolding decodeStatusPayload_def Let_def and_then_eq_Unexpected
  by (auto simp: needBytes_Unexpected dest: decodeJoints_error)

section \<open>Properties\<close>

text \<open>C19. A status report survives its encoding, whatever follows it in the buffer, exactly when its
  three sizes fit the 16-bit length fields; a longer name, state name or joint list is not
  rejected by the encoder, whose size fields wrap around.\<close>

theorem status_roundtrip_iff_sizes_fit:
  "decodeStatusPayload (encodeStatusPayload st @ rest) = Ok st \<longleftrightarrow>
     length (sp_robotName st) < 2 ^ 16 \<and> length (sp_controllerStateName st) < 2 ^ 16 \<and>
     length (sp_joints st) < 2 ^ 16"
proof -
  have "decodeStatusPayload (encodeStatusPayload st @ rest) = Ok st \<longleftrightarrow> status_sizes_ok st"
    using decode_status_encode [of st rest]
      decode_status_canonical(2) [of "encodeStatusPayload st @ rest" st] by blast
  also have "\<dots> \<longleftrightarrow> length (sp_robotName st) < 2 ^ 16 \<and>
      length (sp_controllerStateName st) < 2 ^ 16 \<and> length (sp_joints st) < 2 ^ 16"
    by (simp add: status_sizes_ok_def)
  finally show ?thesis .
qed

text \<open>Every buffer that \<open>decodeStatusPayload\<close> accepts begins with the encoding of the status it
  returns, and the only error is \<open>TruncatedPayload\<close>; in particular an encoded status that is cut
  short anywhere is reported as truncated.\<close>

theorem status_cut_short_is_truncated:
  assumes "status_sizes_ok st" and "k < length (encodeStatusPayload st)"
  shows "decodeStatusPayload (take k (encodeStatusPayload st)) = Unexpected TruncatedPayload"
proof (cases "decodeStatusPayload (take k (encodeStatusPayload st))")
  case (Inl e)
  then show ?thesis using decode_status_error by blast
next
  case (Inr st')
  then obtain rest where cut: "take k (encodeStatusPayload st) = encodeStatusPayload st' @ rest"
    and ok: "status_sizes_ok st'"
    using decode_status_canonical by blast
  have "encodeStatusPayload st = encodeStatusPayload st' @ rest @ drop k (encodeStatusPayload st)"
    using cut by (metis append_assoc append_take_drop_id)
  then have "st' = st"
    using decode_status_encode [OF ok, of "rest @ drop k (encodeStatusPayload st)"]
      decode_status_encode [OF assms(1), of "[]"] by simp
  then have "length (encodeStatusPayload st) \<le> length (take k (encodeStatusPayload st))"
    using cut by simp
  then show ?thesis using assms(2) by simp
qed

theorem status_cut_short_is_truncated_witness:
  "decodeStatusPayload (take 5 (encodeStatusPayload
     \<lparr>sp_robotName = ''Arm'', sp_controllerStateName = ''Ready'', sp_joints = []\<rparr>)) =
   Unexpected TruncatedPayload"
  by (rule status_cut_short_is_truncated)
    (simp_all add: status_sizes_ok_def encodeStatusPayload_app writeString_app wire_simps)

text \<open>A joint move of any index and any 64-bit pattern, NaN included, survives its encoding;
  the decoder reads nine bytes, rejects every shorter buffer as truncated and ignores what
  follows.\<close>

theorem move_joint_payload_codec:
  "decodeMoveJointPayload (encodeMoveJointPayload p @ rest) = Ok p \<and>
   (case decodeMoveJointPayload bs of
      Inl e \<Rightarrow> e = TruncatedPayload \<and> length bs < kEncodedSize
    | Inr q \<Rightarrow> kEncodedSize \<le> length bs \<and> encodeMoveJointPayload q = take kEncodedSize bs)"
proof
  have d: "decodeMoveJointPayload bs = (if length bs < 9 then Unexpected TruncatedPayload
      else Ok (readMoveJoint bs))" for bs
    by (simp add: decodeMoveJointPayload_def readMoveJoint_def kEncodedSize_def)
  show "decodeMoveJointPayload (encodeMoveJointPayload p @ rest) = Ok p"
    using move_codec.read_write [of p rest] move_codec.write_length [of p] by (simp add: d)
  show "case decodeMoveJointPayload bs of
      Inl e \<Rightarrow> e = TruncatedPayload \<and> length bs < kEncodedSize
    | Inr q \<Rightarrow> kEncodedSize \<le> length bs \<and> encodeMoveJointPayload q = take kEncodedSize bs"
    using move_codec.write_read_take [of bs] by (simp add: d kEncodedSize_def)
qed

end
