(* ===== verification/Charconv.thy ===== *)
theory Charconv
  imports Float64
begin

text \<open>
  \<open>std::from_chars\<close> (base ten) as the command line uses it: for unsigned integers and for
  \<open>double\<close>.  A result is the value and the characters that were not consumed.
\<close>

datatype errc = invalid_argument | result_out_of_range

section \<open>Decimal digits\<close>

definition is_digit :: "char \<Rightarrow> bool" where
  "is_digit c \<longleftrightarrow> 48 \<le> (of_char c :: nat) \<and> (of_char c :: nat) \<le> 57"

definition digits_value :: "string \<Rightarrow> nat" where
  "digits_value = foldl (\<lambda>n c. 10 * n + (of_char c - 48)) 0"

section \<open>The integers of the C library\<close>

text \<open>The number at the front of a text, after blanks and an optional sign; \<open>None\<close>: there is none.\<close>

definition is_space :: "char \<Rightarrow> bool" where
  "is_space c \<longleftrightarrow> c = CHR '' '' \<or> 9 \<le> (of_char c :: nat) \<and> (of_char c :: nat) \<le> 13"

definition decimal_prefix :: "string \<Rightarrow> int option" where
  "decimal_prefix text =
     (let s = dropWhile is_space text;
          neg = (s \<noteq> [] \<and> hd s = CHR ''-'');
          s = (if s \<noteq> [] \<and> (hd s = CHR ''-'' \<or> hd s = CHR ''+'') then tl s else s);
          ds = takeWhile is_digit s
      in if ds = [] then None else Some (if neg then - int (digits_value ds) else int (digits_value ds)))"

text \<open>\<open>std::atoi\<close>: 0 without a number; \<open>None\<close> where its behaviour is undefined.\<close>

definition std_atoi :: "string \<Rightarrow> int option" where
  "std_atoi text =
     (case decimal_prefix text of
        None \<Rightarrow> Some 0
      | Some v \<Rightarrow> if v < - (2 ^ 31) \<or> 2 ^ 31 \<le> v then None else Some v)"

section \<open>Unsigned integers\<close>

text \<open>\<open>limit\<close> is the largest value of the type.  Neither a sign nor a blank is part of a number.\<close>

definition from_chars_uint :: "nat \<Rightarrow> string \<Rightarrow> (errc, nat \<times> string) expected" where
  "from_chars_uint limit s =
     (let ds = takeWhile is_digit s; rest = dropWhile is_digit s
      in if ds = [] then Unexpected invalid_argument
         else if limit < digits_value ds then Unexpected result_out_of_range
         else Ok (digits_value ds, rest))"

section \<open>Doubles\<close>

text \<open>The exponent part, if there is a complete one, and the rest.\<close>

definition sign_of :: "string \<Rightarrow> bool \<times> string" where
  "sign_of s =
     (case s of [] \<Rightarrow> (False, s)
      | c # t \<Rightarrow> if c = CHR ''-'' then (True, t) else if c = CHR ''+'' then (False, t) else (False, s))"

definition exponent_part :: "string \<Rightarrow> int \<times> string" where
  "exponent_part s =
     (case s of [] \<Rightarrow> (0, s)
      | c # t \<Rightarrow>
          if c = CHR ''e'' \<or> c = CHR ''E'' then
            (let (neg, u) = sign_of t; ds = takeWhile is_digit u; n = int (digits_value ds)
             in if ds = [] then (0, s) else (if neg then - n else n, dropWhile is_digit u))
          else (0, s))"

text \<open>\<open>p\<close> without regard to case, at the front of \<open>s\<close>.\<close>

definition ascii_lower :: "char \<Rightarrow> char" where
  "ascii_lower c = (let n = of_char c :: nat in if 65 \<le> n \<and> n \<le> 90 then char_of (n + 32) else c)"

definition after_word :: "string \<Rightarrow> string \<Rightarrow> string option" where
  "after_word p s = (if map ascii_lower (take (length p) s) = p then Some (drop (length p) s) else None)"

definition is_nan_char :: "char \<Rightarrow> bool" where
  "is_nan_char c \<longleftrightarrow> is_digit c \<or> c = CHR ''_'' \<or>
     (let n = of_char (ascii_lower c) :: nat in 97 \<le> n \<and> n \<le> 122)"

text \<open>What \<open>nan\<close> is followed by: an optional sequence in parentheses.\<close>

definition after_nan :: "string \<Rightarrow> string" where
  "after_nan s =
     (case s of c # t \<Rightarrow>
        (case dropWhile is_nan_char t of d # u \<Rightarrow> if c = CHR ''('' \<and> d = CHR '')'' then u else s | [] \<Rightarrow> s)
      | [] \<Rightarrow> s)"

definition special_value :: "bool \<Rightarrow> string \<Rightarrow> (errc, f64 \<times> string) expected" where
  "special_value neg s =
     (case after_word ''infinity'' s of Some t \<Rightarrow> Ok (mk_f64 neg inf_mag, t)
      | None \<Rightarrow>
        (case after_word ''inf'' s of Some t \<Rightarrow> Ok (mk_f64 neg inf_mag, t)
         | None \<Rightarrow>
           (case after_word ''nan'' s of Some t \<Rightarrow> Ok (mk_f64 neg (inf_mag + 2 ^ 51), after_nan t)
            | None \<Rightarrow> Unexpected invalid_argument)))"

text \<open>The double nearest to \<open>m * 10 ^ e\<close>.\<close>

definition decimal_mag :: "nat \<Rightarrow> int \<Rightarrow> nat" where
  "decimal_mag m e =
     (if 0 \<le> e then rnd_mag (m * 10 ^ nat e * unit_scale) 1
      else rnd_mag (m * unit_scale) (10 ^ nat (- e)))"

text \<open>
  A value that rounds to infinity, or a nonzero one that rounds to zero, is out of range (the
  standard library in use reports both).
\<close>

definition from_chars_double :: "string \<Rightarrow> (errc, f64 \<times> string) expected" where
  "from_chars_double s =
     (let (neg, s) = (case s of c # t \<Rightarrow> if c = CHR ''-'' then (True, t) else (False, s) | [] \<Rightarrow> (False, s));
          ip = takeWhile is_digit s;
          r = dropWhile is_digit s;
          (fp, r) = (case r of c # t \<Rightarrow> if c = CHR ''.'' then (takeWhile is_digit t, dropWhile is_digit t) else ([], r)
                     | [] \<Rightarrow> ([], r))
      in if ip = [] \<and> fp = [] then special_value neg s
         else let m = digits_value (ip @ fp);
                  (e, r) = exponent_part r;
                  mag = decimal_mag m (e - int (length fp))
              in if mag = inf_mag \<or> (mag = 0 \<and> m \<noteq> 0) then Unexpected result_out_of_range
                 else Ok (mk_f64 neg mag, r))"

section \<open>Printed naturals\<close>

definition newline :: string where
  "newline = [CHR 0x0A]"

text \<open>The decimal numeral of a natural, the shortest one.\<close>

fun string_of_nat :: "nat \<Rightarrow> string" where
  "string_of_nat n =
     (if n < 10 then [char_of (48 + n)] else string_of_nat (n div 10) @ [char_of (48 + n mod 10)])"

declare string_of_nat.simps [simp del]

lemma of_char_digit: "d < 10 \<Longrightarrow> of_char (char_of (48 + d) :: char) = 48 + d" for d :: nat
  by simp

lemma is_digit_char: "d < 10 \<Longrightarrow> is_digit (char_of (48 + d))" for d :: nat
  by (simp add: is_digit_def)

lemma digits_value_snoc [simp]: "digits_value (ds @ [c]) = 10 * digits_value ds + (of_char c - 48)"
  and digits_value_Nil [simp]: "digits_value [] = 0"
  by (simp_all add: digits_value_def)

lemma string_of_nat_facts:
  "list_all is_digit (string_of_nat n) \<and> string_of_nat n \<noteq> [] \<and> digits_value (string_of_nat n) = n"
proof (induction n rule: string_of_nat.induct)
  case (1 n)
  show ?case
  proof (cases "n < 10")
    case True
    then show ?thesis
      by (subst (1 2 3) string_of_nat.simps) (simp add: is_digit_def digits_value_def)
  next
    case False
    have "n mod 10 < 10" by simp
    with False 1 show ?thesis
      by (subst (1 2 3) string_of_nat.simps) (simp add: is_digit_char)
  qed
qed

text \<open>Digits in front of a character that is none are consumed, and nothing else is.\<close>

lemma takeWhile_digits:
  assumes "list_all is_digit ds" and "rest = [] \<or> \<not> is_digit (hd rest)"
  shows "takeWhile is_digit (ds @ rest) = ds" and "dropWhile is_digit (ds @ rest) = rest"
proof -
  have "takeWhile is_digit rest = []" "dropWhile is_digit rest = rest"
    using assms(2) by (cases rest; simp)+
  then show "takeWhile is_digit (ds @ rest) = ds" "dropWhile is_digit (ds @ rest) = rest"
    using assms(1) by (simp_all add: list_all_iff)
qed

lemma takeWhile_all_digits:
  "takeWhile is_digit s = s \<longleftrightarrow> list_all is_digit s" "dropWhile is_digit s = [] \<longleftrightarrow> list_all is_digit s"
  by (simp_all add: takeWhile_eq_all_conv dropWhile_eq_Nil_conv list_all_iff)

text \<open>The numeral \<open>s\<close> of \<open>n\<close>, leading zeros allowed.\<close>

definition numeral_of :: "string \<Rightarrow> nat \<Rightarrow> bool" where
  "numeral_of s n \<longleftrightarrow> s \<noteq> [] \<and> list_all is_digit s \<and> digits_value s = n"

lemma numeral_of_string_of_nat: "numeral_of (string_of_nat n) n"
  by (simp add: numeral_of_def string_of_nat_facts)

text \<open>The whole text is consumed exactly if it is a numeral in range.\<close>

lemma from_chars_uint_whole:
  "from_chars_uint limit s = Ok (n, []) \<longleftrightarrow> numeral_of s n \<and> n \<le> limit"
proof (cases "list_all is_digit s")
  case True
  then have all: "takeWhile is_digit s = s" "dropWhile is_digit s = []" by (simp_all only: takeWhile_all_digits)
  show ?thesis using True unfolding from_chars_uint_def Let_def numeral_of_def all by auto
next
  case False
  then have "dropWhile is_digit s \<noteq> []" by (simp only: takeWhile_all_digits not_False_eq_True)
  with False show ?thesis by (auto simp: from_chars_uint_def Let_def numeral_of_def split: if_splits)
qed

end
