(* ===== verification/Cli_Command.thy ===== *)
theory Cli_Command
  imports Cli_Payload Charconv
begin

text \<open>
  The command line of \<open>robotctl\<close> (\<open>include/robot/cli/command.hpp\<close>, \<open>src/cli/command.cpp\<close>).
\<close>

section \<open>Commands\<close>

datatype command_kind =
    Kind_Status | Kind_Enable | Kind_Disable | Kind_Home | Kind_MoveJoint | Kind_Stop | Kind_EmergencyStop

record command =
  cmd_kind :: command_kind
  cmd_jointIndex :: u8
  cmd_targetDegrees :: f64

record parsed_invocation =
  inv_host :: string
  inv_port :: u16
  inv_command :: command

section \<open>The parser\<close>

text \<open>\<open>std::string_view::rfind(c)\<close>.\<close>

definition rfind :: "char \<Rightarrow> string \<Rightarrow> nat option" where
  "rfind c s = (if c \<in> set s then Some (length s - 1 - length (takeWhile (\<lambda>x. x \<noteq> c) (rev s))) else None)"

definition splitHostPort :: "string \<Rightarrow> (cli_error, string \<times> u16) expected" where
  "splitHostPort hostPort =
     (case rfind CHR '':'' hostPort of
        None \<Rightarrow> Unexpected InvalidHostPort
      | Some colon \<Rightarrow>
          if colon = 0 \<or> colon = length hostPort - 1 then Unexpected InvalidHostPort
          else
            let hostPart = take colon hostPort; portPart = drop (colon + 1) hostPort
            in case from_chars_uint 65535 portPart of
                 Inl _ \<Rightarrow> Unexpected InvalidHostPort
               | Inr (port, rest) \<Rightarrow>
                   if rest \<noteq> [] then Unexpected InvalidHostPort else Ok (hostPart, word_of_nat port))"

definition parseDouble :: "string \<Rightarrow> (cli_error, f64) expected" where
  "parseDouble s =
     (case from_chars_double s of
        Inl _ \<Rightarrow> Unexpected InvalidArgument
      | Inr (v, rest) \<Rightarrow> if rest \<noteq> [] then Unexpected InvalidArgument else Ok v)"

definition parseJointIndex :: "string \<Rightarrow> (cli_error, u8) expected" where
  "parseJointIndex s =
     (case from_chars_uint (2 ^ 32 - 1) s of
        Inl _ \<Rightarrow> Unexpected InvalidArgument
      | Inr (v, rest) \<Rightarrow>
          if rest \<noteq> [] \<or> 255 < v then Unexpected InvalidArgument else Ok (word_of_nat v))"

text \<open>The commands without arguments, in the order of the comparisons.\<close>

definition plain_commands :: "(string \<times> command_kind) list" where
  "plain_commands =
     [(''status'', Kind_Status), (''enable'', Kind_Enable), (''disable'', Kind_Disable), (''home'', Kind_Home),
      (''stop'', Kind_Stop), (''estop'', Kind_EmergencyStop)]"

definition plain_command :: "command_kind \<Rightarrow> command" where
  "plain_command kind = \<lparr>cmd_kind = kind, cmd_jointIndex = 0, cmd_targetDegrees = 0\<rparr>"

definition parseCommand :: "string \<Rightarrow> string list \<Rightarrow> (cli_error, command) expected" where
  "parseCommand commandName commandArgs =
     (case map_of plain_commands commandName of
        Some kind \<Rightarrow> Ok (plain_command kind)
      | None \<Rightarrow>
          if commandName = ''move-joint'' then
            if length commandArgs < 2 then Unexpected MissingArgument
            else and_then (parseJointIndex (commandArgs ! 0)) (\<lambda>jointIndex.
                 and_then (parseDouble (commandArgs ! 1)) (\<lambda>targetDegrees.
                 Ok \<lparr>cmd_kind = Kind_MoveJoint, cmd_jointIndex = jointIndex, cmd_targetDegrees = targetDegrees\<rparr>))
          else Unexpected UnknownCommand)"

definition parseArgs :: "string list \<Rightarrow> (cli_error, parsed_invocation) expected" where
  "parseArgs args =
     (if length args < 2
      then Unexpected (if args = [] then InvalidHostPort else MissingCommand)
      else and_then (splitHostPort (args ! 0)) (\<lambda>(host, port).
           and_then (parseCommand (args ! 1) (drop 2 args)) (\<lambda>command.
           Ok \<lparr>inv_host = host, inv_port = port, inv_command = command\<rparr>)))"

section \<open>The grammar\<close>

text \<open>What the parser accepts, without the parser.\<close>

definition host_port_text :: "string \<Rightarrow> u16 \<Rightarrow> string \<Rightarrow> bool" where
  "host_port_text host port s \<longleftrightarrow>
     (\<exists>ds. s = host @ '':'' @ ds \<and> host \<noteq> [] \<and> numeral_of ds (unat port))"

definition command_text :: "command \<Rightarrow> string \<Rightarrow> string list \<Rightarrow> bool" where
  "command_text cmd name args \<longleftrightarrow>
     (case cmd_kind cmd of
        Kind_MoveJoint \<Rightarrow> name = ''move-joint'' \<and>
          (\<exists>j d ignored. args = j # d # ignored \<and> numeral_of j (unat (cmd_jointIndex cmd)) \<and>
            from_chars_double d = Ok (cmd_targetDegrees cmd, []))
      | kind \<Rightarrow> (name, kind) \<in> set plain_commands \<and> cmd = plain_command kind)"

section \<open>Lemmas\<close>

lemma rfind_append: "c \<notin> set t \<Longrightarrow> rfind c (s @ c # t) = Some (length s)"
proof -
  assume c: "c \<notin> set t"
  have "takeWhile (\<lambda>x. x \<noteq> c) (rev t @ c # rev s) = rev t"
    by (subst takeWhile_append2) (use c in auto)
  then show ?thesis by (simp add: rfind_def)
qed

lemma rfind_SomeE:
  assumes "rfind c s = Some i"
  obtains pre post where "s = pre @ c # post" "c \<notin> set post" "i = length pre"
proof -
  have "c \<in> set s" using assms by (simp add: rfind_def split: if_splits)
  then obtain pre post where "s = pre @ c # post" "c \<notin> set post" by (meson split_list_last)
  with assms that show thesis by (simp add: rfind_append)
qed

lemma numeral_no_colon: "numeral_of s n \<Longrightarrow> CHR '':'' \<notin> set s"
  by (auto simp: numeral_of_def list_all_iff is_digit_def)

lemma splitHostPort_Ok: "splitHostPort s = Ok (host, port) \<longleftrightarrow> host_port_text host port s"
proof
  assume ok: "splitHostPort s = Ok (host, port)"
  then obtain colon where r: "rfind CHR '':'' s = Some colon"
    by (auto simp: splitHostPort_def split: option.splits)
  obtain pre post where s: "s = pre @ CHR '':'' # post" "colon = length pre" using rfind_SomeE [OF r] by blast
  obtain n where n: "from_chars_uint 65535 post = Ok (n, [])" "port = word_of_nat n" "host = pre" "pre \<noteq> []"
    using ok r s by (auto simp: splitHostPort_def split: if_splits sum.splits)
  then have "numeral_of post n" "n \<le> 65535" by (simp_all add: from_chars_uint_whole)
  moreover from this have "unat port = n" using n(2) by (simp add: unat_of_nat)
  ultimately show "host_port_text host port s"
    unfolding host_port_text_def using s(1) n(3,4) by (intro exI [of _ post]) auto
next
  assume "host_port_text host port s"
  then obtain ds where s: "s = host @ CHR '':'' # ds" "host \<noteq> []" and n: "numeral_of ds (unat port)"
    by (auto simp: host_port_text_def)
  have "unat port \<le> 65535" using unsigned_less [of port, where ?'a = nat] by simp
  then have "from_chars_uint 65535 ds = Ok (unat port, [])" using n by (simp add: from_chars_uint_whole)
  moreover have "rfind CHR '':'' s = Some (length host)"
    unfolding s by (rule rfind_append [OF numeral_no_colon [OF n]])
  moreover have "ds \<noteq> []" using n by (simp add: numeral_of_def)
  ultimately show "splitHostPort s = Ok (host, port)"
    using s by (simp add: splitHostPort_def)
qed

lemma splitHostPort_error: "splitHostPort s = Unexpected e \<Longrightarrow> e = InvalidHostPort"
  by (auto simp: splitHostPort_def Let_def split: option.splits if_splits sum.splits)

lemma parseJointIndex_Ok: "parseJointIndex s = Ok v \<longleftrightarrow> numeral_of s (unat v)"
proof
  assume "parseJointIndex s = Ok v"
  then obtain n where n: "from_chars_uint (2 ^ 32 - 1) s = Ok (n, [])" "n \<le> 255" "v = word_of_nat n"
    by (auto simp: parseJointIndex_def split: sum.splits if_splits)
  then show "numeral_of s (unat v)" by (simp add: from_chars_uint_whole unat_of_nat)
next
  assume n: "numeral_of s (unat v)"
  have b: "unat v \<le> 255" using unsigned_less [of v, where ?'a = nat] by simp
  then have "from_chars_uint (2 ^ 32 - 1) s = Ok (unat v, [])" using n by (simp add: from_chars_uint_whole)
  then show "parseJointIndex s = Ok v" using b by (simp add: parseJointIndex_def)
qed

lemma parseJointIndex_error: "parseJointIndex s = Unexpected e \<Longrightarrow> e = InvalidArgument"
  and parseDouble_error: "parseDouble s = Unexpected e \<Longrightarrow> e = InvalidArgument"
  and parseDouble_Ok: "parseDouble s = Ok v \<longleftrightarrow> from_chars_double s = Ok (v, [])"
  by (auto simp: parseJointIndex_def parseDouble_def split: sum.splits if_splits)

lemma plain_commands_map: "map_of plain_commands name = Some kind \<longleftrightarrow> (name, kind) \<in> set plain_commands"
  by (rule map_of_eq_Some_iff) (simp add: plain_commands_def)

lemma plain_commands_moveJoint: "(name, Kind_MoveJoint) \<notin> set plain_commands" "(''move-joint'', kind) \<notin> set plain_commands"
  by (simp_all add: plain_commands_def)

lemma parseCommand_move:
  "parseCommand ''move-joint'' args =
     (case args of
        j # d # _ \<Rightarrow> and_then (parseJointIndex j) (\<lambda>jointIndex. and_then (parseDouble d) (\<lambda>targetDegrees.
          Ok \<lparr>cmd_kind = Kind_MoveJoint, cmd_jointIndex = jointIndex, cmd_targetDegrees = targetDegrees\<rparr>))
      | _ \<Rightarrow> Unexpected MissingArgument)"
  by (simp add: parseCommand_def plain_commands_def split: list.split)

lemma parseCommand_plain:
  "name \<noteq> ''move-joint'' \<Longrightarrow> parseCommand name args =
     (case map_of plain_commands name of Some kind \<Rightarrow> Ok (plain_command kind) | None \<Rightarrow> Unexpected UnknownCommand)"
  by (simp add: parseCommand_def)

lemma command_text_move:
  "command_text cmd ''move-joint'' args \<longleftrightarrow> cmd_kind cmd = Kind_MoveJoint \<and>
     (\<exists>j d ignored. args = j # d # ignored \<and> numeral_of j (unat (cmd_jointIndex cmd)) \<and>
       from_chars_double d = Ok (cmd_targetDegrees cmd, []))"
  by (cases "cmd_kind cmd") (simp_all add: command_text_def plain_commands_moveJoint)

lemma command_text_plain:
  "name \<noteq> ''move-joint'' \<Longrightarrow> command_text cmd name args \<longleftrightarrow>
     (name, cmd_kind cmd) \<in> set plain_commands \<and> cmd = plain_command (cmd_kind cmd)"
  by (cases "cmd_kind cmd") (simp_all add: command_text_def plain_commands_moveJoint)

lemma command_eq_iff:
  "cmd = \<lparr>cmd_kind = k, cmd_jointIndex = j, cmd_targetDegrees = d\<rparr> \<longleftrightarrow>
     cmd_kind cmd = k \<and> cmd_jointIndex cmd = j \<and> cmd_targetDegrees cmd = d"
  by (cases cmd) simp

lemma parseCommand_Ok: "parseCommand name args = Ok cmd \<longleftrightarrow> command_text cmd name args"
proof (cases "name = ''move-joint''")
  case True
  show ?thesis unfolding True parseCommand_move command_text_move
    by (cases args; cases "tl args")
      (auto simp: and_then_eq_Ok parseJointIndex_Ok parseDouble_Ok command_eq_iff)
next
  case False
  show ?thesis unfolding parseCommand_plain [OF False] command_text_plain [OF False]
    by (cases "map_of plain_commands name")
      (auto simp: plain_commands_map [symmetric] plain_command_def)
qed

lemma parseCommand_error:
  "parseCommand name args = Unexpected e \<Longrightarrow>
     (if name = ''move-joint'' then e = (if length args < 2 then MissingArgument else InvalidArgument)
      else e = UnknownCommand \<and> name \<notin> fst ` set plain_commands)"
  by (cases "name = ''move-joint''")
    (auto simp: parseCommand_move parseCommand_plain and_then_eq_Unexpected
      dest: parseJointIndex_error parseDouble_error split: list.splits option.splits
      simp: map_of_eq_None_iff)

section \<open>Properties\<close>

text \<open>C24. The command line is parsed as documented: the accepted argument lists are exactly
  \<open>host:port command args\<close> with a non-empty host, a decimal port of sixteen bits, and a known
  command, \<open>move-joint\<close> with a joint index below 256 and a number (further arguments are
  ignored); and a rejected list is reported by the first argument that is wrong.\<close>

theorem parseArgs_accepts_documented_grammar:
  "(parseArgs args = Ok parsed \<longleftrightarrow>
     (\<exists>hp name rest. args = hp # name # rest \<and> host_port_text (inv_host parsed) (inv_port parsed) hp \<and>
        command_text (inv_command parsed) name rest)) \<and>
   (case parseArgs args of Inr _ \<Rightarrow> True | Inl e \<Rightarrow>
     (case args of [] \<Rightarrow> e = InvalidHostPort | [_] \<Rightarrow> e = MissingCommand
      | hp # name # rest \<Rightarrow>
          if \<not> (\<exists>host port. host_port_text host port hp) then e = InvalidHostPort
          else if name = ''move-joint'' then e = (if length rest < 2 then MissingArgument else InvalidArgument)
          else e = UnknownCommand \<and> name \<notin> fst ` set plain_commands))"
proof (cases "\<exists>hp name rest. args = hp # name # rest")
  case False
  then have "length args < 2" by (cases args; cases "tl args") auto
  with False show ?thesis by (cases args; cases "tl args") (auto simp: parseArgs_def)
next
  case True
  then obtain hp name rest where args: "args = hp # name # rest" by blast
  have p: "parseArgs args = and_then (splitHostPort hp) (\<lambda>(host, port). and_then (parseCommand name rest) (\<lambda>command.
      Ok \<lparr>inv_host = host, inv_port = port, inv_command = command\<rparr>))"
    by (simp add: parseArgs_def args)
  have "parseArgs args = Ok parsed \<longleftrightarrow> host_port_text (inv_host parsed) (inv_port parsed) hp \<and>
      command_text (inv_command parsed) name rest"
    unfolding p and_then_eq_Ok
    by (cases parsed) (auto simp: and_then_eq_Ok splitHostPort_Ok [symmetric] parseCommand_Ok)
  moreover have "(\<exists>host port. host_port_text host port hp) \<longleftrightarrow> has_value (splitHostPort hp)"
    unfolding splitHostPort_Ok [symmetric] by (cases "splitHostPort hp") auto
  moreover have "parseArgs args = Unexpected e \<Longrightarrow>
      (if \<not> has_value (splitHostPort hp) then e = InvalidHostPort
       else parseCommand name rest = Unexpected e)" for e
    unfolding p and_then_eq_Unexpected
    by (cases "splitHostPort hp") (auto simp: and_then_eq_Unexpected dest: splitHostPort_error)
  ultimately show ?thesis
    using parseCommand_error [of name rest]
    by (cases "parseArgs args"; cases "name = ''move-joint''") (auto simp: args split: if_splits)
qed

end
