(* ===== verification/Controller.thy ===== *)
theory Controller
  imports Prelude
begin

text \<open>
  \<open>robot::controller\<close> (\<open>include/robot/controller/\<close>,
  \<open>src/controller/controller_state_machine.cpp\<close>): the controller's table-driven state machine.
  The two \<open>constexpr\<close> tables are lists of transitions, scanned in order.
\<close>

section \<open>Data\<close>

datatype controller_state =
    PowerOff | Booting | Initializing | Idle | ServoOff | ServoOn | Ready | Moving | Paused
  | Stopping | EmergencyStop | Fault | Recovery | Shutdown

datatype controller_event =
    PowerOn | BootComplete | InitComplete | ServoEnable | ServoDisable | ControllerReady
  | CommandMove | MotionComplete | CommandPause | CommandResume | CommandStop | StopComplete
  | EStopTriggered | EStopReset | FaultDetected | RecoveryStart | RecoveryComplete | PowerOff

datatype controller_error = InvalidTransition

record transition =
  from_state :: controller_state
  on_event :: controller_event
  to_state :: controller_state

abbreviation row :: "controller_state \<Rightarrow> controller_event \<Rightarrow> controller_state \<Rightarrow> transition" where
  "row s e t \<equiv> \<lparr>from_state = s, on_event = e, to_state = t\<rparr>"

record controller =
  ctl_state :: controller_state

section \<open>The transition tables\<close>

definition kTransitionTable :: "transition list" where
  "kTransitionTable =
    [row controller_state.PowerOff PowerOn Booting,
     row Booting BootComplete Initializing,
     row Initializing InitComplete Idle,

     row Idle ServoEnable ServoOn,
     row ServoOff ServoEnable ServoOn,
     row ServoOn ServoDisable ServoOff,
     row ServoOn ControllerReady Ready,
     row Ready ServoDisable ServoOff,

     row Ready CommandMove Moving,
     row Moving MotionComplete Ready,
     row Moving CommandPause Paused,
     row Paused CommandResume Moving,

     row Moving CommandStop Stopping,
     row Paused CommandStop Stopping,
     row Ready CommandStop Stopping,
     row Stopping StopComplete Ready,

     row ServoOn EStopTriggered EmergencyStop,
     row Ready EStopTriggered EmergencyStop,
     row Moving EStopTriggered EmergencyStop,
     row Paused EStopTriggered EmergencyStop,
     row Stopping EStopTriggered EmergencyStop,
     row EmergencyStop EStopReset Ready,

     row Fault RecoveryStart Recovery,
     row Recovery RecoveryComplete Ready,

     row Idle controller_event.PowerOff Shutdown,
     row ServoOff controller_event.PowerOff Shutdown]"

definition kFaultAndShutdownTable :: "transition list" where
  "kFaultAndShutdownTable =
    [row Idle FaultDetected Fault,
     row ServoOff FaultDetected Fault,
     row ServoOn FaultDetected Fault,
     row Ready FaultDetected Fault,
     row Moving FaultDetected Fault,
     row Paused FaultDetected Fault,
     row Stopping FaultDetected Fault,
     row EmergencyStop FaultDetected Fault,

     row Ready controller_event.PowerOff Shutdown,
     row Fault controller_event.PowerOff Shutdown]"

section \<open>Operations\<close>

definition findTransition :: "controller_state \<Rightarrow> controller_event \<Rightarrow> transition option" where
  "findTransition s e =
     (let match = (\<lambda>t. from_state t = s \<and> on_event t = e)
      in case List.find match kTransitionTable of
           Some t \<Rightarrow> Some t
         | None \<Rightarrow> List.find match kFaultAndShutdownTable)"

definition ControllerStateMachine_create :: controller where
  "ControllerStateMachine_create = \<lparr>ctl_state = controller_state.PowerOff\<rparr>"

definition canHandle :: "controller \<Rightarrow> controller_event \<Rightarrow> bool" where
  "canHandle m e \<longleftrightarrow> findTransition (ctl_state m) e \<noteq> None"

text \<open>\<open>handleEvent\<close> returns the changed machine and the result.\<close>

definition handleEvent ::
    "controller \<Rightarrow> controller_event \<Rightarrow> controller \<times> (controller_error, unit) expected" where
  "handleEvent m e =
     (case findTransition (ctl_state m) e of
        None \<Rightarrow> (m, Unexpected InvalidTransition)
      | Some t \<Rightarrow> (m\<lparr>ctl_state := to_state t\<rparr>, Ok ()))"

fun state_toString :: "controller_state \<Rightarrow> string" where
  "state_toString controller_state.PowerOff = ''PowerOff''"
| "state_toString Booting = ''Booting''"
| "state_toString Initializing = ''Initializing''"
| "state_toString Idle = ''Idle''"
| "state_toString ServoOff = ''ServoOff''"
| "state_toString ServoOn = ''ServoOn''"
| "state_toString Ready = ''Ready''"
| "state_toString Moving = ''Moving''"
| "state_toString Paused = ''Paused''"
| "state_toString Stopping = ''Stopping''"
| "state_toString EmergencyStop = ''EmergencyStop''"
| "state_toString Fault = ''Fault''"
| "state_toString Recovery = ''Recovery''"
| "state_toString Shutdown = ''Shutdown''"

fun event_toString :: "controller_event \<Rightarrow> string" where
  "event_toString PowerOn = ''PowerOn''"
| "event_toString BootComplete = ''BootComplete''"
| "event_toString InitComplete = ''InitComplete''"
| "event_toString ServoEnable = ''ServoEnable''"
| "event_toString ServoDisable = ''ServoDisable''"
| "event_toString ControllerReady = ''ControllerReady''"
| "event_toString CommandMove = ''CommandMove''"
| "event_toString MotionComplete = ''MotionComplete''"
| "event_toString CommandPause = ''CommandPause''"
| "event_toString CommandResume = ''CommandResume''"
| "event_toString CommandStop = ''CommandStop''"
| "event_toString StopComplete = ''StopComplete''"
| "event_toString EStopTriggered = ''EStopTriggered''"
| "event_toString EStopReset = ''EStopReset''"
| "event_toString FaultDetected = ''FaultDetected''"
| "event_toString RecoveryStart = ''RecoveryStart''"
| "event_toString RecoveryComplete = ''RecoveryComplete''"
| "event_toString controller_event.PowerOff = ''PowerOff''"

section \<open>The documented transitions\<close>

text \<open>
  The transitions as the comments of \<open>controller_event.hpp\<close> describe them, event by event:
  the states an event is accepted in, and the state it leads to.
\<close>

fun documented_sources :: "controller_event \<Rightarrow> controller_state list" where
  "documented_sources PowerOn = [controller_state.PowerOff]"
| "documented_sources BootComplete = [Booting]"
| "documented_sources InitComplete = [Initializing]"
| "documented_sources ServoEnable = [Idle, ServoOff]"
| "documented_sources ServoDisable = [ServoOn, Ready]"
| "documented_sources ControllerReady = [ServoOn]"
| "documented_sources CommandMove = [Ready]"
| "documented_sources MotionComplete = [Moving]"
| "documented_sources CommandPause = [Moving]"
| "documented_sources CommandResume = [Paused]"
| "documented_sources CommandStop = [Ready, Moving, Paused]"
| "documented_sources StopComplete = [Stopping]"
| "documented_sources EStopTriggered = [ServoOn, Ready, Moving, Paused, Stopping]"
| "documented_sources EStopReset = [EmergencyStop]"
| "documented_sources FaultDetected =
     [Idle, ServoOff, ServoOn, Ready, Moving, Paused, Stopping, EmergencyStop]"
| "documented_sources RecoveryStart = [Fault]"
| "documented_sources RecoveryComplete = [Recovery]"
| "documented_sources controller_event.PowerOff = [Idle, ServoOff, Ready, Fault]"

fun documented_target :: "controller_event \<Rightarrow> controller_state" where
  "documented_target PowerOn = Booting"
| "documented_target BootComplete = Initializing"
| "documented_target InitComplete = Idle"
| "documented_target ServoEnable = ServoOn"
| "documented_target ServoDisable = ServoOff"
| "documented_target ControllerReady = Ready"
| "documented_target CommandMove = Moving"
| "documented_target MotionComplete = Ready"
| "documented_target CommandPause = Paused"
| "documented_target CommandResume = Moving"
| "documented_target CommandStop = Stopping"
| "documented_target StopComplete = Ready"
| "documented_target EStopTriggered = EmergencyStop"
| "documented_target EStopReset = Ready"
| "documented_target FaultDetected = Fault"
| "documented_target RecoveryStart = Recovery"
| "documented_target RecoveryComplete = Ready"
| "documented_target controller_event.PowerOff = Shutdown"

lemma findTransition_documented:
  "findTransition s e =
     (if s \<in> set (documented_sources e) then Some (row s e (documented_target e)) else None)"
  by (cases e; cases s) (simp_all add: findTransition_def kTransitionTable_def kFaultAndShutdownTable_def)

lemma handleEvent_documented:
  "handleEvent m e =
     (if ctl_state m \<in> set (documented_sources e)
      then (m\<lparr>ctl_state := documented_target e\<rparr>, Ok ())
      else (m, Unexpected InvalidTransition))"
  by (simp add: handleEvent_def findTransition_documented)

text \<open>A run of events whose results are discarded, as the callers of the source do.\<close>

definition post_event :: "controller \<Rightarrow> controller_event \<Rightarrow> controller" where
  "post_event m e = fst (handleEvent m e)"

abbreviation post_events :: "controller \<Rightarrow> controller_event list \<Rightarrow> controller" where
  "post_events \<equiv> foldl post_event"

lemma post_event_state:
  "ctl_state (post_event m e) =
     (if ctl_state m \<in> set (documented_sources e) then documented_target e else ctl_state m)"
  by (simp add: post_event_def handleEvent_documented)

text \<open>The step relation of the machine: an accepted event.\<close>

inductive ctl_step :: "controller_state \<Rightarrow> controller_event \<Rightarrow> controller_state \<Rightarrow> bool" where
  accept: "findTransition s e = Some t \<Longrightarrow> ctl_step s e (to_state t)"

inductive_cases ctl_stepE: "ctl_step s e s'"
inductive_simps ctl_step_iff: "ctl_step s e s'"

lemma ctl_step_documented:
  "ctl_step s e s' \<longleftrightarrow> s \<in> set (documented_sources e) \<and> s' = documented_target e"
  by (auto simp: ctl_step_iff findTransition_documented split: if_splits)

section \<open>Runs of events\<close>

text \<open>
  A set of states that the events of a run cannot leave.  \<open>stays\<close> is a finite check over the
  tables; every latch below is an instance of the invariant-machine interface.
\<close>

definition all_states :: "controller_state list" where
  "all_states = [controller_state.PowerOff, Booting, Initializing, Idle, ServoOff, ServoOn, Ready,
     Moving, Paused, Stopping, EmergencyStop, Fault, Recovery, Shutdown]"

definition all_events :: "controller_event list" where
  "all_events = [PowerOn, BootComplete, InitComplete, ServoEnable, ServoDisable, ControllerReady,
     CommandMove, MotionComplete, CommandPause, CommandResume, CommandStop, StopComplete,
     EStopTriggered, EStopReset, FaultDetected, RecoveryStart, RecoveryComplete,
     controller_event.PowerOff]"

lemma all_events_complete [simp]: "e \<in> set all_events"
  by (cases e) (simp_all add: all_events_def)

lemma all_states_complete [simp]: "s \<in> set all_states"
  by (cases s) (simp_all add: all_states_def)

definition stays :: "controller_state list \<Rightarrow> controller_event list \<Rightarrow> bool" where
  "stays S forbidden \<longleftrightarrow>
     list_all (\<lambda>s. list_all (\<lambda>e. e \<in> set forbidden \<or>
       ctl_state (post_event \<lparr>ctl_state = s\<rparr> e) \<in> set S) all_events) S"

definition within :: "controller_state list \<Rightarrow> controller_event list \<Rightarrow> controller \<Rightarrow> bool" where
  "within S forbidden m \<longleftrightarrow> stays S forbidden \<and> ctl_state m \<in> set S"

lemma post_event_cong: "ctl_state m = ctl_state m' \<Longrightarrow> ctl_state (post_event m e) = ctl_state (post_event m' e)"
  by (simp add: post_event_state)

interpretation ctl_machine: invariant_machine post_event "\<lambda>e. e \<notin> set forbidden" "within S forbidden" for S forbidden
proof unfold_locales
  fix m e
  assume m: "within S forbidden m" and e: "e \<notin> set forbidden"
  have "ctl_state (post_event \<lparr>ctl_state = ctl_state m\<rparr> e) \<in> set S"
    using m e all_events_complete [of e] unfolding within_def stays_def list_all_iff
    by blast
  then show "within S forbidden (post_event m e)"
    using m post_event_cong [of m "\<lparr>ctl_state = ctl_state m\<rparr>" e] by (simp add: within_def)
qed

lemma stays_run:
  assumes "stays S forbidden" and "ctl_state m \<in> set S" and "set es \<inter> set forbidden = {}"
  shows "ctl_state (post_events m es) \<in> set S"
proof -
  have "within S forbidden (post_events m es)"
    by (rule ctl_machine.run_inv) (use assms in \<open>auto simp: within_def list_all_iff\<close>)
  then show ?thesis by (simp add: within_def)
qed

text \<open>Every run that leaves \<open>S\<close> contains one of the events that \<open>S\<close> excludes.\<close>

lemma leaving_needs:
  assumes "stays S [e]" and "ctl_state m \<in> set S" and "ctl_state (post_events m es) \<notin> set S"
  shows "e \<in> set es"
  using stays_run [of S "[e]" m es] assms by auto

lemma stays_Shutdown: "stays [Shutdown] []"
  and stays_EmergencyStop: "stays [EmergencyStop] [EStopReset, FaultDetected]"
  and stays_after_estop: "stays [EmergencyStop, Fault, Recovery, Shutdown] [EStopReset, RecoveryComplete]"
  and stays_before_PowerOn: "stays [controller_state.PowerOff] [PowerOn]"
  and stays_before_Boot: "stays [controller_state.PowerOff, Booting] [BootComplete]"
  and stays_before_Init: "stays [controller_state.PowerOff, Booting, Initializing] [InitComplete]"
  and stays_without_Move:
    "stays [controller_state.PowerOff, Booting, Initializing, Idle, ServoOff, ServoOn, Ready,
       Stopping, EmergencyStop, Fault, Recovery, Shutdown] [CommandMove]"
  and stays_without_servos:
    "stays [controller_state.PowerOff, Booting, Initializing, Idle, Fault, Recovery, Shutdown]
       [ServoEnable, RecoveryComplete]"
  by code_simp+

text \<open>A shortest bring-up route to \<open>Ready\<close>; \<open>Shutdown\<close> is the only state that has none.\<close>

fun route_to_ready :: "controller_state \<Rightarrow> controller_event list" where
  "route_to_ready controller_state.PowerOff =
     [PowerOn, BootComplete, InitComplete, ServoEnable, ControllerReady]"
| "route_to_ready Booting = [BootComplete, InitComplete, ServoEnable, ControllerReady]"
| "route_to_ready Initializing = [InitComplete, ServoEnable, ControllerReady]"
| "route_to_ready Idle = [ServoEnable, ControllerReady]"
| "route_to_ready ServoOff = [ServoEnable, ControllerReady]"
| "route_to_ready ServoOn = [ControllerReady]"
| "route_to_ready Ready = []"
| "route_to_ready Moving = [MotionComplete]"
| "route_to_ready Paused = [CommandResume, MotionComplete]"
| "route_to_ready Stopping = [StopComplete]"
| "route_to_ready EmergencyStop = [EStopReset]"
| "route_to_ready Fault = [RecoveryStart, RecoveryComplete]"
| "route_to_ready Recovery = [RecoveryComplete]"
| "route_to_ready Shutdown = []"

definition next_state :: "controller_state \<Rightarrow> controller_event \<Rightarrow> controller_state" where
  "next_state s e = (if s \<in> set (documented_sources e) then documented_target e else s)"

lemma post_events_state: "ctl_state (post_events m es) = foldl next_state (ctl_state m) es"
  by (induction es arbitrary: m) (simp_all add: post_event_state next_state_def)

lemma routes_reach_ready:
  "list_all (\<lambda>s. s = Shutdown \<or> foldl next_state s (route_to_ready s) = Ready) all_states"
  by code_simp

lemma route_reaches_ready:
  "ctl_state m \<noteq> Shutdown \<Longrightarrow> ctl_state (post_events m (route_to_ready (ctl_state m))) = Ready"
  using routes_reach_ready all_states_complete [of "ctl_state m"]
  unfolding list_all_iff post_events_state by blast

section \<open>Properties\<close>

text \<open>C11. \<open>handleEvent\<close> implements the documented transitions exactly: an event is accepted in the
  states its comment names and moves to the documented state; in every other state it returns
  \<open>InvalidTransition\<close> and changes nothing; \<open>canHandle\<close> predicts which of the two happens.\<close>

theorem handleEvent_refines_documentation:
  "handleEvent m e =
     (if ctl_state m \<in> set (documented_sources e)
      then (m\<lparr>ctl_state := documented_target e\<rparr>, Ok ())
      else (m, Unexpected InvalidTransition)) \<and>
   canHandle m e = has_value (snd (handleEvent m e))"
  by (simp add: handleEvent_documented canHandle_def findTransition_documented)

text \<open>C12. A shut-down controller ignores every event; an emergency stop is latched: without
  \<open>EStopReset\<close> and \<open>FaultDetected\<close> every run stays in \<open>EmergencyStop\<close>, and without \<open>EStopReset\<close>
  and \<open>RecoveryComplete\<close> no run leaves the stopped states for a state in which the robot moves.\<close>

theorem controller_latches:
  assumes "ctl_state m \<in> {Shutdown, EmergencyStop}"
  shows "(ctl_state m = Shutdown \<longrightarrow> post_events m es = m) \<and>
    (ctl_state m = EmergencyStop \<and> EStopReset \<notin> set es \<and> FaultDetected \<notin> set es \<longrightarrow>
       ctl_state (post_events m es) = EmergencyStop) \<and>
    (EStopReset \<notin> set es \<and> RecoveryComplete \<notin> set es \<longrightarrow>
       ctl_state (post_events m es) \<in> {EmergencyStop, Fault, Recovery, Shutdown})"
  using stays_run [OF stays_Shutdown, of m es] stays_run [OF stays_EmergencyStop, of m es]
    stays_run [OF stays_after_estop, of m es] assms
  by (auto intro: controller.equality)

theorem controller_latches_witness:
  "ctl_state (post_events \<lparr>ctl_state = EmergencyStop\<rparr>
     [CommandMove, CommandResume, ServoEnable, controller_event.PowerOff, PowerOn]) = EmergencyStop"
  using controller_latches [of "\<lparr>ctl_state = EmergencyStop\<rparr>"
     "[CommandMove, CommandResume, ServoEnable, controller_event.PowerOff, PowerOn]"]
  by simp

text \<open>C13. A freshly created controller is \<open>Moving\<close> only after the whole bring-up: the run contains
  \<open>PowerOn\<close>, \<open>BootComplete\<close>, \<open>InitComplete\<close> and \<open>CommandMove\<close>, and it contains \<open>ServoEnable\<close> or a
  completed recovery.\<close>

theorem moving_needs_bringup:
  assumes "ctl_state (post_events ControllerStateMachine_create es) = Moving"
  shows "{PowerOn, BootComplete, InitComplete, CommandMove} \<subseteq> set es \<and>
    (ServoEnable \<in> set es \<or> RecoveryComplete \<in> set es)"
proof -
  let ?m = ControllerStateMachine_create
  have m: "ctl_state ?m = controller_state.PowerOff" by (simp add: ControllerStateMachine_create_def)
  note needs = leaving_needs [where m = ?m and es = es]
  have "PowerOn \<in> set es" "BootComplete \<in> set es" "InitComplete \<in> set es" "CommandMove \<in> set es"
    using needs [OF stays_before_PowerOn] needs [OF stays_before_Boot] needs [OF stays_before_Init]
      needs [OF stays_without_Move] assms m by simp_all
  moreover have "ServoEnable \<in> set es \<or> RecoveryComplete \<in> set es"
    using stays_run [OF stays_without_servos, of ?m es] assms m by auto
  ultimately show ?thesis by simp
qed

theorem moving_needs_bringup_witness:
  "CommandMove \<in> set [PowerOn, BootComplete, InitComplete, ServoEnable, ControllerReady, CommandMove]"
  using moving_needs_bringup
    [of "[PowerOn, BootComplete, InitComplete, ServoEnable, ControllerReady, CommandMove]"]
  by (simp add: ControllerStateMachine_create_def post_event_state)

text \<open>The servos need not be enabled for the robot to move: a fault detected in \<open>Idle\<close> and its
  recovery lead to \<open>Ready\<close> directly, and \<open>CommandMove\<close> is accepted there, although the run has no
  \<open>ServoEnable\<close> event and \<open>Ready\<close> is documented as ``servos enabled''.\<close>

theorem recovery_bypasses_servo_enable:
  "map (\<lambda>n. ctl_state (post_events ControllerStateMachine_create
       (take n [PowerOn, BootComplete, InitComplete, FaultDetected, RecoveryStart,
                RecoveryComplete, CommandMove]))) [0..<8] =
   [controller_state.PowerOff, Booting, Initializing, Idle, Fault, Recovery, Ready, Moving]"
  by (simp add: upt_conv_Cons ControllerStateMachine_create_def post_event_state)

text \<open>No state but \<open>Shutdown\<close> is a dead end: at most five events lead from it to \<open>Ready\<close>.\<close>

theorem ready_is_reachable:
  "if ctl_state m = Shutdown then \<forall>es. ctl_state (post_events m es) = Shutdown
   else length (route_to_ready (ctl_state m)) \<le> 5 \<and>
     ctl_state (post_events m (route_to_ready (ctl_state m))) = Ready"
proof (cases "ctl_state m = Shutdown")
  case True
  then show ?thesis using stays_run [OF stays_Shutdown, of m] by simp
next
  case False
  moreover have "length (route_to_ready (ctl_state m)) \<le> 5" by (cases "ctl_state m") simp_all
  ultimately show ?thesis using route_reaches_ready [of m] by simp
qed

end
