(* ===== verification/Float64_Arith.thy ===== *)
theory Float64_Arith
  imports Float64
begin

text \<open>
  The facts about doubles that the component proofs use: which operations can produce a NaN,
  the comparisons as comparisons of integer keys, exactness on representable values, and the
  monotonicity of every rounded operation in its arguments.
\<close>

section \<open>Fields and classes\<close>

lemma is_nan_mk [simp]: "m < sgn_bit \<Longrightarrow> is_nan (mk_f64 s m) \<longleftrightarrow> inf_mag < m"
  by (simp add: is_nan_def)

lemma is_inf_mk [simp]: "m < sgn_bit \<Longrightarrow> is_inf (mk_f64 s m) \<longleftrightarrow> m = inf_mag"
  by (simp add: is_inf_def)

lemma is_finite_mk [simp]: "m < sgn_bit \<Longrightarrow> is_finite (mk_f64 s m) \<longleftrightarrow> m < inf_mag"
  by (simp add: is_finite_def)

lemma f64_key_mk [simp, f64_fields]:
  "m < sgn_bit \<Longrightarrow> f64_key (mk_f64 s m) = (if s then - int m else int m)"
  by (simp add: f64_key_def)

lemma quiet_nan_is_nan [simp]: "is_nan quiet_nan" "inf_mag < f64_mag quiet_nan"
proof -
  have "f64_mag quiet_nan = inf_mag + 2 ^ 51"
    unfolding quiet_nan_def by (rule mk_f64_fields) (simp add: inf_mag_def sgn_bit_def)
  then show "is_nan quiet_nan" "inf_mag < f64_mag quiet_nan" by (simp_all add: is_nan_def)
qed

lemma zero_fields [simp, f64_fields]:
  "f64_mag 0 = 0" "f64_neg 0 = False" "f64_key 0 = 0" "fsc 0 = 0" "is_finite 0" "\<not> is_nan 0"
  "\<not> is_inf 0"
  by (simp_all add: zero_f64_def fsc_def is_finite_def is_inf_def is_nan_def inf_mag_def)

lemma uminus_fields [simp, f64_fields]:
  "f64_mag (- x) = f64_mag x" "f64_neg (- x) = (\<not> f64_neg x)" "f64_key (- x) = - f64_key x"
  "fsc (- x) = - fsc x" "is_nan (- x) = is_nan x" "is_inf (- x) = is_inf x"
  "is_finite (- x) = is_finite x"
  by (simp_all add: uminus_f64_def f64_key_def fsc_def is_nan_def is_inf_def is_finite_def
      f64_mag_less)

lemma abs_fields [simp, f64_fields]:
  "f64_mag \<bar>x\<bar> = f64_mag x" "f64_neg \<bar>x\<bar> = False" "f64_key \<bar>x\<bar> = \<bar>f64_key x\<bar>"
  "fsc \<bar>x\<bar> = \<bar>fsc x\<bar>" "is_nan \<bar>x\<bar> = is_nan x" "is_finite \<bar>x\<bar> = is_finite x"
  for x :: f64
  by (simp_all add: abs_f64_def f64_key_def fsc_def is_nan_def is_inf_def is_finite_def
      f64_mag_less)

lemma finite_or_inf: "is_nan x \<or> is_inf x \<or> is_finite x"
  by (auto simp: is_nan_def is_inf_def is_finite_def)

lemma finite_not_nan [simp]: "is_finite x \<Longrightarrow> \<not> is_nan x"
  by (simp add: is_finite_def is_nan_def)

lemma finite_not_inf [simp]: "is_finite x \<Longrightarrow> \<not> is_inf x"
  by (simp add: is_finite_def is_inf_def)

lemma not_nan_mag: "\<not> is_nan x \<Longrightarrow> f64_mag x \<le> inf_mag"
  by (simp add: is_nan_def)

lemma is_finite_key: "is_finite x \<longleftrightarrow> \<bar>f64_key x\<bar> < int inf_mag"
  by (simp add: is_finite_def f64_key_def)

lemma is_nan_key: "is_nan x \<longleftrightarrow> int inf_mag < \<bar>f64_key x\<bar>"
  by (simp add: is_nan_def f64_key_def)

lemma scm_zero_iff: "m \<le> inf_mag \<Longrightarrow> scm m = 0 \<longleftrightarrow> m = 0"
  using scm_eq_iff [of m 0] by simp

section \<open>Order\<close>

lemmas f64_less_key [f64_order] = less_f64_def
lemmas f64_le_key [f64_order] = less_eq_f64_def

lemma f64_le_refl: "\<not> is_nan x \<Longrightarrow> x \<le> (x :: f64)"
  by (simp add: f64_order)

lemma f64_le_trans: "x \<le> y \<Longrightarrow> y \<le> z \<Longrightarrow> x \<le> (z :: f64)"
  by (simp add: f64_order)

lemma f64_le_not_nan: "x \<le> y \<Longrightarrow> \<not> is_nan x" "x \<le> y \<Longrightarrow> \<not> is_nan y"
  by (simp_all add: f64_order)

lemma f64_not_less: "\<not> is_nan x \<Longrightarrow> \<not> is_nan y \<Longrightarrow> \<not> x < y \<longleftrightarrow> y \<le> x" for x y :: f64
  by (simp add: f64_order linorder_not_less)

lemma f64_not_le: "\<not> is_nan x \<Longrightarrow> \<not> is_nan y \<Longrightarrow> \<not> x \<le> y \<longleftrightarrow> y < x" for x y :: f64
  by (simp add: f64_order linorder_not_le)

lemma nan_compare [simp]:
  "is_nan x \<Longrightarrow> \<not> x < y" "is_nan x \<Longrightarrow> \<not> y < x" "is_nan x \<Longrightarrow> \<not> x \<le> y"
  "is_nan x \<Longrightarrow> \<not> y \<le> x" for x y :: f64
  by (simp_all add: f64_order)

lemma finite_between: "lo \<le> x \<Longrightarrow> x \<le> hi \<Longrightarrow> is_finite lo \<Longrightarrow> is_finite hi \<Longrightarrow> is_finite (x :: f64)"
  by (auto simp: f64_order is_finite_key)

lemma fsc_le_iff:
  assumes "\<not> is_nan x" "\<not> is_nan y"
  shows "fsc x \<le> fsc y \<longleftrightarrow> f64_key x \<le> f64_key y"
proof -
  have m: "f64_mag x \<le> inf_mag" "f64_mag y \<le> inf_mag"
    using assms by (simp_all add: not_nan_mag)
  have le: "scm (f64_mag x) \<le> scm (f64_mag y) \<longleftrightarrow> f64_mag x \<le> f64_mag y"
    "scm (f64_mag y) \<le> scm (f64_mag x) \<longleftrightarrow> f64_mag y \<le> f64_mag x"
    using m by (simp_all add: scm_le_iff)
  have ng: "int a \<le> - int b \<longleftrightarrow> a = 0 \<and> b = 0" "- int a \<le> int b" for a b :: nat by auto
  show ?thesis
    using m le by (simp add: fsc_def f64_key_def ng scm_zero_iff)
qed

section \<open>Signed rounding\<close>

text \<open>The key of the double nearest to \<open>p / b\<close>.\<close>

definition rkey :: "int \<Rightarrow> nat \<Rightarrow> int" where
  "rkey p b = (if p < 0 then - int (rnd_mag (nat (- p)) b) else int (rnd_mag (nat p) b))"

lemma rkey_zero [simp]: "rkey 0 b = 0"
  by (simp add: rkey_def)

lemma rkey_uminus: "rkey (- p) b = - rkey p b"
  by (simp add: rkey_def)

lemma rkey_bound: "\<bar>rkey p b\<bar> \<le> int inf_mag"
  by (simp add: rkey_def rnd_mag_le_inf)

lemma rkey_mono:
  assumes "0 < b" "0 < b'" "p * int b' \<le> p' * int b"
  shows "rkey p b \<le> rkey p' b'"
proof -
  have nn: "rnd_mag (nat x) c \<le> rnd_mag (nat y) d"
    if "0 \<le> x" "0 \<le> y" "x * int d \<le> y * int c" "0 < c" "0 < d" for x y c d
  proof (rule rnd_mag_mono [OF that(4,5)])
    have "int (nat x * d) \<le> int (nat y * c)" using that by simp
    then show "nat x * d \<le> nat y * c" by (simp only: of_nat_le_iff)
  qed
  consider "p < 0" "p' < 0" | "p < 0" "0 \<le> p'" | "0 \<le> p" "0 \<le> p'" | "0 \<le> p" "p' < 0"
    by linarith
  then show ?thesis
  proof cases
    case 1
    then have "rnd_mag (nat (- p')) b' \<le> rnd_mag (nat (- p)) b"
      using assms by (intro nn) auto
    with 1 show ?thesis by (simp add: rkey_def)
  next
    case 2
    then show ?thesis by (simp add: rkey_def)
  next
    case 3
    then have "rnd_mag (nat p) b \<le> rnd_mag (nat p') b'"
      using assms by (intro nn) auto
    with 3 show ?thesis by (simp add: rkey_def)
  next
    case 4
    then have "p' * int b < 0" "0 \<le> p * int b'" using assms by (auto simp: mult_less_0_iff)
    with assms(3) show ?thesis by simp
  qed
qed

lemma rkey_fsc [simp]: "\<not> is_nan x \<Longrightarrow> rkey (fsc x) (Suc 0) = f64_key x"
  using not_nan_mag [of x] by (auto simp: rkey_def fsc_def f64_key_def scm_zero_iff)

section \<open>The rounded operations\<close>

lemma add_finite:
  assumes "is_finite x" "is_finite y"
  shows "f64_key (x + y) = rkey (fsc x + fsc y) (Suc 0)" and "\<not> is_nan (x + y)"
proof -
  have "x + y = (let p = fsc x + fsc y
           in if p = 0 then mk_f64 (f64_neg x \<and> f64_neg y) 0
              else mk_f64 (p < 0) (rnd_mag (nat \<bar>p\<bar>) 1))"
    using assms by (simp add: plus_f64_def)
  then show "f64_key (x + y) = rkey (fsc x + fsc y) (Suc 0)" and "\<not> is_nan (x + y)"
    by (auto simp: Let_def rkey_def rnd_mag_le_inf not_less)
qed

lemma mult_finite:
  assumes "is_finite x" "is_finite y"
  shows "f64_key (x * y) = rkey (fsc x * fsc y) unit_scale" and "\<not> is_nan (x * y)"
proof -
  have e: "x * y = mk_f64 (f64_neg x \<noteq> f64_neg y)
      (rnd_mag (scm (f64_mag x) * scm (f64_mag y)) unit_scale)"
    using assms by (simp add: times_f64_def Let_def)
  show "\<not> is_nan (x * y)" unfolding e by (simp add: rnd_mag_le_inf not_less)
  show "f64_key (x * y) = rkey (fsc x * fsc y) unit_scale"
    unfolding e
    by (auto simp: rkey_def fsc_def mult_less_0_iff zero_less_mult_iff nat_mult_distrib)
qed

lemma div_finite:
  assumes "is_finite x" "is_finite y" "f64_mag y \<noteq> 0"
  shows "f64_key (x / y) = rkey (fsc x * sgn (fsc y) * int unit_scale) (nat \<bar>fsc y\<bar>)"
    and "\<not> is_nan (x / y)"
proof -
  have e: "x / y = mk_f64 (f64_neg x \<noteq> f64_neg y)
      (rnd_mag (scm (f64_mag x) * unit_scale) (scm (f64_mag y)))"
    using assms by (simp add: divide_f64_def Let_def)
  have pos: "0 < scm (f64_mag y)"
    using assms scm_zero_iff [of "f64_mag y"] by (simp add: is_finite_def)
  show "\<not> is_nan (x / y)" unfolding e by (simp add: rnd_mag_le_inf not_less)
  show "f64_key (x / y) = rkey (fsc x * sgn (fsc y) * int unit_scale) (nat \<bar>fsc y\<bar>)"
    unfolding e using pos
    by (auto simp: rkey_def fsc_def mult_less_0_iff zero_less_mult_iff nat_mult_distrib)
qed

text \<open>Infinite operands.\<close>

lemma is_nan_add_iff:
  "is_nan (x + y) \<longleftrightarrow>
     is_nan x \<or> is_nan y \<or> (is_inf x \<and> is_inf y \<and> f64_neg x \<noteq> f64_neg y)"
proof (cases "is_finite x \<and> is_finite y")
  case True
  then show ?thesis using add_finite(2) [of x y] by simp
next
  case False
  then show ?thesis
    using finite_or_inf [of x] finite_or_inf [of y]
    by (auto simp: plus_f64_def is_nan_def is_inf_def is_finite_def)
qed

lemma is_nan_diff_iff:
  "is_nan (x - y) \<longleftrightarrow>
     is_nan x \<or> is_nan y \<or> (is_inf x \<and> is_inf y \<and> f64_neg x = f64_neg y)"
  by (simp add: minus_f64_def is_nan_add_iff)

lemma is_nan_mult_iff:
  "is_nan (x * y) \<longleftrightarrow>
     is_nan x \<or> is_nan y \<or> (is_inf x \<and> f64_mag y = 0) \<or> (is_inf y \<and> f64_mag x = 0)"
proof (cases "is_finite x \<and> is_finite y")
  case True
  then show ?thesis using mult_finite(2) [of x y] by simp
next
  case False
  have "inf_mag \<noteq> 0" by (simp add: inf_mag_def)
  with False show ?thesis
    using finite_or_inf [of x] finite_or_inf [of y]
    by (auto simp: times_f64_def Let_def is_inf_def is_finite_def is_nan_def)
qed

lemma is_nan_div_iff:
  "is_nan (x / y) \<longleftrightarrow>
     is_nan x \<or> is_nan y \<or> (is_inf x \<and> is_inf y) \<or> (f64_mag x = 0 \<and> f64_mag y = 0)"
proof (cases "is_finite x \<and> is_finite y \<and> f64_mag y \<noteq> 0")
  case True
  then show ?thesis using div_finite(2) [of x y] by simp
next
  case False
  have "inf_mag \<noteq> 0" by (simp add: inf_mag_def)
  with False show ?thesis
    using finite_or_inf [of x] finite_or_inf [of y]
    by (auto simp: divide_f64_def Let_def is_inf_def is_finite_def is_nan_def)
qed

lemma add_inf:
  assumes "is_finite x" "is_inf y"
  shows "x + y = y" "y + x = y"
  using assms by (auto simp: plus_f64_def is_inf_def is_nan_def is_finite_def)

section \<open>Exactness\<close>

lemma f64_key_eqI:
  assumes "f64_key x = f64_key y" and "f64_mag x \<noteq> 0 \<or> f64_neg x = f64_neg y"
  shows "x = y"
  using assms by (intro f64_eqI) (auto simp: f64_key_def split: if_splits)

lemma add_zero_key: "is_finite x \<Longrightarrow> f64_mag z = 0 \<Longrightarrow> f64_key (x + z) = f64_key x"
  by (subst add_finite) (simp_all add: is_finite_def fsc_def inf_mag_def rkey_fsc [unfolded fsc_def]
      is_nan_def)

lemma diff_self:
  assumes "is_finite x"
  shows "x - x = 0"
  using assms
  by (simp add: minus_f64_def plus_f64_def is_finite_def is_nan_def is_inf_def fsc_def
      zero_f64_def Let_def)

lemma mult_zero_key:
  assumes "is_finite x" "f64_mag z = 0"
  shows "f64_mag (x * z) = 0" "f64_mag (z * x) = 0"
  using assms
  by (simp_all add: times_f64_def is_finite_def is_nan_def is_inf_def inf_mag_def Let_def)

section \<open>Monotonicity of the rounded operations\<close>

lemma f64_le_finite_key: "is_finite x \<Longrightarrow> is_finite y \<Longrightarrow> x \<le> y \<longleftrightarrow> fsc x \<le> fsc y"
  by (simp add: f64_order fsc_le_iff)

lemma inf_key: "is_inf x \<Longrightarrow> f64_key x = (if f64_neg x then - int inf_mag else int inf_mag)"
  by (simp add: is_inf_def f64_key_def)

lemma key_inf_pos:
  assumes "f64_key x = int inf_mag"
  shows "is_inf x \<and> \<not> f64_neg x"
proof -
  have "0 < inf_mag" by (simp add: inf_mag_def)
  then show ?thesis using assms by (auto simp: f64_key_def is_inf_def split: if_splits)
qed

lemma add_left_mono_f64:
  assumes "is_finite x" "y \<le> y'"
  shows "x + y \<le> x + y'"
proof -
  have n: "\<not> is_nan y" "\<not> is_nan y'" using assms(2) by (auto simp: f64_order)
  have nn: "\<not> is_nan (x + y)" "\<not> is_nan (x + y')"
    using assms(1) n by (auto simp: is_nan_add_iff)
  have b: "\<bar>f64_key z\<bar> \<le> int inf_mag" if "\<not> is_nan z" for z
    using that by (simp add: is_nan_key)
  have top: "is_inf y' \<and> \<not> f64_neg y'" if "is_inf y" "\<not> f64_neg y"
  proof -
    have "f64_key y = int inf_mag" using that by (simp add: inf_key)
    then have "f64_key y' = int inf_mag" using assms(2) b [OF n(2)] by (simp add: f64_order)
    then show ?thesis by (rule key_inf_pos)
  qed
  have bot: "is_inf y \<and> f64_neg y" if "is_inf y'" "f64_neg y'"
  proof -
    have "f64_key y' = - int inf_mag" using that by (simp add: inf_key)
    then have "f64_key (- y) = int inf_mag" using assms(2) b [OF n(1)] by (simp add: f64_order)
    then show ?thesis using key_inf_pos [of "- y"] by simp
  qed
  consider "is_finite y" "is_finite y'" | "is_inf y" "f64_neg y" | "is_inf y'" "\<not> f64_neg y'"
    using finite_or_inf [of y] finite_or_inf [of y'] n top bot by blast
  then show ?thesis
  proof cases
    case 1
    then have "fsc y \<le> fsc y'" using assms(2) by (simp add: f64_le_finite_key)
    then have "rkey (fsc x + fsc y) (Suc 0) \<le> rkey (fsc x + fsc y') (Suc 0)"
      by (intro rkey_mono) simp_all
    then show ?thesis using 1 assms(1) nn by (simp add: f64_order add_finite)
  next
    case 2
    then have "f64_key (x + y) = - int inf_mag"
      using assms(1) by (simp add: add_inf f64_key_def is_inf_def)
    then show ?thesis using nn b [OF nn(2)] by (simp add: f64_order)
  next
    case 3
    then have "f64_key (x + y') = int inf_mag"
      using assms(1) by (simp add: add_inf f64_key_def is_inf_def)
    then show ?thesis using nn b [OF nn(1)] by (simp add: f64_order)
  qed
qed

lemma add_nonneg_ge: "is_finite x \<Longrightarrow> 0 \<le> y \<Longrightarrow> x \<le> x + y" for x y :: f64
  using add_left_mono_f64 [of x 0 y] add_zero_key [of x 0] add_finite(2) [of x 0]
  by (auto simp: f64_order)

lemma add_nonpos_le: "is_finite x \<Longrightarrow> y \<le> 0 \<Longrightarrow> x + y \<le> x" for x y :: f64
  using add_left_mono_f64 [of x y 0] add_zero_key [of x 0] add_finite(2) [of x 0]
  by (auto simp: f64_order)

lemma fsc_nonneg_iff: "\<not> is_nan x \<Longrightarrow> 0 \<le> fsc x \<longleftrightarrow> 0 \<le> f64_key x"
  using fsc_le_iff [of 0 x] by simp

lemma fsc_zero_iff: "\<not> is_nan x \<Longrightarrow> fsc x = 0 \<longleftrightarrow> f64_mag x = 0"
  using scm_zero_iff [of "f64_mag x"] by (auto simp: fsc_def is_nan_def)

lemma mult_left_mono_f64:
  assumes "is_finite x" "0 \<le> x" "is_finite y" "is_finite y'" "y \<le> y'"
  shows "x * y \<le> x * y'"
proof -
  have "fsc x * fsc y \<le> fsc x * fsc y'"
    using assms by (intro mult_left_mono) (simp_all add: f64_le_finite_key)
  then have "rkey (fsc x * fsc y) unit_scale \<le> rkey (fsc x * fsc y') unit_scale"
    by (intro rkey_mono) (simp_all add: mult_right_mono)
  then show ?thesis using assms by (simp add: f64_order mult_finite)
qed

lemma mult_nonneg_f64:
  assumes "is_finite x" "0 \<le> x" "is_finite y" "0 \<le> y"
  shows "0 \<le> x * y"
  using mult_left_mono_f64 [OF assms(1,2) _ assms(3), of 0] mult_zero_key(1) [OF assms(1), of 0] assms
  by (simp add: f64_order f64_key_def split: if_splits)

lemma one_fields [simp]:
  "f64_mag 1 = 1023 * 2 ^ 52" "f64_neg 1 = False" "is_finite 1" "fsc 1 = int unit_scale"
  by (simp_all add: one_f64_def f64_mag_def f64_neg_def is_finite_def inf_mag_def sgn_bit_def
      fsc_def scm_def unit_scale_def)

text \<open>Scaling by a factor of the unit interval never increases a magnitude.\<close>

lemma mult_le_self_f64:
  assumes "is_finite a" "0 \<le> a" "a \<le> 1" "is_finite x" "0 \<le> x"
  shows "a * x \<le> x"
proof -
  have "fsc a * fsc x \<le> int unit_scale * fsc x"
    using assms by (intro mult_right_mono) (simp_all add: f64_le_finite_key)
  then have "rkey (fsc a * fsc x) unit_scale \<le> rkey (fsc x) (Suc 0)"
    by (intro rkey_mono) (simp_all add: ac_simps)
  then show ?thesis using assms by (simp add: f64_order mult_finite)
qed

lemma div_right_mono_f64:
  assumes "is_finite x" "is_finite y" "x \<le> y" "is_finite d" "0 < d"
  shows "x / d \<le> y / d"
proof -
  have d: "f64_mag d \<noteq> 0" "0 < fsc d"
    using assms(4,5) fsc_zero_iff [of d] fsc_nonneg_iff [of d]
    by (auto simp: f64_order f64_key_def split: if_splits)
  have "fsc x \<le> fsc y" using assms by (simp add: f64_le_finite_key)
  then have "fsc x * int unit_scale * fsc d \<le> fsc y * int unit_scale * fsc d"
    using d by (intro mult_right_mono) simp_all
  then have "rkey (fsc x * sgn (fsc d) * int unit_scale) (nat \<bar>fsc d\<bar>)
      \<le> rkey (fsc y * sgn (fsc d) * int unit_scale) (nat \<bar>fsc d\<bar>)"
    using d by (intro rkey_mono) simp_all
  then show ?thesis using assms d by (simp add: f64_order div_finite)
qed

lemma finite_range_mult:
  assumes "is_finite x" "is_finite y"
  shows "\<not> is_nan (x * y)"
  using assms by (rule mult_finite)

section \<open>Selections: clamp, minimum, maximum\<close>

lemma std_clamp_range:
  assumes "\<not> is_nan v" "lo \<le> hi"
  shows "lo \<le> std_clamp v lo hi" "std_clamp v lo hi \<le> hi"
  using assms by (auto simp: std_clamp_def f64_order)

lemma std_clamp_nan: "is_nan v \<Longrightarrow> std_clamp v lo hi = v"
  by (simp add: std_clamp_def)

lemma std_clamp_id: "lo \<le> v \<Longrightarrow> v \<le> hi \<Longrightarrow> std_clamp v lo hi = v"
  by (auto simp: std_clamp_def f64_order)

lemma std_clamp_cases: "std_clamp v lo hi \<in> {v, lo, hi}"
  by (simp add: std_clamp_def)

lemma std_min_le: "\<not> is_nan a \<Longrightarrow> \<not> is_nan b \<Longrightarrow> std_min a b \<le> a \<and> std_min a b \<le> b"
  by (auto simp: std_min_def f64_order)

lemma std_max_ge: "\<not> is_nan a \<Longrightarrow> \<not> is_nan b \<Longrightarrow> a \<le> std_max a b \<and> b \<le> std_max a b"
  by (auto simp: std_max_def f64_order)

section \<open>Conversions of integers and durations\<close>

text \<open>Bounds for a rounded quotient come from bounds by representable values.\<close>

lemma rnd_mag_le:
  assumes "0 < b" "m \<le> inf_mag" "a \<le> scm m * b"
  shows "rnd_mag a b \<le> m"
  using rnd_mag_mono [OF assms(1), of "Suc 0" a "scm m"] assms by simp

lemma rnd_mag_ge:
  assumes "0 < b" "m \<le> inf_mag" "scm m * b \<le> a"
  shows "m \<le> rnd_mag a b"
  using rnd_mag_mono [OF _ assms(1), of "Suc 0" "scm m" a] assms by simp

text \<open>Magnitude field and value of a power of two, \<open>2 ^ (int k - 1023)\<close>.\<close>

lemma scm_pow2:
  assumes "0 < k"
  shows "scm (k * 2 ^ 52) = 2 ^ (51 + k)"
proof -
  obtain j where k: "k = Suc j" using assms by (cases k) auto
  have "scm (k * 2 ^ 52) = 2 ^ 52 * 2 ^ j" by (simp add: scm_def Let_def k)
  also have "\<dots> = 2 ^ (51 + k)" unfolding k power_add [symmetric] by simp
  finally show ?thesis .
qed

lemma f64_of_int_fields:
  "f64_neg (f64_of_int i) = (i < 0)"
  "f64_mag (f64_of_int i) = rnd_mag (nat \<bar>i\<bar> * unit_scale) (Suc 0)"
  by (simp_all add: f64_of_int_def)

lemma f64_of_int_bounds:
  assumes "\<bar>i\<bar> \<le> 2 ^ 63"
  shows "f64_mag (f64_of_int i) \<le> 1086 * 2 ^ 52"
    and "i \<noteq> 0 \<Longrightarrow> 1023 * 2 ^ 52 \<le> f64_mag (f64_of_int i)"
proof -
  have u: "unit_scale = 2 ^ 1074" by (rule unit_scale_def)
  have n: "nat \<bar>i\<bar> \<le> 2 ^ 63" using assms by (simp add: nat_le_iff)
  have "nat \<bar>i\<bar> * unit_scale \<le> 2 ^ 63 * 2 ^ 1074" unfolding u using n by (rule mult_right_mono) simp
  also have "\<dots> = scm (1086 * 2 ^ 52) * Suc 0"
    by (subst scm_pow2) (simp_all only: power_add [symmetric], simp_all)
  finally show "f64_mag (f64_of_int i) \<le> 1086 * 2 ^ 52"
    unfolding f64_of_int_fields by (intro rnd_mag_le) (simp_all add: inf_mag_def)
  assume "i \<noteq> 0"
  then have "1 * unit_scale \<le> nat \<bar>i\<bar> * unit_scale" by (intro mult_right_mono) auto
  moreover have "scm (1023 * 2 ^ 52) * Suc 0 = 1 * unit_scale"
    unfolding u by (subst scm_pow2) simp_all
  ultimately show "1023 * 2 ^ 52 \<le> f64_mag (f64_of_int i)"
    unfolding f64_of_int_fields by (intro rnd_mag_ge) (simp_all add: inf_mag_def)
qed

lemma f64_1e9_fields [simp]:
  "f64_mag f64_1e9 = 0x41CDCD6500000000" "f64_neg f64_1e9 = False" "is_finite f64_1e9"
  "\<not> is_nan f64_1e9" "\<not> is_inf f64_1e9"
  by (simp_all add: f64_1e9_def f64_mag_def f64_neg_def is_finite_def is_nan_def is_inf_def
      inf_mag_def sgn_bit_def)

lemma scm_1e9: "scm 0x41CDCD6500000000 = 1000000000 * unit_scale"
proof -
  have "scm 0x41CDCD6500000000 = (2 ^ 52 + 3885008372629504) * 2 ^ 1051"
    by (simp add: scm_def Let_def)
  also have "(2 ^ 52 + 3885008372629504 :: nat) = 1000000000 * 2 ^ 23" by simp
  also have "1000000000 * 2 ^ 23 * 2 ^ 1051 = (1000000000 * unit_scale)"
    unfolding unit_scale_def mult.assoc power_add [symmetric] by simp
  finally show ?thesis .
qed

lemma sint_bound_64: "\<bar>sint (w :: 64 word)\<bar> \<le> 2 ^ 63"
  using sint_ge [of w] sint_lt [of w] by simp

text \<open>
  A positive nanosecond count becomes a positive finite number of seconds (at least
  \<open>2 ^ -30\<close>), and a count that is not positive does not.
\<close>

lemma seconds_of_rounded:
  "seconds_of dt = mk_f64 (sint dt < 0) (rnd_mag (scm (f64_mag (f64_of_int (sint dt))) * unit_scale) (1000000000 * unit_scale))"
proof -
  have "is_finite (f64_of_int (sint dt))"
    using f64_of_int_bounds(1) [OF sint_bound_64 [of dt]] by (simp add: is_finite_def inf_mag_def)
  then show ?thesis
    unfolding seconds_of_def divide_f64_def Let_def by (simp add: f64_of_int_fields(1) scm_1e9)
qed

lemma seconds_of_finite [simp]: "is_finite (seconds_of dt)"
proof -
  let ?m = "scm (f64_mag (f64_of_int (sint dt)))"
  have m: "?m \<le> scm (1086 * 2 ^ 52)"
    using f64_of_int_bounds(1) [OF sint_bound_64 [of dt]] by (subst scm_le_iff) (simp_all add: inf_mag_def)
  have "rnd_mag (?m * unit_scale) (1000000000 * unit_scale) \<le> 1086 * 2 ^ 52"
  proof (rule rnd_mag_le)
    show "?m * unit_scale \<le> scm (1086 * 2 ^ 52) * (1000000000 * unit_scale)"
      using m by (intro mult_mono) simp_all
  qed (simp_all add: inf_mag_def)
  then show ?thesis unfolding seconds_of_rounded by (simp add: inf_mag_def)
qed

lemma seconds_of_nonpos: "sint dt \<le> 0 \<Longrightarrow> seconds_of dt \<le> 0"
  unfolding seconds_of_rounded
  by (cases "sint dt = 0") (simp_all add: f64_order f64_of_int_fields(2) not_less rnd_mag_le_inf)

lemma seconds_of_pos:
  assumes "0 < sint dt"
  shows "0 < seconds_of dt"
proof -
  let ?m = "scm (f64_mag (f64_of_int (sint dt)))"
  have "scm (1023 * 2 ^ 52) \<le> ?m"
    using f64_of_int_bounds [OF sint_bound_64 [of dt]] assms by (subst scm_le_iff) (simp_all add: inf_mag_def)
  moreover have "scm (1023 * 2 ^ 52) = unit_scale"
    unfolding unit_scale_def by (subst scm_pow2) simp_all
  ultimately have u: "unit_scale \<le> ?m" by (simp only:)
  have "scm (993 * 2 ^ 52) * 1000000000 \<le> 2 ^ 1044 * 2 ^ 30" by (subst scm_pow2) simp_all
  also have "\<dots> = unit_scale" unfolding unit_scale_def power_add [symmetric] by simp
  finally have "scm (993 * 2 ^ 52) * 1000000000 * unit_scale \<le> ?m * unit_scale"
    using u by (intro mult_right_mono) simp_all
  then have "993 * 2 ^ 52 \<le> rnd_mag (?m * unit_scale) (1000000000 * unit_scale)"
    by (intro rnd_mag_ge) (simp_all add: inf_mag_def ac_simps)
  then show ?thesis using assms unfolding seconds_of_rounded
    by (simp add: f64_order not_less rnd_mag_le_inf)
qed

lemma seconds_of_le_0_iff: "seconds_of dt \<le> 0 \<longleftrightarrow> sint dt \<le> 0"
proof
  assume le: "seconds_of dt \<le> 0"
  show "sint dt \<le> 0"
  proof (rule ccontr)
    assume "\<not> sint dt \<le> 0"
    then have "0 < seconds_of dt" by (intro seconds_of_pos) simp
    with le show False by (simp add: f64_order)
  qed
qed (rule seconds_of_nonpos)

section \<open>Signs and commutation\<close>

lemma add_commute_f64: "x + y = y + x" for x y :: f64
  by (auto simp: plus_f64_def Let_def add.commute is_inf_def intro: f64_eqI)

lemma mult_commute_f64: "x * y = y * x" for x y :: f64
  by (cases "f64_neg x"; cases "f64_neg y") (auto simp: times_f64_def Let_def ac_simps)

lemma key_nonneg_iff: "\<not> is_nan x \<Longrightarrow> 0 \<le> x \<longleftrightarrow> \<not> f64_neg x \<or> f64_mag x = 0"
  by (auto simp: f64_order f64_key_def)

lemma key_nonpos_iff: "\<not> is_nan x \<Longrightarrow> x \<le> 0 \<longleftrightarrow> f64_neg x \<or> f64_mag x = 0"
  by (auto simp: f64_order f64_key_def)

lemma mult_sign:
  assumes "\<not> is_nan (x * y)"
  shows "f64_neg (x * y) = (f64_neg x \<noteq> f64_neg y)" "f64_mag x = 0 \<or> f64_mag y = 0 \<Longrightarrow> f64_mag (x * y) = 0"
  using assms by (auto simp: times_f64_def Let_def split: if_splits)

lemma mult_nonneg_not_nan:
  assumes "\<not> is_nan (x * y)" "0 \<le> x" "0 \<le> y"
  shows "0 \<le> x * y"
  using assms mult_sign [OF assms(1)] f64_le_not_nan(2) [OF assms(2)] f64_le_not_nan(2) [OF assms(3)]
  by (auto simp: key_nonneg_iff)

lemma mult_nonpos_not_nan:
  assumes "\<not> is_nan (x * y)" "0 \<le> x" "y \<le> 0"
  shows "x * y \<le> 0" "y * x \<le> 0"
proof -
  have n: "\<not> is_nan (y * x)" using assms(1) by (auto simp: is_nan_mult_iff)
  show "x * y \<le> 0" "y * x \<le> 0"
    using assms n mult_sign [OF assms(1)] mult_sign [OF n] f64_le_not_nan(2) [OF assms(2)]
      f64_le_not_nan(1) [OF assms(3)]
    by (auto simp: key_nonneg_iff key_nonpos_iff)
qed

lemma diff_nonneg_f64:
  assumes "is_finite x" "is_finite y" "x \<le> y"
  shows "0 \<le> y - x" "x - y \<le> 0"
proof -
  have f: "fsc x \<le> fsc y" using assms by (simp add: f64_le_finite_key)
  have "rkey 0 (Suc 0) \<le> rkey (fsc y - fsc x) (Suc 0)" "rkey (fsc x - fsc y) (Suc 0) \<le> rkey 0 (Suc 0)"
    using f by (intro rkey_mono; simp)+
  then show "0 \<le> y - x" "x - y \<le> 0"
    using assms add_finite [of y "- x"] add_finite [of x "- y"]
    by (simp_all add: minus_f64_def f64_order)
qed

lemma diff_feq_zero:
  assumes "is_finite x" "is_finite y" "f64_key x = f64_key y"
  shows "f64_mag (x - y) = 0" "is_finite (x - y)"
proof -
  have f: "fsc x = fsc y"
    using assms fsc_le_iff [of x y] fsc_le_iff [of y x] by (intro antisym) simp_all
  then have "f64_key (x - y) = 0"
    using assms add_finite [of x "- y"] by (simp add: minus_f64_def)
  then show "f64_mag (x - y) = 0" "is_finite (x - y)"
    by (auto simp: f64_key_def is_finite_def inf_mag_def split: if_splits)
qed

lemma mag_zero_finite: "f64_mag x = 0 \<Longrightarrow> is_finite x"
  by (simp add: is_finite_def inf_mag_def)

lemma std_clamp_zero_mag:
  assumes "f64_mag v = 0" "0 \<le> hi"
  shows "f64_mag (std_clamp v (- hi) hi) = 0"
proof -
  have k: "f64_key v = 0" "\<not> is_nan v"
    using assms(1) by (simp_all add: f64_key_def is_nan_def)
  have "std_clamp v (- hi) hi = v"
    by (rule std_clamp_id) (use k assms(2) in \<open>simp_all add: f64_order\<close>)
  then show ?thesis using assms(1) by simp
qed

text \<open>Evaluation of classifications and comparisons of the literals.\<close>

lemmas f64_literals = f64_half_def f64_two_def f64_five_def f64_eight_def f64_180_def f64_1e9_def
  f64_pi_def f64_order is_nan_def is_finite_def f64_key_def F64_fields sgn_bit_def inf_mag_def

section \<open>Evaluation of products and quotients\<close>

text \<open>
  Rounding when the exponent of the result is known: products and quotients of normal numbers
  are evaluated on their 53-bit significands.
\<close>

lemma rnd_mag_eval:
  assumes "0 < b" and "b * 2 ^ (52 + k) \<le> a" and "a < b * 2 ^ (53 + k)"
  shows "rnd_mag a b = min (k * 2 ^ 52 + rne a (b * 2 ^ k)) inf_mag"
proof -
  have "2 ^ (52 + k) \<le> a div b"
    using assms(1,2) by (simp add: less_eq_div_iff_mult_less_eq ac_simps)
  moreover have "a div b < 2 ^ Suc (52 + k)"
    using assms(1,3) by (simp add: div_less_iff_less_mult ac_simps)
  ultimately have "nbits (a div b) = Suc (52 + k)" by (rule nbits_eqI)
  then show ?thesis by (simp add: rnd_mag_def)
qed

lemma scm_normal:
  assumes "m = Suc e * 2 ^ 52 + f" and "f < 2 ^ 52"
  shows "scm m = (2 ^ 52 + f) * 2 ^ e"
proof -
  have "m mod 2 ^ 52 = f" using assms by (simp only: mod_mult_self3 mod_less)
  moreover have "m div 2 ^ 52 = Suc e" using assms by simp
  ultimately show ?thesis by (simp add: scm_def Let_def)
qed

lemma rnd_mag_scaled:
  assumes "0 < b" and "b * 2 ^ 52 \<le> a" and "a < b * 2 ^ 53"
  shows "rnd_mag (a * 2 ^ k) b = min (k * 2 ^ 52 + rne a b) inf_mag"
proof -
  have "rnd_mag (a * 2 ^ k) b = min (k * 2 ^ 52 + rne (a * 2 ^ k) (b * 2 ^ k)) inf_mag"
    using assms by (intro rnd_mag_eval) (simp_all add: power_add)
  then show ?thesis using assms(1) by (simp add: rne_scale)
qed

lemma mult_normal_mag:
  assumes x: "f64_mag x = Suc ex * 2 ^ 52 + fx" "fx < 2 ^ 52" "is_finite x"
    and y: "f64_mag y = Suc ey * 2 ^ 52 + fy" "fy < 2 ^ 52" "is_finite y"
    and p: "2 ^ s * 2 ^ 52 \<le> (2 ^ 52 + fx) * (2 ^ 52 + fy)" "(2 ^ 52 + fx) * (2 ^ 52 + fy) < 2 ^ s * 2 ^ 53"
    and k: "ex + ey + s = k + 1074"
  shows "x * y = mk_f64 (f64_neg x \<noteq> f64_neg y)
    (min (k * 2 ^ 52 + rne ((2 ^ 52 + fx) * (2 ^ 52 + fy)) (2 ^ s)) inf_mag)"
proof -
  let ?p = "(2 ^ 52 + fx) * (2 ^ 52 + fy)"
  have "scm (f64_mag x) * scm (f64_mag y) = ?p * 2 ^ (ex + ey)"
    by (simp only: scm_normal [OF x(1,2)] scm_normal [OF y(1,2)] power_add ac_simps)
  then have "rnd_mag (scm (f64_mag x) * scm (f64_mag y)) unit_scale = rnd_mag (?p * 2 ^ (ex + ey)) (2 ^ 1074)"
    by (simp only: unit_scale_def)
  also have "\<dots> = rnd_mag (?p * 2 ^ (ex + ey) * 2 ^ s) (2 ^ 1074 * 2 ^ s)"
    by (rule rnd_mag_scale [symmetric]) simp_all
  also have "?p * 2 ^ (ex + ey) * 2 ^ s = ?p * 2 ^ k * 2 ^ 1074"
    using k by (simp only: mult.assoc flip: power_add)
  also have "2 ^ 1074 * 2 ^ s = (2 ^ s * 2 ^ 1074 :: nat)" by (rule mult.commute)
  also have "rnd_mag (?p * 2 ^ k * 2 ^ 1074) (2 ^ s * 2 ^ 1074) = rnd_mag (?p * 2 ^ k) (2 ^ s)"
    by (rule rnd_mag_scale) simp_all
  also have "\<dots> = min (k * 2 ^ 52 + rne ?p (2 ^ s)) inf_mag"
    using p by (intro rnd_mag_scaled) simp_all
  finally show ?thesis
    using x(3) y(3) unfolding times_f64_def by (simp add: Let_def)
qed

lemma div_normal_mag:
  assumes x: "f64_mag x = Suc ex * 2 ^ 52 + fx" "fx < 2 ^ 52" "is_finite x"
    and y: "f64_mag y = Suc ey * 2 ^ 52 + fy" "fy < 2 ^ 52" "is_finite y"
    and p: "(2 ^ 52 + fy) * 2 ^ 52 \<le> (2 ^ 52 + fx) * 2 ^ s" "(2 ^ 52 + fx) * 2 ^ s < (2 ^ 52 + fy) * 2 ^ 53"
    and k: "ex + 1074 = k + s + ey"
  shows "x / y = mk_f64 (f64_neg x \<noteq> f64_neg y)
    (min (k * 2 ^ 52 + rne ((2 ^ 52 + fx) * 2 ^ s) (2 ^ 52 + fy)) inf_mag)"
proof -
  have e: "2 ^ ex * 2 ^ 1074 = (2 ^ s * 2 ^ k * 2 ^ ey :: nat)"
    using k by (simp only: ac_simps flip: power_add)
  have a: "scm (f64_mag x) * unit_scale = (2 ^ 52 + fx) * 2 ^ s * 2 ^ k * 2 ^ ey"
    unfolding scm_normal [OF x(1,2)] unit_scale_def mult.assoc e ..
  have "rnd_mag (scm (f64_mag x) * unit_scale) (scm (f64_mag y)) =
      rnd_mag ((2 ^ 52 + fx) * 2 ^ s * 2 ^ k * 2 ^ ey) ((2 ^ 52 + fy) * 2 ^ ey)"
    by (simp only: a scm_normal [OF y(1,2)])
  also have "\<dots> = rnd_mag ((2 ^ 52 + fx) * 2 ^ s * 2 ^ k) (2 ^ 52 + fy)"
    by (rule rnd_mag_scale) simp_all
  also have "\<dots> = min (k * 2 ^ 52 + rne ((2 ^ 52 + fx) * 2 ^ s) (2 ^ 52 + fy)) inf_mag"
    using p by (intro rnd_mag_scaled) simp_all
  finally have r: "rnd_mag (scm (f64_mag x) * unit_scale) (scm (f64_mag y)) =
      min (k * 2 ^ 52 + rne ((2 ^ 52 + fx) * 2 ^ s) (2 ^ 52 + fy)) inf_mag" .
  have "f64_mag y \<noteq> 0" using y(1) by simp
  then show ?thesis
    using x(3) y(3) r unfolding divide_f64_def by (simp add: Let_def)
qed

lemma times_180_pi: "f64_180 * f64_pi = F64 0x4081abe4b73fefb5"
proof -
  have "f64_180 * f64_pi = mk_f64 (f64_neg f64_180 \<noteq> f64_neg f64_pi)
     (min (1031 * 2 ^ 52 + rne ((2 ^ 52 + 0x6800000000000) * (2 ^ 52 + 0x921FB54442D18)) (2 ^ 53)) inf_mag)"
    by (rule mult_normal_mag [where ex = 1029 and ey = 1023])
      (simp_all add: f64_literals)
  also have "\<dots> = F64 0x4081abe4b73fefb5"
    by (rule f64_eqI) (simp_all add: f64_literals rne_def)
  finally show ?thesis .
qed

lemma degrees_180: "f64_180 * f64_pi / f64_180 = f64_pi"
proof -
  have "F64 0x4081abe4b73fefb5 / f64_180 = mk_f64 (f64_neg (F64 0x4081abe4b73fefb5) \<noteq> f64_neg f64_180)
     (min (1023 * 2 ^ 52 + rne ((2 ^ 52 + 0x1abe4b73fefb5) * 2 ^ 53) (2 ^ 52 + 0x6800000000000)) inf_mag)"
    by (rule div_normal_mag [where ex = 1031 and ey = 1029]) (simp_all add: f64_literals)
  also have "\<dots> = f64_pi"
    by (rule f64_eqI) (simp_all add: f64_literals rne_def)
  finally show ?thesis unfolding times_180_pi .
qed

lemma times_uminus_left: "- x * y = - (x * y)" if "is_finite x" "is_finite y" for x y :: f64
  using that by (intro f64_eqI) (auto simp: times_f64_def Let_def)

lemma div_uminus_left: "- x / y = - (x / y)" if "is_finite x" "is_finite y" "f64_mag y \<noteq> 0" for x y :: f64
  using that by (intro f64_eqI) (auto simp: divide_f64_def Let_def)

lemma degrees_minus_180: "- f64_180 * f64_pi / f64_180 = - f64_pi"
proof -
  have "- f64_180 * f64_pi = - (f64_180 * f64_pi)"
    by (rule times_uminus_left) (simp_all add: f64_literals)
  moreover have "- (f64_180 * f64_pi) / f64_180 = - (f64_180 * f64_pi / f64_180)"
    by (rule div_uminus_left, unfold times_180_pi) (simp_all add: f64_literals)
  ultimately show ?thesis by (simp add: degrees_180)
qed

end
