(* ===== verification/Joint.thy ===== *)
theory Joint
  imports Float64_Arith
begin

text \<open>
  \<open>robot::core\<close>: joint limits, joint state, joints
  (\<open>include/robot/core/joint*.hpp\<close>, \<open>src/core/joint.cpp\<close>, \<open>src/core/joint_limits.cpp\<close>).
  A joint is a record of its limits, its physical state, its targets and its flags; each
  method is a function returning the changed joint.
\<close>

section \<open>Data\<close>

datatype joint_error =
    PositionOutOfRange
  | VelocityOutOfRange
  | AccelerationOutOfRange
  | JointDisabled
  | InvalidConfiguration

record joint_limits =
  min_position :: f64
  max_position :: f64
  max_velocity :: f64
  max_acceleration :: f64

record joint_state =
  position :: f64
  velocity :: f64
  acceleration :: f64
  torque :: f64

record joint =
  limits :: joint_limits
  jstate :: joint_state
  target_position :: f64
  target_velocity :: f64
  enabled :: bool
  homed :: bool
  faulted :: bool

section \<open>Operations\<close>

definition JointLimits_validate :: "joint_limits \<Rightarrow> (joint_error, unit) expected" where
  "JointLimits_validate l =
     (if max_position l \<le> min_position l then Unexpected InvalidConfiguration
      else if max_velocity l \<le> 0 then Unexpected InvalidConfiguration
      else if max_acceleration l \<le> 0 then Unexpected InvalidConfiguration
      else Ok ())"

definition kPositionGain :: f64 where
  "kPositionGain = f64_eight"

definition Joint_create :: "joint_limits \<Rightarrow> joint" where
  "Joint_create l =
     \<lparr>limits = l,
      jstate = \<lparr>position = 0, velocity = 0, acceleration = 0, torque = 0\<rparr>,
      target_position = 0, target_velocity = 0,
      enabled = False, homed = False, faulted = False\<rparr>"

definition Joint_enable :: "joint \<Rightarrow> joint" where
  "Joint_enable j = j\<lparr>enabled := True\<rparr>"

definition Joint_disable :: "joint \<Rightarrow> joint" where
  "Joint_disable j = j\<lparr>enabled := False\<rparr>"

definition Joint_home :: "joint \<Rightarrow> joint" where
  "Joint_home j =
     j\<lparr>jstate := (jstate j)\<lparr>position := 0, velocity := 0, acceleration := 0\<rparr>,
       target_position := 0, target_velocity := 0, homed := True\<rparr>"

definition Joint_setTargetPosition :: "f64 \<Rightarrow> joint \<Rightarrow> (joint_error, joint) expected" where
  "Joint_setTargetPosition p j =
     (if \<not> enabled j then Unexpected JointDisabled
      else if p < min_position (limits j) \<or> max_position (limits j) < p
        then Unexpected PositionOutOfRange
      else Ok (j\<lparr>target_position := p\<rparr>))"

definition Joint_setTargetVelocity :: "f64 \<Rightarrow> joint \<Rightarrow> (joint_error, joint) expected" where
  "Joint_setTargetVelocity v j =
     (if \<not> enabled j then Unexpected JointDisabled
      else if v < - max_velocity (limits j) \<or> max_velocity (limits j) < v
        then Unexpected VelocityOutOfRange
      else Ok (j\<lparr>target_velocity := v\<rparr>))"

definition clampToLimits :: "joint \<Rightarrow> joint" where
  "clampToLimits j =
     (let st = jstate j; l = limits j
      in if max_position l < position st
           then j\<lparr>jstate := st\<lparr>position := max_position l, velocity := std_min (velocity st) 0\<rparr>\<rparr>
         else if position st < min_position l
           then j\<lparr>jstate := st\<lparr>position := min_position l, velocity := std_max (velocity st) 0\<rparr>\<rparr>
         else j)"

definition Joint_update :: "i64 \<Rightarrow> joint \<Rightarrow> joint" where
  "Joint_update dt j =
     (if \<not> enabled j \<or> faulted j then j
      else
        let dt_s = seconds_of dt in
        if dt_s \<le> 0 then j
        else
          let l = limits j;
              st = jstate j;
              position_error = target_position j - position st;
              desired_velocity = kPositionGain * position_error;
              desired_velocity = std_clamp desired_velocity (- max_velocity l) (max_velocity l);
              max_delta_v = max_acceleration l * dt_s;
              velocity_error = desired_velocity - velocity st;
              delta_v = std_clamp velocity_error (- max_delta_v) max_delta_v;
              st = st\<lparr>acceleration := delta_v / dt_s\<rparr>;
              st = st\<lparr>velocity := velocity st + delta_v\<rparr>;
              st = st\<lparr>velocity := std_clamp (velocity st) (- max_velocity l) (max_velocity l)\<rparr>;
              st = st\<lparr>position := position st + velocity st * dt_s\<rparr>
          in clampToLimits (j\<lparr>jstate := st\<rparr>))"

section \<open>What every operation leaves alone\<close>

lemma limits_preserved [simp]:
  "limits (Joint_enable j) = limits j" "limits (Joint_disable j) = limits j"
  "limits (Joint_home j) = limits j" "limits (clampToLimits j) = limits j"
  "limits (Joint_update dt j) = limits j"
  by (simp_all add: Joint_enable_def Joint_disable_def Joint_home_def clampToLimits_def
      Joint_update_def Let_def)

lemma flags_preserved [simp]:
  "enabled (Joint_home j) = enabled j" "enabled (clampToLimits j) = enabled j"
  "enabled (Joint_update dt j) = enabled j"
  "faulted (Joint_enable j) = faulted j" "faulted (Joint_disable j) = faulted j"
  "faulted (Joint_home j) = faulted j" "faulted (clampToLimits j) = faulted j"
  "faulted (Joint_update dt j) = faulted j"
  by (simp_all add: Joint_enable_def Joint_disable_def Joint_home_def clampToLimits_def
      Joint_update_def Let_def)

lemma state_preserved [simp]:
  "jstate (Joint_enable j) = jstate j" "jstate (Joint_disable j) = jstate j"
  "target_position (Joint_enable j) = target_position j"
  "target_position (Joint_disable j) = target_position j"
  "target_position (Joint_update dt j) = target_position j"
  "target_position (clampToLimits j) = target_position j"
  by (simp_all add: Joint_enable_def Joint_disable_def clampToLimits_def Joint_update_def Let_def)

section \<open>The joint invariant\<close>

text \<open>
  Limits a validated configuration should have: accepted by \<open>validate()\<close>, all four bounds
  finite, and the rest position 0 (where joints are constructed and homed) inside the range.
\<close>

definition limits_ok :: "joint_limits \<Rightarrow> bool" where
  "limits_ok l \<longleftrightarrow>
     JointLimits_validate l = Ok () \<and>
     is_finite (min_position l) \<and> is_finite (max_position l) \<and>
     is_finite (max_velocity l) \<and> is_finite (max_acceleration l) \<and>
     min_position l \<le> 0 \<and> 0 \<le> max_position l"

text \<open>
  A joint within its limits.  The comparisons are IEEE comparisons, so the invariant also says
  that position, velocity and target are not NaN.
\<close>

definition joint_ok :: "joint \<Rightarrow> bool" where
  "joint_ok j \<longleftrightarrow>
     limits_ok (limits j) \<and>
     min_position (limits j) \<le> position (jstate j) \<and>
     position (jstate j) \<le> max_position (limits j) \<and>
     - max_velocity (limits j) \<le> velocity (jstate j) \<and>
     velocity (jstate j) \<le> max_velocity (limits j) \<and>
     min_position (limits j) \<le> target_position j \<and>
     target_position j \<le> max_position (limits j)"

lemma limits_ok_bounds:
  assumes "limits_ok l"
  shows "min_position l < max_position l" "0 < max_velocity l" "0 < max_acceleration l"
  using assms unfolding limits_ok_def JointLimits_validate_def
  by (auto simp: f64_order split: if_splits)

lemma limits_ok_finite:
  assumes "limits_ok l"
  shows "is_finite (min_position l)" "is_finite (max_position l)" "is_finite (max_velocity l)"
    "is_finite (max_acceleration l)" "min_position l \<le> 0" "0 \<le> max_position l"
  using assms by (simp_all add: limits_ok_def)

lemma joint_okD:
  assumes "joint_ok j"
  shows "limits_ok (limits j)"
    "min_position (limits j) \<le> position (jstate j)" "position (jstate j) \<le> max_position (limits j)"
    "- max_velocity (limits j) \<le> velocity (jstate j)" "velocity (jstate j) \<le> max_velocity (limits j)"
    "min_position (limits j) \<le> target_position j" "target_position j \<le> max_position (limits j)"
  using assms by (simp_all add: joint_ok_def)

lemma joint_ok_finite:
  assumes "joint_ok j"
  shows "is_finite (position (jstate j))" "is_finite (velocity (jstate j))"
    "is_finite (target_position j)"
proof -
  note l = limits_ok_finite [OF joint_okD(1) [OF assms]]
  show "is_finite (position (jstate j))"
    by (rule finite_between [OF joint_okD(2,3) [OF assms] l(1,2)])
  show "is_finite (velocity (jstate j))"
    by (rule finite_between [OF joint_okD(4,5) [OF assms]]) (simp_all add: l)
  show "is_finite (target_position j)"
    by (rule finite_between [OF joint_okD(6,7) [OF assms] l(1,2)])
qed

section \<open>One control step\<close>

text \<open>The intermediate quantities of \<open>Joint::update\<close>, named for the lemmas.\<close>

definition desired_velocity :: "joint \<Rightarrow> f64" where
  "desired_velocity j =
     std_clamp (kPositionGain * (target_position j - position (jstate j)))
       (- max_velocity (limits j)) (max_velocity (limits j))"

definition delta_velocity :: "i64 \<Rightarrow> joint \<Rightarrow> f64" where
  "delta_velocity dt j =
     std_clamp (desired_velocity j - velocity (jstate j))
       (- (max_acceleration (limits j) * seconds_of dt)) (max_acceleration (limits j) * seconds_of dt)"

definition next_velocity :: "i64 \<Rightarrow> joint \<Rightarrow> f64" where
  "next_velocity dt j =
     std_clamp (velocity (jstate j) + delta_velocity dt j)
       (- max_velocity (limits j)) (max_velocity (limits j))"

definition next_position :: "i64 \<Rightarrow> joint \<Rightarrow> f64" where
  "next_position dt j = position (jstate j) + next_velocity dt j * seconds_of dt"

lemma Joint_update_idle:
  "\<not> enabled j \<or> faulted j \<or> sint dt \<le> 0 \<Longrightarrow> Joint_update dt j = j"
  by (auto simp: Joint_update_def seconds_of_le_0_iff Let_def)

lemma Joint_update_active:
  assumes "enabled j" "\<not> faulted j" "0 < sint dt"
  shows "Joint_update dt j =
    clampToLimits (j\<lparr>jstate := (jstate j)\<lparr>acceleration := delta_velocity dt j / seconds_of dt,
      velocity := next_velocity dt j, position := next_position dt j\<rparr>\<rparr>)"
  using assms
  by (simp add: Joint_update_def Let_def next_position_def next_velocity_def
      delta_velocity_def desired_velocity_def seconds_of_le_0_iff)

lemma kPositionGain_fields [simp]:
  "is_finite kPositionGain" "0 \<le> kPositionGain" "f64_mag kPositionGain \<noteq> 0"
  by (simp_all add: kPositionGain_def f64_eight_def is_finite_def sgn_bit_def
      inf_mag_def f64_order is_nan_def f64_key_def F64_fields)

lemma desired_velocity_range:
  assumes "joint_ok j"
  shows "- max_velocity (limits j) \<le> desired_velocity j" "desired_velocity j \<le> max_velocity (limits j)"
    "is_finite (desired_velocity j)"
proof -
  note ok = joint_okD [OF assms] and fin = joint_ok_finite [OF assms]
  note lf = limits_ok_finite [OF ok(1)] and lb = limits_ok_bounds [OF ok(1)]
  have e: "\<not> is_nan (target_position j - position (jstate j))"
    using fin by (simp add: is_nan_diff_iff)
  have "\<not> is_nan (kPositionGain * (target_position j - position (jstate j)))"
    using e by (simp add: is_nan_mult_iff)
  moreover have "- max_velocity (limits j) \<le> max_velocity (limits j)"
    using lb by (simp add: f64_order)
  ultimately show r: "- max_velocity (limits j) \<le> desired_velocity j"
    "desired_velocity j \<le> max_velocity (limits j)"
    unfolding desired_velocity_def by (rule std_clamp_range)+
  show "is_finite (desired_velocity j)"
    using r by (rule finite_between) (simp_all add: lf)
qed

lemma max_delta_nonneg:
  assumes "limits_ok l" "0 < sint dt"
  shows "0 \<le> max_acceleration l * seconds_of dt"
proof -
  have "0 < seconds_of dt" using assms(2) by (rule seconds_of_pos)
  then show ?thesis
    using limits_ok_finite(4) [OF assms(1)] limits_ok_bounds(3) [OF assms(1)]
    by (intro mult_nonneg_f64) (auto simp: f64_order)
qed

lemma delta_velocity_range:
  assumes "joint_ok j" "0 < sint dt"
  shows "- (max_acceleration (limits j) * seconds_of dt) \<le> delta_velocity dt j"
    "delta_velocity dt j \<le> max_acceleration (limits j) * seconds_of dt"
proof -
  note ok = joint_okD [OF assms(1)] and fin = joint_ok_finite [OF assms(1)]
  have "\<not> is_nan (desired_velocity j - velocity (jstate j))"
    using desired_velocity_range(3) [OF assms(1)] fin by (simp add: is_nan_diff_iff)
  moreover have "- (max_acceleration (limits j) * seconds_of dt)
      \<le> max_acceleration (limits j) * seconds_of dt"
    using max_delta_nonneg [OF ok(1) assms(2)] by (simp add: f64_order)
  ultimately show "- (max_acceleration (limits j) * seconds_of dt) \<le> delta_velocity dt j"
    "delta_velocity dt j \<le> max_acceleration (limits j) * seconds_of dt"
    unfolding delta_velocity_def by (rule std_clamp_range)+
qed

lemma next_velocity_range:
  assumes "joint_ok j" "0 < sint dt"
  shows "- max_velocity (limits j) \<le> next_velocity dt j" "next_velocity dt j \<le> max_velocity (limits j)"
    "is_finite (next_velocity dt j)"
proof -
  note ok = joint_okD [OF assms(1)] and fin = joint_ok_finite [OF assms(1)]
  note lf = limits_ok_finite [OF ok(1)] and lb = limits_ok_bounds [OF ok(1)]
  have "\<not> is_nan (velocity (jstate j) + delta_velocity dt j)"
    using fin f64_le_not_nan(2) [OF delta_velocity_range(1) [OF assms]]
    by (simp add: is_nan_add_iff)
  moreover have "- max_velocity (limits j) \<le> max_velocity (limits j)"
    using lb by (simp add: f64_order)
  ultimately show r: "- max_velocity (limits j) \<le> next_velocity dt j"
    "next_velocity dt j \<le> max_velocity (limits j)"
    unfolding next_velocity_def by (rule std_clamp_range)+
  show "is_finite (next_velocity dt j)"
    using r by (rule finite_between) (simp_all add: lf)
qed

lemma next_position_not_nan:
  assumes "joint_ok j" "0 < sint dt"
  shows "\<not> is_nan (next_position dt j)"
  using joint_ok_finite(1) [OF assms(1)] next_velocity_range(3) [OF assms]
  by (simp add: next_position_def is_nan_add_iff finite_range_mult)

text \<open>The hard stop: a position that is not NaN ends inside the limits.\<close>

lemma clampToLimits_position:
  assumes "limits_ok (limits j)" "\<not> is_nan (position (jstate j))"
  shows "min_position (limits j) \<le> position (jstate (clampToLimits j))"
    "position (jstate (clampToLimits j)) \<le> max_position (limits j)"
  using assms(2) limits_ok_bounds(1) [OF assms(1)]
  by (auto simp: clampToLimits_def Let_def f64_order)

lemma clampToLimits_velocity:
  assumes "limits_ok (limits j)" "- max_velocity (limits j) \<le> velocity (jstate j)"
    "velocity (jstate j) \<le> max_velocity (limits j)"
  shows "- max_velocity (limits j) \<le> velocity (jstate (clampToLimits j))"
    "velocity (jstate (clampToLimits j)) \<le> max_velocity (limits j)"
  using assms(2,3) limits_ok_bounds(2) [OF assms(1)]
  by (auto simp: clampToLimits_def Let_def f64_order std_min_def std_max_def)

lemma joint_ok_update: "joint_ok j \<Longrightarrow> joint_ok (Joint_update dt j)"
proof (cases "enabled j \<and> \<not> faulted j \<and> 0 < sint dt")
  case False
  assume "joint_ok j"
  then show ?thesis using False Joint_update_idle [of j dt] by (auto simp: not_less)
next
  case True
  assume ok: "joint_ok j"
  define k where "k = j\<lparr>jstate := (jstate j)\<lparr>acceleration := delta_velocity dt j / seconds_of dt,
      velocity := next_velocity dt j, position := next_position dt j\<rparr>\<rparr>"
  have u: "Joint_update dt j = clampToLimits k"
    using True unfolding k_def by (intro Joint_update_active) auto
  have k: "limits k = limits j" "position (jstate k) = next_position dt j"
    "velocity (jstate k) = next_velocity dt j" "target_position k = target_position j"
    by (simp_all add: k_def)
  note okd = joint_okD [OF ok]
  have l: "limits_ok (limits k)" using okd(1) by (simp add: k)
  have p: "\<not> is_nan (position (jstate k))"
    using ok True by (simp add: k next_position_not_nan)
  have v: "- max_velocity (limits k) \<le> velocity (jstate k)" "velocity (jstate k) \<le> max_velocity (limits k)"
    using next_velocity_range [OF ok] True by (simp_all add: k)
  show ?thesis
    unfolding u joint_ok_def
    using clampToLimits_position [OF l p] clampToLimits_velocity [OF l v] l okd by (simp add: k)
qed

section \<open>Approach, rest and acceleration\<close>

lemma next_velocity_nonneg:
  assumes "joint_ok j" "0 < sint dt"
    and "position (jstate j) \<le> target_position j" "0 \<le> velocity (jstate j)"
  shows "0 \<le> next_velocity dt j"
proof -
  note ok = joint_okD [OF assms(1)] and fin = joint_ok_finite [OF assms(1)]
  let ?v = "velocity (jstate j)" and ?d = "desired_velocity j" and ?e = "delta_velocity dt j"
  have err: "0 \<le> target_position j - position (jstate j)"
    using fin assms(3) by (simp add: diff_nonneg_f64)
  have "\<not> is_nan (kPositionGain * (target_position j - position (jstate j)))"
    using f64_le_not_nan(2) [OF err] by (simp add: is_nan_mult_iff)
  then have g: "0 \<le> kPositionGain * (target_position j - position (jstate j))"
    using err by (intro mult_nonneg_not_nan) simp_all
  have d: "0 \<le> ?d"
    using g limits_ok_bounds(2) [OF ok(1)]
    by (auto simp: desired_velocity_def std_clamp_def f64_order)
  have "- ?v \<le> - ?v + ?d" using fin(2) d by (intro add_nonneg_ge) simp_all
  then have ve: "- ?v \<le> ?d - ?v" by (simp add: minus_f64_def add_commute_f64)
  then have "- ?v \<le> ?e"
    using assms(4) max_delta_nonneg [OF ok(1) assms(2)]
    by (auto simp: delta_velocity_def std_clamp_def f64_order)
  then have "?v + - ?v \<le> ?v + ?e" using fin(2) by (intro add_left_mono_f64)
  then have "0 \<le> ?v + ?e" using fin(2) by (simp add: minus_f64_def [symmetric] diff_self)
  then show ?thesis
    using limits_ok_bounds(2) [OF ok(1)]
    by (auto simp: next_velocity_def std_clamp_def f64_order)
qed

lemma next_velocity_nonpos:
  assumes "joint_ok j" "0 < sint dt"
    and "target_position j \<le> position (jstate j)" "velocity (jstate j) \<le> 0"
  shows "next_velocity dt j \<le> 0"
proof -
  note ok = joint_okD [OF assms(1)] and fin = joint_ok_finite [OF assms(1)]
  let ?v = "velocity (jstate j)" and ?d = "desired_velocity j" and ?e = "delta_velocity dt j"
  have err: "target_position j - position (jstate j) \<le> 0"
    using fin assms(3) by (simp add: diff_nonneg_f64)
  have "\<not> is_nan (kPositionGain * (target_position j - position (jstate j)))"
    using f64_le_not_nan(1) [OF err] by (simp add: is_nan_mult_iff)
  then have g: "kPositionGain * (target_position j - position (jstate j)) \<le> 0"
    using err by (intro mult_nonpos_not_nan) simp_all
  have d: "?d \<le> 0"
    using g limits_ok_bounds(2) [OF ok(1)]
    by (auto simp: desired_velocity_def std_clamp_def f64_order)
  have "- ?v + ?d \<le> - ?v" using fin(2) d by (intro add_nonpos_le) simp_all
  then have ve: "?d - ?v \<le> - ?v" by (simp add: minus_f64_def add_commute_f64)
  then have "?e \<le> - ?v"
    using assms(4) max_delta_nonneg [OF ok(1) assms(2)]
    by (auto simp: delta_velocity_def std_clamp_def f64_order)
  then have "?v + ?e \<le> ?v + - ?v" using fin(2) by (intro add_left_mono_f64)
  then have "?v + ?e \<le> 0" using fin(2) by (simp add: minus_f64_def [symmetric] diff_self)
  then show ?thesis
    using limits_ok_bounds(2) [OF ok(1)]
    by (auto simp: next_velocity_def std_clamp_def f64_order)
qed

lemma next_position_ge:
  assumes "joint_ok j" "0 < sint dt" "0 \<le> next_velocity dt j"
  shows "position (jstate j) \<le> next_position dt j"
proof -
  have "0 < seconds_of dt" using assms(2) by (rule seconds_of_pos)
  then have "0 \<le> next_velocity dt j * seconds_of dt"
    using next_velocity_range(3) [OF assms(1,2)] assms(3)
    by (intro mult_nonneg_f64) (auto simp: f64_order)
  then show ?thesis
    unfolding next_position_def using joint_ok_finite(1) [OF assms(1)] by (rule add_nonneg_ge [rotated])
qed

lemma next_position_le:
  assumes "joint_ok j" "0 < sint dt" "next_velocity dt j \<le> 0"
  shows "next_position dt j \<le> position (jstate j)"
proof -
  have "0 < seconds_of dt" using assms(2) by (rule seconds_of_pos)
  then have "next_velocity dt j * seconds_of dt \<le> 0"
    using next_velocity_range(3) [OF assms(1,2)] assms(3)
    by (intro mult_nonpos_not_nan) (auto simp: f64_order is_nan_mult_iff)
  then show ?thesis
    unfolding next_position_def using joint_ok_finite(1) [OF assms(1)] by (rule add_nonpos_le [rotated])
qed

lemma next_velocity_rate:
  assumes "joint_ok j" "0 < sint dt"
  defines "md \<equiv> max_acceleration (limits j) * seconds_of dt"
  shows "velocity (jstate j) - md \<le> next_velocity dt j" "next_velocity dt j \<le> velocity (jstate j) + md"
proof -
  note ok = joint_okD [OF assms(1)] and fin = joint_ok_finite [OF assms(1)]
  let ?v = "velocity (jstate j)" and ?e = "delta_velocity dt j"
  have md: "0 \<le> md" unfolding md_def by (rule max_delta_nonneg [OF ok(1) assms(2)])
  then have "- md \<le> 0" by (simp add: f64_order)
  then have v: "?v + - md \<le> ?v" "?v \<le> ?v + md"
    using fin(2) md add_nonpos_le add_nonneg_ge by blast+
  have e: "- md \<le> ?e" "?e \<le> md"
    unfolding md_def by (rule delta_velocity_range [OF assms(1,2)])+
  have s: "?v + - md \<le> ?v + ?e" "?v + ?e \<le> ?v + md"
    using fin(2) e by (auto intro: add_left_mono_f64)
  have n: "\<not> is_nan (?v + - md)" "\<not> is_nan (?v + md)" "\<not> is_nan (?v + ?e)"
    using v s f64_le_not_nan by blast+
  show "?v - md \<le> next_velocity dt j" "next_velocity dt j \<le> ?v + md"
    using v s ok(4,5) n limits_ok_bounds(2) [OF ok(1)]
    unfolding next_velocity_def minus_f64_def
    by (auto simp: std_clamp_def f64_order)
qed

lemma rest_at_target:
  assumes "joint_ok j" "0 < sint dt"
    and "f64_key (target_position j) = f64_key (position (jstate j))" "f64_mag (velocity (jstate j)) = 0"
  shows "f64_mag (next_velocity dt j) = 0" "f64_key (next_position dt j) = f64_key (position (jstate j))"
proof -
  note ok = joint_okD [OF assms(1)] and fin = joint_ok_finite [OF assms(1)]
  let ?v = "velocity (jstate j)" and ?d = "desired_velocity j" and ?e = "delta_velocity dt j"
  have mv: "0 \<le> max_velocity (limits j)" using limits_ok_bounds(2) [OF ok(1)] by (simp add: f64_order)
  have "f64_mag (kPositionGain * (target_position j - position (jstate j))) = 0"
    using fin assms(3) by (intro mult_zero_key diff_feq_zero) simp_all
  then have d: "f64_mag ?d = 0"
    unfolding desired_velocity_def using mv by (rule std_clamp_zero_mag)
  have "f64_mag (?d - ?v) = 0"
    using d assms(4) mag_zero_finite by (intro diff_feq_zero(1)) (simp_all add: f64_key_def)
  then have e: "f64_mag ?e = 0"
    unfolding delta_velocity_def by (rule std_clamp_zero_mag) (rule max_delta_nonneg [OF ok(1) assms(2)])
  have "f64_key (?v + ?e) = 0"
    using add_zero_key [OF fin(2) e] assms(4) by (simp add: f64_key_def)
  then have "f64_mag (?v + ?e) = 0" by (simp add: f64_key_def split: if_splits)
  then show v: "f64_mag (next_velocity dt j) = 0"
    unfolding next_velocity_def using mv by (rule std_clamp_zero_mag)
  then have "f64_mag (next_velocity dt j * seconds_of dt) = 0"
    by (intro mult_zero_key(2)) simp_all
  then show "f64_key (next_position dt j) = f64_key (position (jstate j))"
    unfolding next_position_def using fin(1) by (intro add_zero_key)
qed

text \<open>An update of an active joint, as seen through the hard stop.\<close>

lemma clamped_forward:
  assumes "joint_ok j" "0 < sint dt"
    and "position (jstate j) \<le> target_position j" "0 \<le> velocity (jstate j)"
  defines "k \<equiv> j\<lparr>jstate := (jstate j)\<lparr>acceleration := delta_velocity dt j / seconds_of dt,
      velocity := next_velocity dt j, position := next_position dt j\<rparr>\<rparr>"
  shows "position (jstate j) \<le> position (jstate (clampToLimits k)) \<and>
    0 \<le> velocity (jstate (clampToLimits k))"
  using next_velocity_nonneg [OF assms(1-4)]
    next_position_ge [OF assms(1,2) next_velocity_nonneg [OF assms(1-4)]] joint_okD(2,3) [OF assms(1)]
  by (auto simp: k_def clampToLimits_def Let_def std_min_def std_max_def f64_order)

lemma clamped_backward:
  assumes "joint_ok j" "0 < sint dt"
    and "target_position j \<le> position (jstate j)" "velocity (jstate j) \<le> 0"
  defines "k \<equiv> j\<lparr>jstate := (jstate j)\<lparr>acceleration := delta_velocity dt j / seconds_of dt,
      velocity := next_velocity dt j, position := next_position dt j\<rparr>\<rparr>"
  shows "position (jstate (clampToLimits k)) \<le> position (jstate j) \<and>
    velocity (jstate (clampToLimits k)) \<le> 0"
  using next_velocity_nonpos [OF assms(1-4)]
    next_position_le [OF assms(1,2) next_velocity_nonpos [OF assms(1-4)]] joint_okD(2,3) [OF assms(1)]
  by (auto simp: k_def clampToLimits_def Let_def std_min_def std_max_def f64_order)

section \<open>Runs of calls\<close>

text \<open>
  The calls an owner can make.  A failing setter returns its error and leaves the joint
  unchanged, so the caller's joint is the old one.
\<close>

datatype joint_call =
    Call_enable | Call_disable | Call_home | Call_setTargetPosition f64
  | Call_setTargetVelocity f64 | Call_update i64

fun joint_step :: "joint \<Rightarrow> joint_call \<Rightarrow> joint" where
  "joint_step j Call_enable = Joint_enable j"
| "joint_step j Call_disable = Joint_disable j"
| "joint_step j Call_home = Joint_home j"
| "joint_step j (Call_setTargetPosition p) =
     (case Joint_setTargetPosition p j of Inl e \<Rightarrow> j | Inr j' \<Rightarrow> j')"
| "joint_step j (Call_setTargetVelocity v) =
     (case Joint_setTargetVelocity v j of Inl e \<Rightarrow> j | Inr j' \<Rightarrow> j')"
| "joint_step j (Call_update dt) = Joint_update dt j"

fun target_not_nan :: "joint_call \<Rightarrow> bool" where
  "target_not_nan (Call_setTargetPosition p) = (\<not> is_nan p)"
| "target_not_nan _ = True"

lemma joint_ok_enable [simp]: "joint_ok (Joint_enable j) = joint_ok j"
  by (simp add: joint_ok_def)

lemma joint_ok_disable [simp]: "joint_ok (Joint_disable j) = joint_ok j"
  by (simp add: joint_ok_def)

lemma joint_ok_home: "limits_ok (limits j) \<Longrightarrow> joint_ok (Joint_home j)"
  using limits_ok_bounds(2) [of "limits j"] limits_ok_finite(5,6) [of "limits j"]
  by (simp add: joint_ok_def Joint_home_def f64_order)

lemma joint_ok_create: "limits_ok l \<Longrightarrow> joint_ok (Joint_create l)"
  using limits_ok_bounds(2) [of l] limits_ok_finite(5,6) [of l]
  by (simp add: joint_ok_def Joint_create_def f64_order)

lemma setTargetPosition_cases:
  "(\<not> enabled j \<and> Joint_setTargetPosition p j = Unexpected JointDisabled) \<or>
   (enabled j \<and> (p < min_position (limits j) \<or> max_position (limits j) < p) \<and>
     Joint_setTargetPosition p j = Unexpected PositionOutOfRange) \<or>
   (enabled j \<and> \<not> (p < min_position (limits j) \<or> max_position (limits j) < p) \<and>
     Joint_setTargetPosition p j = Ok (j\<lparr>target_position := p\<rparr>))"
  by (auto simp: Joint_setTargetPosition_def)

lemma joint_ok_setTargetPosition:
  assumes "joint_ok j" "\<not> is_nan p" "Joint_setTargetPosition p j = Ok j'"
  shows "joint_ok j'"
  using assms limits_ok_finite(1,2) [OF joint_okD(1) [OF assms(1)]]
  by (auto simp: Joint_setTargetPosition_def joint_ok_def f64_order split: if_splits)

lemma joint_step_ok: "joint_ok j \<Longrightarrow> target_not_nan c \<Longrightarrow> joint_ok (joint_step j c)"
proof (cases c)
  case Call_home
  assume "joint_ok j"
  then show ?thesis using Call_home by (simp add: joint_ok_home joint_okD)
next
  case (Call_setTargetPosition p)
  assume "joint_ok j" "target_not_nan c"
  then show ?thesis
    using Call_setTargetPosition by (auto split: sum.split intro: joint_ok_setTargetPosition)
next
  case (Call_setTargetVelocity v)
  assume "joint_ok j"
  then show ?thesis
    using Call_setTargetVelocity
    by (auto simp: Joint_setTargetVelocity_def joint_ok_def split: sum.splits if_splits)
qed (simp_all add: joint_ok_update)

interpretation joint_machine: invariant_machine joint_step target_not_nan joint_ok
  by unfold_locales (rule joint_step_ok)

section \<open>Properties\<close>

text \<open>C1. A joint constructed from valid finite limits whose range contains zero, where every joint starts,
  stays within its position and velocity limits (and free of NaN) after every sequence of calls
  whose requested target positions are not NaN, for every time step.\<close>

theorem joint_run_within_limits:
  assumes "limits_ok l" and "list_all target_not_nan cs"
  shows "joint_ok (foldl joint_step (Joint_create l) cs)"
  using joint_ok_create [OF assms(1)] assms(2) by (rule joint_machine.run_inv)

text \<open>Concrete limits for the witnesses: one radian either way, 2 rad/s, 5 rad/s/s.\<close>

definition unit_limits :: joint_limits where
  "unit_limits = \<lparr>min_position = F64 0xBFF0000000000000, max_position = F64 0x3FF0000000000000,
     max_velocity = f64_two, max_acceleration = f64_five\<rparr>"

lemma unit_limits_ok: "limits_ok unit_limits"
  by (simp add: limits_ok_def JointLimits_validate_def unit_limits_def f64_two_def f64_five_def
      f64_order is_nan_def is_finite_def f64_key_def F64_fields sgn_bit_def inf_mag_def)

theorem joint_run_within_limits_witness:
  "joint_ok (foldl joint_step (Joint_create unit_limits)
     [Call_enable, Call_setTargetPosition f64_half, Call_update 1000000, Call_update 1000000])"
  by (rule joint_run_within_limits [OF unit_limits_ok])
    (simp add: is_nan_def f64_half_def F64_fields sgn_bit_def inf_mag_def)

text \<open>On its way to the target a joint does not turn back: moving towards (or at rest below) a
  target at or above the position, the position does not decrease and the velocity does not
  turn negative; symmetrically from above.\<close>

theorem update_approaches_target:
  assumes "joint_ok j"
  shows "(position (jstate j) \<le> target_position j \<and> 0 \<le> velocity (jstate j) \<longrightarrow>
      position (jstate j) \<le> position (jstate (Joint_update dt j)) \<and>
      0 \<le> velocity (jstate (Joint_update dt j))) \<and>
    (target_position j \<le> position (jstate j) \<and> velocity (jstate j) \<le> 0 \<longrightarrow>
      position (jstate (Joint_update dt j)) \<le> position (jstate j) \<and>
      velocity (jstate (Joint_update dt j)) \<le> 0)"
proof (cases "enabled j \<and> \<not> faulted j \<and> 0 < sint dt")
  case False
  then have "Joint_update dt j = j" by (intro Joint_update_idle) auto
  then show ?thesis using joint_ok_finite(1) [OF assms] by (auto simp: f64_le_refl)
next
  case True
  then have dt: "0 < sint dt" by simp
  show ?thesis
    unfolding Joint_update_active [OF True [THEN conjunct1] conjunct1 [OF conjunct2 [OF True]] dt]
    using clamped_forward [OF assms dt] clamped_backward [OF assms dt] by blast
qed

theorem update_approaches_target_witness:
  "(0 :: f64) \<le> position (jstate (Joint_update 1000000
     (Joint_create unit_limits\<lparr>enabled := True, target_position := f64_half\<rparr>)))"
proof -
  let ?j = "Joint_create unit_limits\<lparr>enabled := True, target_position := f64_half\<rparr>"
  have "joint_ok ?j"
    using unit_limits_ok
    by (simp add: joint_ok_def Joint_create_def f64_half_def unit_limits_def f64_two_def
        f64_order is_nan_def f64_key_def F64_fields sgn_bit_def inf_mag_def)
  moreover have "(0 :: f64) \<le> f64_half"
    by (simp add: f64_half_def f64_order is_nan_def f64_key_def F64_fields sgn_bit_def inf_mag_def)
  ultimately show ?thesis
    using update_approaches_target [of ?j 1000000] by (simp add: Joint_create_def f64_le_refl)
qed

text \<open>C8. An update of an enabled joint without a fault whose result stays between the hard stops changes the
  velocity by at most the acceleration limit times the time step (both sides rounded), and the
  position by exactly the new velocity times the time step (in doubles); neither is altered by the
  hard stops.\<close>

theorem update_rate_limited:
  assumes "joint_ok j" "enabled j" "\<not> faulted j" "0 < sint dt"
    and "min_position (limits j) \<le> next_position dt j" "next_position dt j \<le> max_position (limits j)"
  shows "velocity (jstate j) - max_acceleration (limits j) * seconds_of dt
      \<le> velocity (jstate (Joint_update dt j)) \<and>
    velocity (jstate (Joint_update dt j))
      \<le> velocity (jstate j) + max_acceleration (limits j) * seconds_of dt \<and>
    position (jstate (Joint_update dt j)) =
      position (jstate j) + velocity (jstate (Joint_update dt j)) * seconds_of dt"
proof -
  have "velocity (jstate (Joint_update dt j)) = next_velocity dt j"
    "position (jstate (Joint_update dt j)) = next_position dt j"
    using assms(2-6) by (simp_all add: Joint_update_active clampToLimits_def Let_def f64_order)
  then show ?thesis using next_velocity_rate [OF assms(1,4)] by (simp add: next_position_def)
qed

theorem update_rate_limited_witness:
  "velocity (jstate (Joint_update 1000000 (Joint_create unit_limits\<lparr>enabled := True\<rparr>)))
     \<le> 0 + f64_five * seconds_of 1000000"
proof -
  let ?j = "Joint_create unit_limits\<lparr>enabled := True\<rparr>"
  have ok: "joint_ok ?j"
    using joint_ok_create [OF unit_limits_ok] by (simp add: joint_ok_def)
  have "f64_key (next_position 1000000 ?j) = 0" "\<not> is_nan (next_position 1000000 ?j)"
    using rest_at_target(2) [OF ok, of 1000000] next_position_not_nan [OF ok, of 1000000]
    by (simp_all add: Joint_create_def)
  then show ?thesis
    using update_rate_limited [OF ok, of 1000000] limits_ok_finite(5,6) [OF unit_limits_ok]
    by (simp add: Joint_create_def f64_order) (simp add: unit_limits_def)
qed

text \<open>A joint at rest at its target stays there: the update changes neither its position nor
  its (zero) velocity.\<close>

theorem update_rests_at_target:
  assumes "joint_ok j" "feq (position (jstate j)) (target_position j)" "feq (velocity (jstate j)) 0"
  shows "feq (position (jstate (Joint_update dt j))) (position (jstate j)) \<and>
    feq (velocity (jstate (Joint_update dt j))) 0"
proof (cases "enabled j \<and> \<not> faulted j \<and> 0 < sint dt")
  case False
  then have "Joint_update dt j = j" by (intro Joint_update_idle) auto
  then show ?thesis using assms by (simp add: feq_def)
next
  case True
  have z: "f64_mag (velocity (jstate j)) = 0" "f64_key (target_position j) = f64_key (position (jstate j))"
    using assms(2,3) by (auto simp: feq_def f64_key_def split: if_splits)
  note r = rest_at_target [OF assms(1) _ z(2,1), of dt]
  have p: "min_position (limits j) \<le> next_position dt j" "next_position dt j \<le> max_position (limits j)"
    using r(2) True joint_okD(2,3) [OF assms(1)] next_position_not_nan [OF assms(1), of dt]
    by (simp_all add: f64_order)
  have u: "jstate (Joint_update dt j) = (jstate j)\<lparr>acceleration := delta_velocity dt j / seconds_of dt,
      velocity := next_velocity dt j, position := next_position dt j\<rparr>"
    using True p by (simp add: Joint_update_active clampToLimits_def Let_def f64_order)
  show ?thesis
    unfolding u using r True p joint_ok_finite(1) [OF assms(1)]
    by (simp add: feq_def f64_order) (simp add: f64_key_def is_nan_def)
qed

theorem update_rests_at_target_witness:
  "feq (velocity (jstate (Joint_update 1000000 (Joint_create unit_limits\<lparr>enabled := True\<rparr>)))) 0"
  using update_rests_at_target [of "Joint_create unit_limits\<lparr>enabled := True\<rparr>" 1000000]
    joint_ok_create [OF unit_limits_ok]
  by (simp add: joint_ok_def) (simp add: Joint_create_def feq_def)

section \<open>A NaN target\<close>

fun not_home :: "joint_call \<Rightarrow> bool" where
  "not_home Call_home = False"
| "not_home _ = True"

lemma nan_velocity:
  assumes "is_nan (target_position j - position (jstate j))"
  shows "is_nan (next_velocity dt j)"
  using assms
  by (simp add: next_velocity_def delta_velocity_def desired_velocity_def std_clamp_nan
      is_nan_mult_iff is_nan_diff_iff is_nan_add_iff)

lemma nan_update:
  assumes "is_nan (target_position j) \<or> is_nan (position (jstate j))"
    and "enabled j" "\<not> faulted j" "0 < sint dt"
  shows "is_nan (position (jstate (Joint_update dt j)))"
proof -
  have "is_nan (next_velocity dt j)"
    using assms(1) by (intro nan_velocity) (auto simp: is_nan_diff_iff)
  then have "is_nan (next_position dt j)"
    by (simp add: next_position_def is_nan_add_iff is_nan_mult_iff)
  then show ?thesis
    using assms by (simp add: Joint_update_active clampToLimits_def Let_def)
qed

lemma nan_position_stays:
  "is_nan (position (jstate j)) \<Longrightarrow> not_home c \<Longrightarrow> is_nan (position (jstate (joint_step j c)))"
proof (cases c)
  case (Call_update dt)
  assume "is_nan (position (jstate j))"
  then show ?thesis
    using Call_update nan_update [of j dt] Joint_update_idle [of j dt]
    by (cases "enabled j \<and> \<not> faulted j \<and> 0 < sint dt") (auto simp: not_less)
qed (auto simp: Joint_setTargetPosition_def Joint_setTargetVelocity_def split: sum.splits if_splits)

interpretation nan_machine:
  invariant_machine joint_step not_home "\<lambda>j. is_nan (position (jstate j))"
  by unfold_locales (rule nan_position_stays)

text \<open>C22. The range check of \<open>setTargetPosition\<close> lets a NaN through: an enabled joint without a fault accepts
  it, the next update over a positive time step turns the position into a NaN, and no later sequence of calls other than
  \<open>home()\<close> brings the position back, whatever targets are set.\<close>

theorem nan_target_poisons_joint:
  assumes "enabled j" "\<not> faulted j" "is_nan p" "0 < sint dt" "list_all not_home cs"
  shows "\<exists>j'. Joint_setTargetPosition p j = Ok j' \<and>
    is_nan (position (jstate (foldl joint_step (Joint_update dt j') cs)))"
proof (intro exI conjI)
  show "Joint_setTargetPosition p j = Ok (j\<lparr>target_position := p\<rparr>)"
    using assms(1,3) by (simp add: Joint_setTargetPosition_def)
  show "is_nan (position (jstate (foldl joint_step (Joint_update dt (j\<lparr>target_position := p\<rparr>)) cs)))"
    using assms by (intro nan_machine.run_inv nan_update) simp_all
qed

theorem nan_target_poisons_joint_witness:
  "\<exists>j'. Joint_setTargetPosition quiet_nan (Joint_create unit_limits\<lparr>enabled := True\<rparr>) = Ok j' \<and>
    is_nan (position (jstate (foldl joint_step (Joint_update 1000000 j')
      [Call_setTargetPosition 0, Call_update 1000000, Call_disable, Call_enable])))"
  by (rule nan_target_poisons_joint) (simp_all add: Joint_create_def)

text \<open>\<open>setTargetVelocity\<close> has no effect on the motion: the target velocity it stores is read by
  no operation, so an update after it produces the same physical state as without it.\<close>

theorem target_velocity_unused:
  "jstate (Joint_update dt (j\<lparr>target_velocity := v\<rparr>)) = jstate (Joint_update dt j)"
  by (simp add: Joint_update_def clampToLimits_def Let_def)

end
