(* ===== verification/Robot.thy ===== *)
theory Robot
  imports Joint
begin

text \<open>
  \<open>robot::core::RobotConfig\<close> and \<open>robot::core::Robot\<close>
  (\<open>include/robot/core/robot*.hpp\<close>, \<open>src/core/robot*.cpp\<close>): an ordered list of joints that
  only the named constructor builds, from a validated configuration.
\<close>

section \<open>Data and operations\<close>

record robot_config =
  config_name :: string
  config_joints :: "joint_limits list"

record robot =
  robot_name :: string
  joints :: "joint list"

text \<open>The loop over \<open>joints\<close>: the first failing validation is the result.\<close>

fun validate_all :: "joint_limits list \<Rightarrow> (joint_error, unit) expected" where
  "validate_all [] = Ok ()"
| "validate_all (l # ls) =
     (case JointLimits_validate l of
        Inl e \<Rightarrow> Unexpected e
      | Inr _ \<Rightarrow> validate_all ls)"

definition RobotConfig_validate :: "robot_config \<Rightarrow> (joint_error, unit) expected" where
  "RobotConfig_validate c =
     (if config_joints c = [] then Unexpected InvalidConfiguration
      else validate_all (config_joints c))"

definition Robot_create :: "robot_config \<Rightarrow> (joint_error, robot) expected" where
  "Robot_create c =
     (case RobotConfig_validate c of
        Inl e \<Rightarrow> Unexpected e
      | Inr _ \<Rightarrow> Ok \<lparr>robot_name = config_name c, joints = map Joint_create (config_joints c)\<rparr>)"

definition Robot_jointCount :: "robot \<Rightarrow> nat" where
  "Robot_jointCount r = length (joints r)"

text \<open>\<open>joint(index)\<close>: the caller guarantees \<open>index < jointCount()\<close>.\<close>

definition Robot_joint :: "robot \<Rightarrow> nat \<Rightarrow> joint" where
  "Robot_joint r i = joints r ! i"

definition Robot_update :: "i64 \<Rightarrow> robot \<Rightarrow> robot" where
  "Robot_update dt r = r\<lparr>joints := map (Joint_update dt) (joints r)\<rparr>"

section \<open>Facts\<close>

definition robot_ok :: "robot \<Rightarrow> bool" where
  "robot_ok r \<longleftrightarrow> joints r \<noteq> [] \<and> list_all joint_ok (joints r)"

lemma validate_all_cases:
  "validate_all ls = (if list_all (\<lambda>l. JointLimits_validate l = Ok ()) ls then Ok ()
     else Unexpected InvalidConfiguration)"
proof (induction ls)
  case (Cons l ls)
  have "JointLimits_validate l \<in> {Ok (), Unexpected InvalidConfiguration}"
    by (simp add: JointLimits_validate_def)
  with Cons show ?case by auto
qed simp

lemma Robot_create_OkD:
  assumes "Robot_create c = Ok r"
  shows "joints r = map Joint_create (config_joints c)" and "config_joints c \<noteq> []"
    and "robot_name r = config_name c"
  using assms by (auto simp: Robot_create_def RobotConfig_validate_def split: sum.splits if_splits)

lemma Robot_create_ok: "Robot_create c = Ok r \<Longrightarrow> list_all limits_ok (config_joints c) \<Longrightarrow> robot_ok r"
  using Robot_create_OkD [of c r] by (auto simp: robot_ok_def list_all_iff joint_ok_create)

lemma robot_ok_update: "robot_ok r \<Longrightarrow> robot_ok (Robot_update dt r)"
  by (auto simp: robot_ok_def Robot_update_def intro: list_all_map_step joint_ok_update)

lemma joints_update [simp]: "joints (Robot_update dt r) = map (Joint_update dt) (joints r)"
  by (simp add: Robot_update_def)

lemma robot_ok_map:
  assumes "robot_ok r" "\<And>j. joint_ok j \<Longrightarrow> joint_ok (f j)"
  shows "robot_ok (r\<lparr>joints := map f (joints r)\<rparr>)"
  using assms by (auto simp: robot_ok_def intro: list_all_map_step)

lemma robot_ok_replace:
  assumes "robot_ok r" "joint_ok j"
  shows "robot_ok (r\<lparr>joints := (joints r)[i := j]\<rparr>)"
  using assms by (auto simp: robot_ok_def intro: list_all_update)

section \<open>Properties\<close>

text \<open>\<open>Robot::create\<close> succeeds exactly for a non-empty configuration whose limits are all
  valid; then the robot has the configured name and one joint per entry, in order, each at
  rest at 0, disabled and not homed.  Every rejection is \<open>InvalidConfiguration\<close>.\<close>

theorem Robot_create_result:
  "Robot_create c =
     (if config_joints c \<noteq> [] \<and> (list_all (\<lambda>l. min_position l < max_position l \<or>
          is_nan (min_position l) \<or> is_nan (max_position l)) (config_joints c)) \<and>
        (list_all (\<lambda>l. 0 < max_velocity l \<or> is_nan (max_velocity l)) (config_joints c)) \<and>
        (list_all (\<lambda>l. 0 < max_acceleration l \<or> is_nan (max_acceleration l)) (config_joints c))
      then Ok \<lparr>robot_name = config_name c, joints = map Joint_create (config_joints c)\<rparr>
      else Unexpected InvalidConfiguration)"
proof -
  have v: "JointLimits_validate l = Ok () \<longleftrightarrow>
      (min_position l < max_position l \<or> is_nan (min_position l) \<or> is_nan (max_position l)) \<and>
      (0 < max_velocity l \<or> is_nan (max_velocity l)) \<and>
      (0 < max_acceleration l \<or> is_nan (max_acceleration l))" for l
    by (auto simp: JointLimits_validate_def f64_order)
  show ?thesis
    by (auto simp: Robot_create_def RobotConfig_validate_def validate_all_cases v list_all_iff
        split: if_splits)
qed

interpretation robot_machine:
  invariant_machine "\<lambda>r dt. Robot_update dt r" "\<lambda>_. True" robot_ok
  by unfold_locales (rule robot_ok_update)

text \<open>A robot created from limits that are valid, finite and contain the rest position keeps
  every joint within its limits through any sequence of updates, and an update changes neither
  the number nor the order of the joints: joint \<open>i\<close> afterwards is joint \<open>i\<close> updated.\<close>

theorem Robot_updates_within_limits:
  assumes "Robot_create c = Ok r" and "list_all limits_ok (config_joints c)"
  shows "robot_ok (foldl (\<lambda>r dt. Robot_update dt r) r dts) \<and>
    (i < Robot_jointCount r \<longrightarrow> Robot_jointCount (Robot_update dt r) = Robot_jointCount r \<and>
      Robot_joint (Robot_update dt r) i = Joint_update dt (Robot_joint r i))"
  using robot_machine.run_inv [OF Robot_create_ok [OF assms], of dts]
  by (simp add: Robot_jointCount_def Robot_joint_def list_all_iff)

theorem Robot_updates_within_limits_witness:
  "robot_ok (foldl (\<lambda>r dt. Robot_update dt r)
     \<lparr>robot_name = ''demo'', joints = [Joint_create unit_limits, Joint_create unit_limits]\<rparr>
     [1000000, 1000000])"
proof -
  let ?c = "\<lparr>config_name = ''demo'', config_joints = [unit_limits, unit_limits]\<rparr>"
  have "JointLimits_validate unit_limits = Ok ()"
    using unit_limits_ok by (simp add: limits_ok_def)
  then have "Robot_create ?c = Ok \<lparr>robot_name = ''demo'',
      joints = [Joint_create unit_limits, Joint_create unit_limits]\<rparr>"
    by (simp add: Robot_create_def RobotConfig_validate_def)
  from Robot_updates_within_limits [OF this, where dts = "[1000000, 1000000]"] unit_limits_ok
  show ?thesis by simp
qed

end
