(* ===== verification/Hardware_IO.thy ===== *)
theory Hardware_IO
  imports Prelude Float64_Arith
begin

text \<open>
  The stateful parts of \<open>robot::hardware\<close> that hold commanded values: \<open>DigitalIO\<close>, \<open>AnalogIO\<close>
  and \<open>VirtualBrake\<close> (\<open>include/robot/hardware/\<close>, \<open>src/hardware/\<close>).  The two I/O classes
  implement one contract, the channel bank, stated as a locale and interpreted on both.
\<close>

datatype hardware_error = InvalidConfiguration | OutOfRange

section \<open>The channel-bank interface\<close>

text \<open>
  An index-addressed bank of values: \<open>rd\<close> and \<open>wr\<close> are the checked accessors, \<open>count\<close> the number
  of channels and \<open>accepts\<close> the values the bank is configured to hold.
\<close>

locale channel_bank =
  fixes rd :: "'b \<Rightarrow> nat \<Rightarrow> (hardware_error, 'v) expected"
    and wr :: "'b \<Rightarrow> nat \<Rightarrow> 'v \<Rightarrow> 'b \<times> (hardware_error, unit) expected"
    and count :: "'b \<Rightarrow> nat"
    and accepts :: "'b \<Rightarrow> 'v \<Rightarrow> bool"
  assumes read_range: "has_value (rd b i) \<longleftrightarrow> i < count b"
    and read_error: "rd b i = Unexpected e \<Longrightarrow> e = OutOfRange"
    and write_result: "snd (wr b i v) =
      (if i < count b \<and> accepts b v then Ok () else Unexpected OutOfRange)"
    and write_failed: "\<not> (i < count b \<and> accepts b v) \<Longrightarrow> fst (wr b i v) = b"
    and read_written: "i < count b \<Longrightarrow> accepts b v \<Longrightarrow>
      rd (fst (wr b i v)) j = (if j = i then Ok v else rd b j)"
    and write_count: "count (fst (wr b i v)) = count b"
    and write_accepts: "accepts (fst (wr b i v)) = accepts b"
begin

definition write_all :: "'b \<Rightarrow> (nat \<times> 'v) list \<Rightarrow> 'b" where
  "write_all b ws = foldl (\<lambda>b w. fst (wr b (fst w) (snd w))) b ws"

text \<open>The last accepted write to channel \<open>i\<close>.\<close>

definition last_accepted :: "'b \<Rightarrow> nat \<Rightarrow> (nat \<times> 'v) list \<Rightarrow> (nat \<times> 'v) option" where
  "last_accepted b i ws = List.find (\<lambda>w. fst w = i \<and> accepts b (snd w)) (rev ws)"

lemma write_all_count: "count (write_all b ws) = count b"
  by (induction ws rule: rev_induct) (simp_all add: write_all_def write_count)

lemma write_all_accepts: "accepts (write_all b ws) = accepts b"
  by (induction ws rule: rev_induct) (simp_all add: write_all_def write_accepts)

lemma write_all_snoc: "write_all b (ws @ [w]) = fst (wr (write_all b ws) (fst w) (snd w))"
  by (simp add: write_all_def)

lemma read_write_all:
  "rd (write_all b ws) i =
     (if i < count b then case last_accepted b i ws of Some w \<Rightarrow> Ok (snd w) | None \<Rightarrow> rd b i
      else Unexpected OutOfRange)"
proof (induction ws rule: rev_induct)
  case Nil
  show ?case using read_range [of b i] read_error [of b i]
    by (cases "rd b i") (auto simp: write_all_def last_accepted_def)
next
  case (snoc w ws)
  let ?b = "write_all b ws"
  show ?case
  proof (cases "fst w < count b \<and> accepts b (snd w)")
    case True
    then have "rd (write_all b (ws @ [w])) i = (if i = fst w then Ok (snd w) else rd ?b i)"
      unfolding write_all_snoc
      by (intro read_written) (simp_all add: write_all_count write_all_accepts)
    then show ?thesis using True snoc.IH by (auto simp: last_accepted_def)
  next
    case False
    then have "write_all b (ws @ [w]) = ?b"
      unfolding write_all_snoc
      by (intro write_failed) (simp add: write_all_count write_all_accepts)
    then show ?thesis using False snoc.IH by (auto simp: last_accepted_def)
  qed
qed

end

section \<open>Digital channels\<close>

record digital_io =
  dio_channels :: "bool list"

definition DigitalIO_create :: "nat \<Rightarrow> digital_io" where
  "DigitalIO_create channel_count = \<lparr>dio_channels = replicate channel_count False\<rparr>"

definition DigitalIO_channelCount :: "digital_io \<Rightarrow> nat" where
  "DigitalIO_channelCount b = length (dio_channels b)"

definition DigitalIO_read :: "digital_io \<Rightarrow> nat \<Rightarrow> (hardware_error, bool) expected" where
  "DigitalIO_read b channel =
     (if length (dio_channels b) \<le> channel then Unexpected OutOfRange
      else Ok (dio_channels b ! channel))"

definition DigitalIO_write ::
    "digital_io \<Rightarrow> nat \<Rightarrow> bool \<Rightarrow> digital_io \<times> (hardware_error, unit) expected" where
  "DigitalIO_write b channel value =
     (if length (dio_channels b) \<le> channel then (b, Unexpected OutOfRange)
      else (b\<lparr>dio_channels := (dio_channels b)[channel := value]\<rparr>, Ok ()))"

section \<open>Analog channels\<close>

record analog_io =
  aio_min_value :: f64
  aio_max_value :: f64
  aio_channels :: "f64 list"

definition AnalogIO_create :: "nat \<Rightarrow> f64 \<Rightarrow> f64 \<Rightarrow> (hardware_error, analog_io) expected" where
  "AnalogIO_create channel_count min_value max_value =
     (if max_value \<le> min_value then Unexpected InvalidConfiguration
      else Ok \<lparr>aio_min_value = min_value, aio_max_value = max_value,
               aio_channels = replicate channel_count min_value\<rparr>)"

definition AnalogIO_channelCount :: "analog_io \<Rightarrow> nat" where
  "AnalogIO_channelCount b = length (aio_channels b)"

definition AnalogIO_read :: "analog_io \<Rightarrow> nat \<Rightarrow> (hardware_error, f64) expected" where
  "AnalogIO_read b channel =
     (if length (aio_channels b) \<le> channel then Unexpected OutOfRange
      else Ok (aio_channels b ! channel))"

definition AnalogIO_write ::
    "analog_io \<Rightarrow> nat \<Rightarrow> f64 \<Rightarrow> analog_io \<times> (hardware_error, unit) expected" where
  "AnalogIO_write b channel value =
     (if length (aio_channels b) \<le> channel then (b, Unexpected OutOfRange)
      else if value < aio_min_value b \<or> aio_max_value b < value then (b, Unexpected OutOfRange)
      else (b\<lparr>aio_channels := (aio_channels b)[channel := value]\<rparr>, Ok ()))"

text \<open>The values an analog bank lets through: those the two comparisons do not reject.\<close>

definition aio_accepts :: "analog_io \<Rightarrow> f64 \<Rightarrow> bool" where
  "aio_accepts b value \<longleftrightarrow> \<not> (value < aio_min_value b \<or> aio_max_value b < value)"

interpretation dio: channel_bank DigitalIO_read DigitalIO_write DigitalIO_channelCount "\<lambda>_ _. True"
  by unfold_locales
    (auto simp: DigitalIO_read_def DigitalIO_write_def DigitalIO_channelCount_def split: if_splits)

interpretation aio: channel_bank AnalogIO_read AnalogIO_write AnalogIO_channelCount aio_accepts
  by unfold_locales
    (auto simp: AnalogIO_read_def AnalogIO_write_def AnalogIO_channelCount_def aio_accepts_def
      split: if_splits)

lemma aio_accepts_channels [simp]: "aio_accepts (b\<lparr>aio_channels := cs\<rparr>) = aio_accepts b"
  by (simp add: aio_accepts_def fun_eq_iff)

text \<open>What a bank of analog channels keeps: every channel holds a value it would accept.\<close>

definition aio_ok :: "analog_io \<Rightarrow> bool" where
  "aio_ok b \<longleftrightarrow> list_all (aio_accepts b) (aio_channels b)"

abbreviation aio_write_step :: "analog_io \<Rightarrow> nat \<times> f64 \<Rightarrow> analog_io" where
  "aio_write_step b w \<equiv> fst (AnalogIO_write b (fst w) (snd w))"

interpretation aio_machine: framed_machine aio_write_step "\<lambda>_. True" aio_ok
    "\<lambda>b. (aio_min_value b, aio_max_value b, AnalogIO_channelCount b)"
proof unfold_locales
  fix b w
  assume ok: "aio_ok b"
  show "aio_ok (aio_write_step b w)"
    using ok by (auto simp: aio_ok_def AnalogIO_write_def intro!: list_all_update) (simp add: aio_accepts_def)
  show "(aio_min_value (aio_write_step b w), aio_max_value (aio_write_step b w),
      AnalogIO_channelCount (aio_write_step b w)) =
    (aio_min_value b, aio_max_value b, AnalogIO_channelCount b)"
    by (simp add: AnalogIO_write_def AnalogIO_channelCount_def)
qed

lemma AnalogIO_create_ok:
  "AnalogIO_create n lo hi = Ok b \<Longrightarrow> lo < hi \<Longrightarrow> aio_ok b"
  by (auto simp: AnalogIO_create_def aio_ok_def aio_accepts_def list_all_iff f64_order split: if_splits)

section \<open>Brakes\<close>

datatype brake_state = Engaged | Released

record virtual_brake =
  brake_state :: brake_state

definition VirtualBrake_create :: virtual_brake where
  "VirtualBrake_create = \<lparr>brake_state = Engaged\<rparr>"

definition VirtualBrake_isEngaged :: "virtual_brake \<Rightarrow> bool" where
  "VirtualBrake_isEngaged b \<longleftrightarrow> brake_state b = Engaged"

definition VirtualBrake_engage :: "virtual_brake \<Rightarrow> virtual_brake" where
  "VirtualBrake_engage b = b\<lparr>brake_state := Engaged\<rparr>"

definition VirtualBrake_release :: "virtual_brake \<Rightarrow> virtual_brake" where
  "VirtualBrake_release b = b\<lparr>brake_state := Released\<rparr>"

lemma engage_isEngaged [simp]: "VirtualBrake_isEngaged (VirtualBrake_engage b)"
  by (simp add: VirtualBrake_isEngaged_def VirtualBrake_engage_def)

lemma engaged_all: "list_all VirtualBrake_isEngaged (map VirtualBrake_engage bs)"
  by (simp add: list_all_iff)

section \<open>Properties\<close>

text \<open>After any sequence of writes to an analog bank, a channel reads the value last accepted
  for it, or its earlier value if none was: rejected writes and writes to other channels
  leave it alone, and a channel index past the end is an error.\<close>

theorem analog_reads_last_accepted_write:
  "AnalogIO_read (foldl (\<lambda>b w. fst (AnalogIO_write b (fst w) (snd w))) b ws) i =
     (if i < AnalogIO_channelCount b
      then case List.find (\<lambda>w. fst w = i \<and> \<not> (snd w < aio_min_value b \<or> aio_max_value b < snd w)) (rev ws) of
             Some w \<Rightarrow> Ok (snd w)
           | None \<Rightarrow> AnalogIO_read b i
      else Unexpected OutOfRange)"
  using aio.read_write_all [of b ws i]
  by (simp add: aio.write_all_def aio.last_accepted_def aio_accepts_def)

text \<open>A bank created with \<open>min < max\<close> keeps its bounds and its number of channels over every
  sequence of writes, and every value it then reads is a NaN or lies between the bounds; the
  NaN case is not excluded by \<open>write\<close>, whose two comparisons are false for NaN.\<close>

theorem analog_values_in_range:
  assumes "AnalogIO_create n lo hi = Ok b0" and "lo < hi"
    and "AnalogIO_read (foldl (\<lambda>b w. fst (AnalogIO_write b (fst w) (snd w))) b0 ws) i = Ok v"
  shows "i < n \<and> (is_nan v \<or> lo \<le> v \<and> v \<le> hi)"
proof -
  let ?b = "foldl (\<lambda>b w. fst (AnalogIO_write b (fst w) (snd w))) b0 ws"
  have b0: "aio_min_value b0 = lo" "aio_max_value b0 = hi" "AnalogIO_channelCount b0 = n"
    using assms(1) by (auto simp: AnalogIO_create_def AnalogIO_channelCount_def split: if_splits)
  have ok: "aio_ok b0" by (rule AnalogIO_create_ok [OF assms(1,2)])
  have "aio_ok ?b" "(aio_min_value ?b, aio_max_value ?b, AnalogIO_channelCount ?b) = (lo, hi, n)"
    using aio_machine.run_inv [OF ok, of ws] aio_machine.run_obs [OF ok, of ws]
    by (simp_all add: list_all_iff b0)
  moreover from this have "i < n" "v \<in> set (aio_channels ?b)"
    using assms(3) by (auto simp: AnalogIO_read_def AnalogIO_channelCount_def split: if_splits)
  ultimately show ?thesis
    using assms(2) by (auto simp: aio_ok_def aio_accepts_def list_all_iff f64_order)
qed

theorem analog_values_in_range_witness:
  "AnalogIO_read (fst (AnalogIO_write
       \<lparr>aio_min_value = 0, aio_max_value = f64_five, aio_channels = [0, 0]\<rparr> 1 f64_two)) 1 = Ok f64_two \<and>
     (is_nan f64_two \<or> 0 \<le> f64_two \<and> f64_two \<le> f64_five)"
proof
  have lt: "0 < f64_five" and le: "\<not> f64_five \<le> 0" and in_range: "\<not> f64_two < 0" "\<not> f64_five < f64_two"
    by (simp_all add: f64_literals)
  have c: "AnalogIO_create 2 0 f64_five =
      Ok \<lparr>aio_min_value = 0, aio_max_value = f64_five, aio_channels = [0, 0]\<rparr>"
    using le by (simp add: AnalogIO_create_def numeral_2_eq_2)
  show r: "AnalogIO_read (fst (AnalogIO_write
      \<lparr>aio_min_value = 0, aio_max_value = f64_five, aio_channels = [0, 0]\<rparr> 1 f64_two)) 1 = Ok f64_two"
    using in_range by (simp add: AnalogIO_read_def AnalogIO_write_def)
  show "is_nan f64_two \<or> 0 \<le> f64_two \<and> f64_two \<le> f64_five"
    using analog_values_in_range [OF c lt, of "[(1, f64_two)]" 1 f64_two] r by simp
qed

end
