(* ===== verification/Safety.thy ===== *)
theory Safety
  imports Controller Robot Hardware_IO
begin

text \<open>
  \<open>robot::safety::EmergencyStopController\<close> and \<open>robot::safety::LimitMonitor\<close>
  (\<open>include/robot/safety/\<close>, \<open>src/safety/\<close>).  The emergency stop borrows the controller and the
  brakes, so its operations return both.
\<close>

section \<open>Emergency stop\<close>

definition EmergencyStopController_trigger ::
    "controller \<Rightarrow> virtual_brake list \<Rightarrow> controller \<times> virtual_brake list" where
  "EmergencyStopController_trigger ctl brakes =
     (let brakes = map VirtualBrake_engage brakes;
          ctl = fst (handleEvent ctl EStopTriggered)
      in (ctl, brakes))"

definition EmergencyStopController_reset ::
    "controller \<Rightarrow> controller \<times> (controller_error, unit) expected" where
  "EmergencyStopController_reset ctl = handleEvent ctl EStopReset"

lemma trigger_fields [simp]:
  "fst (EmergencyStopController_trigger ctl brakes) = post_event ctl EStopTriggered"
  "snd (EmergencyStopController_trigger ctl brakes) = map VirtualBrake_engage brakes"
  by (simp_all add: EmergencyStopController_trigger_def post_event_def)

section \<open>Limit monitor\<close>

record limit_violation =
  lv_jointIndex :: nat
  lv_position :: f64
  lv_distanceToNearestLimit :: f64

definition distanceToNearest :: "joint \<Rightarrow> f64" where
  "distanceToNearest j =
     (let distanceToMin = position (jstate j) - min_position (limits j);
          distanceToMax = max_position (limits j) - position (jstate j)
      in std_min distanceToMin distanceToMax)"

fun check_from :: "f64 \<Rightarrow> nat \<Rightarrow> joint list \<Rightarrow> limit_violation list \<Rightarrow> limit_violation list" where
  "check_from marginRadians i [] violations = violations"
| "check_from marginRadians i (j # js) violations =
     check_from marginRadians (i + 1) js
       (if distanceToNearest j \<le> marginRadians
        then violations @ [\<lparr>lv_jointIndex = i, lv_position = position (jstate j),
               lv_distanceToNearestLimit = std_max (distanceToNearest j) 0\<rparr>]
        else violations)"

definition LimitMonitor_check :: "f64 \<Rightarrow> robot \<Rightarrow> limit_violation list" where
  "LimitMonitor_check marginRadians r = check_from marginRadians 0 (joints r) []"

definition violation_of :: "joint list \<Rightarrow> nat \<Rightarrow> limit_violation" where
  "violation_of js i = \<lparr>lv_jointIndex = i, lv_position = position (jstate (js ! i)),
     lv_distanceToNearestLimit = std_max (distanceToNearest (js ! i)) 0\<rparr>"

lemma check_from_filter:
  "check_from m (length pre) js vs =
     vs @ map (violation_of (pre @ js))
       (List.filter (\<lambda>i. distanceToNearest ((pre @ js) ! i) \<le> m) [length pre..<length pre + length js])"
proof (induction js arbitrary: pre vs)
  case (Cons j js)
  have "[length pre..<length pre + length (j # js)] =
      length pre # [length (pre @ [j])..<length (pre @ [j]) + length js]"
    using upt_conv_Cons [of "length pre" "length pre + length (j # js)"] by simp
  with Cons.IH [of "pre @ [j]"] show ?case
    by (simp add: nth_append violation_of_def)
qed simp

lemma LimitMonitor_check_filter:
  "LimitMonitor_check m r = map (violation_of (joints r))
     (List.filter (\<lambda>i. distanceToNearest (joints r ! i) \<le> m) [0..<length (joints r)])"
  using check_from_filter [of m "[]" "joints r" "[]"] by (simp add: LimitMonitor_check_def)

lemma std_min_le_iff:
  "\<not> is_nan a \<Longrightarrow> \<not> is_nan b \<Longrightarrow> std_min a b \<le> m \<longleftrightarrow> a \<le> m \<or> b \<le> m"
  by (auto simp: std_min_def f64_order)

lemma std_max_zero: "\<not> is_nan a \<Longrightarrow> 0 \<le> std_max a 0"
  by (auto simp: std_max_def f64_order)

lemma distances_not_nan:
  assumes "joint_ok j"
  shows "\<not> is_nan (position (jstate j) - min_position (limits j))"
    and "\<not> is_nan (max_position (limits j) - position (jstate j))"
  using joint_ok_finite [OF assms] limits_ok_finite [OF joint_okD(1) [OF assms]]
  by (simp_all add: is_nan_diff_iff)

lemma distance_nonneg:
  assumes "joint_ok j"
  shows "0 \<le> distanceToNearest j"
proof -
  note f = joint_ok_finite [OF assms] limits_ok_finite [OF joint_okD(1) [OF assms]]
  have "0 \<le> position (jstate j) - min_position (limits j)"
    "0 \<le> max_position (limits j) - position (jstate j)"
    using f joint_okD [OF assms] by (simp_all add: diff_nonneg_f64)
  then show ?thesis by (simp add: distanceToNearest_def std_min_def Let_def)
qed

lemma distanceToNearest_le_iff:
  assumes "joint_ok j"
  shows "distanceToNearest j \<le> m \<longleftrightarrow>
    position (jstate j) - min_position (limits j) \<le> m \<or>
    max_position (limits j) - position (jstate j) \<le> m"
  using distances_not_nan [OF assms] by (simp add: distanceToNearest_def std_min_le_iff)

lemma distanceToNearest_nan:
  assumes "is_nan (position (jstate j))"
  shows "is_nan (distanceToNearest j)"
  using assms by (simp add: distanceToNearest_def std_min_def is_nan_diff_iff Let_def)

section \<open>Properties\<close>

text \<open>Triggering the emergency stop engages every brake whatever state the controller is in;
  from the states in which the robot is powered (servos on) it ends in \<open>EmergencyStop\<close>, from all
  others the state is unchanged, and in no case can the controller be \<open>Moving\<close> afterwards.
  A reset leaves the brakes alone and is accepted only in \<open>EmergencyStop\<close>.\<close>

theorem emergency_stop_is_unconditional:
  "let (ctl', brakes') = EmergencyStopController_trigger ctl brakes in
     length brakes' = length brakes \<and> list_all VirtualBrake_isEngaged brakes' \<and>
     ctl_state ctl' = (if ctl_state ctl \<in> {ServoOn, Ready, Moving, Paused, Stopping}
                       then EmergencyStop else ctl_state ctl) \<and>
     ctl_state ctl' \<noteq> Moving \<and>
     has_value (snd (EmergencyStopController_reset ctl)) = (ctl_state ctl = EmergencyStop)"
  by (auto simp: split_beta engaged_all post_event_state EmergencyStopController_reset_def
      handleEvent_documented)

text \<open>C20. On a robot within its limits the monitor reports, once and in joint order, exactly the
  joints whose distance to the lower or to the upper limit is at most the margin, with their
  position; every reported distance is non-negative and within the margin.\<close>

theorem limit_monitor_reports:
  assumes "robot_ok r" and "0 \<le> margin"
  shows "map lv_jointIndex (LimitMonitor_check margin r) =
      List.filter (\<lambda>i. position (jstate (Robot_joint r i)) - min_position (limits (Robot_joint r i)) \<le> margin \<or>
          max_position (limits (Robot_joint r i)) - position (jstate (Robot_joint r i)) \<le> margin)
        [0..<Robot_jointCount r] \<and>
    list_all (\<lambda>v. lv_position v = position (jstate (Robot_joint r (lv_jointIndex v))) \<and>
        0 \<le> lv_distanceToNearestLimit v \<and> lv_distanceToNearestLimit v \<le> margin)
      (LimitMonitor_check margin r)"
proof
  have ok: "joint_ok (joints r ! i)" if "i < length (joints r)" for i
    using assms(1) that by (simp add: robot_ok_def list_all_length)
  show "map lv_jointIndex (LimitMonitor_check margin r) =
      List.filter (\<lambda>i. position (jstate (Robot_joint r i)) - min_position (limits (Robot_joint r i)) \<le> margin \<or>
          max_position (limits (Robot_joint r i)) - position (jstate (Robot_joint r i)) \<le> margin)
        [0..<Robot_jointCount r]"
    using ok by (auto simp: LimitMonitor_check_filter comp_def violation_of_def Robot_jointCount_def
        Robot_joint_def distanceToNearest_le_iff intro!: filter_cong)
  have "std_max (distanceToNearest j) 0 = distanceToNearest j" if "joint_ok j" for j
    using distance_nonneg [OF that] by (auto simp: std_max_def f64_order)
  then show "list_all (\<lambda>v. lv_position v = position (jstate (Robot_joint r (lv_jointIndex v))) \<and>
        0 \<le> lv_distanceToNearestLimit v \<and> lv_distanceToNearestLimit v \<le> margin)
      (LimitMonitor_check margin r)"
    by (auto simp: LimitMonitor_check_filter list_all_iff violation_of_def Robot_joint_def ok distance_nonneg)
qed

theorem limit_monitor_reports_witness:
  "let j = (Joint_create unit_limits)\<lparr>jstate := \<lparr>position = max_position unit_limits, velocity = 0,
         acceleration = 0, torque = 0\<rparr>\<rparr>;
       report = LimitMonitor_check f64_half \<lparr>robot_name = ''demo'', joints = [j]\<rparr>
   in map lv_jointIndex report = [0] \<and>
      list_all (\<lambda>v. lv_position v = max_position unit_limits \<and> lv_distanceToNearestLimit v \<le> f64_half) report"
proof -
  let ?j = "(Joint_create unit_limits)\<lparr>jstate := \<lparr>position = max_position unit_limits, velocity = 0,
      acceleration = 0, torque = 0\<rparr>\<rparr>"
  let ?r = "\<lparr>robot_name = ''demo'', joints = [?j]\<rparr>"
  have "joint_ok ?j"
    using joint_ok_create [OF unit_limits_ok] by (simp add: joint_ok_def Joint_create_def unit_limits_def f64_literals)
  then have ok: "robot_ok ?r" by (simp add: robot_ok_def)
  have m: "0 \<le> f64_half" by (simp add: f64_literals)
  have "is_finite (max_position unit_limits)" by (simp add: unit_limits_def f64_literals)
  from diff_feq_zero [OF this this] have "max_position unit_limits - max_position unit_limits \<le> f64_half"
    using m by (simp add: f64_order f64_key_def [of "_ - _"] finite_not_nan)
  then have "\<exists>v. LimitMonitor_check f64_half ?r = [v]" "map lv_jointIndex (LimitMonitor_check f64_half ?r) = [0]"
    using limit_monitor_reports [OF ok m] by (auto simp: Robot_jointCount_def Robot_joint_def Joint_create_def)
  then show ?thesis
    using limit_monitor_reports [OF ok m] by (auto simp: Let_def Robot_joint_def)
qed

text \<open>A joint whose position is NaN is never reported, whatever the margin: the monitor's only
  comparison is false for NaN.\<close>

theorem limit_monitor_misses_nan:
  assumes "is_nan (position (jstate (Robot_joint r i)))"
  shows "i \<notin> set (map lv_jointIndex (LimitMonitor_check margin r))"
  using distanceToNearest_nan [of "joints r ! i"] assms
  by (auto simp: LimitMonitor_check_filter violation_of_def Robot_joint_def f64_order)

theorem limit_monitor_misses_nan_witness:
  "0 \<notin> set (map lv_jointIndex (LimitMonitor_check f64_pi
     \<lparr>robot_name = ''demo'', joints = [(Joint_create unit_limits)
        \<lparr>jstate := \<lparr>position = quiet_nan, velocity = 0, acceleration = 0, torque = 0\<rparr>\<rparr>]\<rparr>))"
  by (rule limit_monitor_misses_nan) (simp add: Robot_joint_def)

end
