(* ===== verification/Frame_Codec.thy ===== *)
theory Frame_Codec
  imports Wire
begin

text \<open>
  \<open>robot::protocol::FrameCodec\<close> (\<open>include/robot/protocol/\<close>, \<open>src/protocol/frame_codec.cpp\<close>):
  the command codes, the frame and its wire format, decoded from the front of a buffer that
  may hold less or more than one frame.
\<close>

section \<open>Command types\<close>

datatype command_type =
    Connect | GetStatus | Enable | Disable | Home | MoveJoint | MoveLinear | Stop
  | EmergencyStop | GetPosition | GetIO | SetIO | ResetFault | InjectFault

fun command_code :: "command_type \<Rightarrow> u16" where
  "command_code Connect = 1"
| "command_code GetStatus = 2"
| "command_code Enable = 3"
| "command_code Disable = 4"
| "command_code Home = 5"
| "command_code MoveJoint = 6"
| "command_code MoveLinear = 7"
| "command_code Stop = 8"
| "command_code EmergencyStop = 9"
| "command_code GetPosition = 10"
| "command_code GetIO = 11"
| "command_code SetIO = 12"
| "command_code ResetFault = 13"
| "command_code InjectFault = 14"

definition command_types :: "command_type list" where
  "command_types = [Connect, GetStatus, Enable, Disable, Home, MoveJoint, MoveLinear, Stop,
     EmergencyStop, GetPosition, GetIO, SetIO, ResetFault, InjectFault]"

definition isKnownCommandType :: "u16 \<Rightarrow> bool" where
  "isKnownCommandType raw \<longleftrightarrow> raw \<in> set (map command_code command_types)"

text \<open>\<open>static_cast<CommandType>(raw)\<close>, used where \<open>raw\<close> is known.\<close>

definition command_type_cast :: "u16 \<Rightarrow> command_type option" where
  "command_type_cast raw = List.find (\<lambda>c. command_code c = raw) command_types"

fun command_toString :: "command_type \<Rightarrow> string" where
  "command_toString Connect = ''Connect''"
| "command_toString GetStatus = ''GetStatus''"
| "command_toString Enable = ''Enable''"
| "command_toString Disable = ''Disable''"
| "command_toString Home = ''Home''"
| "command_toString MoveJoint = ''MoveJoint''"
| "command_toString MoveLinear = ''MoveLinear''"
| "command_toString Stop = ''Stop''"
| "command_toString EmergencyStop = ''EmergencyStop''"
| "command_toString GetPosition = ''GetPosition''"
| "command_toString GetIO = ''GetIO''"
| "command_toString SetIO = ''SetIO''"
| "command_toString ResetFault = ''ResetFault''"
| "command_toString InjectFault = ''InjectFault''"

lemma command_types_complete [simp]: "c \<in> set command_types"
  by (cases c) (simp_all add: command_types_def)

lemma command_code_known [simp]: "isKnownCommandType (command_code c)"
  by (simp add: isKnownCommandType_def)

lemma command_type_cast_code [simp]: "command_type_cast (command_code c) = Some c"
  by (cases c) (simp_all add: command_type_cast_def command_types_def)

lemma command_type_cast_SomeD: "command_type_cast raw = Some c \<Longrightarrow> command_code c = raw"
  by (auto simp: command_type_cast_def find_Some_iff)

lemma known_cast: "isKnownCommandType raw \<Longrightarrow> \<exists>c. command_type_cast raw = Some c"
  by (auto simp: isKnownCommandType_def)

section \<open>Frames\<close>

datatype protocol_error =
  Incomplete | InvalidMagic | UnsupportedVersion | UnknownCommandType | PayloadTooLarge

record frame =
  frame_flags :: u8
  frame_type :: command_type
  frame_payload :: bytes

record decode_result =
  res_frame :: frame
  bytesConsumed :: nat

definition kProtocolMagic :: u32 where
  "kProtocolMagic = 0x524F424F"

definition kProtocolVersion :: u8 where
  "kProtocolVersion = 1"

definition headerSize :: nat where
  "headerSize = 12"

definition maxPayloadSize :: u32 where
  "maxPayloadSize = 1048576"

definition encode :: "frame \<Rightarrow> bytes" where
  "encode fr =
     (let out = writeU32BE [] kProtocolMagic;
          out = out @ [kProtocolVersion];
          out = out @ [frame_flags fr];
          out = writeU16BE out (command_code (frame_type fr));
          out = writeU32BE out (word_of_nat (length (frame_payload fr)))
      in out @ frame_payload fr)"

definition decode :: "bytes \<Rightarrow> (protocol_error, decode_result) expected" where
  "decode bs =
     (if length bs < headerSize then Unexpected Incomplete
      else if readU32BE (subspan bs 0 4) \<noteq> kProtocolMagic then Unexpected InvalidMagic
      else if bs ! 4 \<noteq> kProtocolVersion then Unexpected UnsupportedVersion
      else
        let flags = bs ! 5; rawType = readU16BE (subspan bs 6 2) in
        if \<not> isKnownCommandType rawType then Unexpected UnknownCommandType
        else
          let len = readU32BE (subspan bs 8 4) in
          if maxPayloadSize < len then Unexpected PayloadTooLarge
          else if length bs < headerSize + unat len then Unexpected Incomplete
          else Ok \<lparr>res_frame = \<lparr>frame_flags = flags, frame_type = the (command_type_cast rawType),
                     frame_payload = subspan bs headerSize (unat len)\<rparr>,
                   bytesConsumed = headerSize + unat len\<rparr>)"

section \<open>The header\<close>

text \<open>
  The fixed part of an encoded frame, with the four fields that vary, and what \<open>decode\<close> reads
  from it.  Both directions of the round trip go through this view.
\<close>

definition header :: "u32 \<Rightarrow> u8 \<Rightarrow> u8 \<Rightarrow> u16 \<Rightarrow> u32 \<Rightarrow> bytes" where
  "header magic version flags raw len =
     writeU32BE [] magic @ [version, flags] @ writeU16BE [] raw @ writeU32BE [] len"

lemma header_length [simp]: "length (header m v fl raw len) = 12"
  by (simp add: header_def wire_simps)

lemma encode_header:
  "encode fr = header kProtocolMagic kProtocolVersion (frame_flags fr)
     (command_code (frame_type fr)) (word_of_nat (length (frame_payload fr))) @ frame_payload fr"
  unfolding encode_def Let_def header_def
  by (subst u32.write_appends, subst u16.write_appends) simp

lemma encode_length: "length (encode fr) = headerSize + length (frame_payload fr)"
  by (simp add: encode_header headerSize_def)

lemma header_fields:
  fixes m v fl raw len rest
  defines "bs \<equiv> header m v fl raw len @ rest"
  shows "readU32BE (subspan bs 0 4) = m" and "bs ! 4 = v" and "bs ! 5 = fl"
    and "readU16BE (subspan bs 6 2) = raw" and "readU32BE (subspan bs 8 4) = len"
    and "drop headerSize bs = rest"
  by (simp_all add: bs_def header_def subspan_def headerSize_def wire_simps nth_append)

text \<open>Every buffer of at least twelve bytes has this shape.\<close>

lemma header_view:
  assumes "headerSize \<le> length bs"
  shows "\<exists>m v fl raw len. bs = header m v fl raw len @ drop headerSize bs"
proof -
  let ?h = "header (readU32BE (subspan bs 0 4)) (bs ! 4) (bs ! 5) (readU16BE (subspan bs 6 2))
    (readU32BE (subspan bs 8 4))"
  have "?h = subspan bs 0 4 @ [bs ! 4, bs ! 5] @ subspan bs 6 2 @ subspan bs 8 4"
    using assms by (simp add: header_def subspan_def headerSize_def u32.write_read u16.write_read)
  also have "\<dots> = take 12 bs"
    using assms by (intro nth_equalityI)
      (auto simp: subspan_def headerSize_def nth_append nth_Cons' not_less less_Suc_eq numeral_eq_Suc)
  finally show ?thesis by (metis append_take_drop_id headerSize_def)
qed

lemma decode_short: "length bs < headerSize \<Longrightarrow> decode bs = Unexpected Incomplete"
  by (simp add: decode_def)

text \<open>What \<open>decode\<close> does, in terms of the fields.\<close>

lemma decode_header:
  "decode (header m v fl raw len @ rest) =
     (if m \<noteq> kProtocolMagic then Unexpected InvalidMagic
      else if v \<noteq> kProtocolVersion then Unexpected UnsupportedVersion
      else if \<not> isKnownCommandType raw then Unexpected UnknownCommandType
      else if maxPayloadSize < len then Unexpected PayloadTooLarge
      else if length rest < unat len then Unexpected Incomplete
      else Ok \<lparr>res_frame = \<lparr>frame_flags = fl, frame_type = the (command_type_cast raw),
                 frame_payload = take (unat len) rest\<rparr>,
               bytesConsumed = headerSize + unat len\<rparr>)"
proof -
  let ?bs = "header m v fl raw len @ rest"
  have "length ?bs = 12 + length rest" by simp
  moreover have "subspan (header m v fl raw len @ rest) 12 n = take n rest" for m v n
    by (simp add: subspan_def)
  ultimately show ?thesis
    unfolding decode_def Let_def headerSize_def by (simp add: header_fields)
qed

text \<open>A length field that fits is read back as the length.\<close>

lemma unat_length_field: "n < 2 ^ 32 \<Longrightarrow> unat (word_of_nat n :: u32) = n"
  by (simp add: unat_of_nat)

lemma length_field_too_large:
  "n < 2 ^ 32 \<Longrightarrow> maxPayloadSize < word_of_nat n \<longleftrightarrow> 1048576 < n"
  by (simp add: maxPayloadSize_def word_less_nat_alt unat_of_nat)

lemma decode_encode:
  assumes "length (frame_payload fr) < 2 ^ 32"
  shows "decode (encode fr @ rest) =
    (if length (frame_payload fr) \<le> 1048576
     then Ok \<lparr>res_frame = fr, bytesConsumed = length (encode fr)\<rparr>
     else Unexpected PayloadTooLarge)"
  using assms
  by (simp add: encode_header decode_header unat_length_field length_field_too_large not_le headerSize_def)

lemma decode_OkE:
  assumes "decode bs = Ok r"
  obtains "bs = encode (res_frame r) @ drop (bytesConsumed r) bs"
    and "bytesConsumed r = length (encode (res_frame r))"
    and "length (frame_payload (res_frame r)) \<le> 1048576"
proof -
  have "headerSize \<le> length bs" using assms decode_short [of bs] by fastforce
  then obtain m v fl raw len where bs: "bs = header m v fl raw len @ drop headerSize bs"
    using header_view by blast
  define rest where "rest = drop headerSize bs"
  have bs': "bs = header m v fl raw len @ rest" using bs by (simp add: rest_def)
  note d = assms [unfolded bs' decode_header]
  have ok: "m = kProtocolMagic" "v = kProtocolVersion" "isKnownCommandType raw"
    "\<not> maxPayloadSize < len" "\<not> length rest < unat len"
    and r: "r = \<lparr>res_frame = \<lparr>frame_flags = fl, frame_type = the (command_type_cast raw),
        frame_payload = take (unat len) rest\<rparr>, bytesConsumed = headerSize + unat len\<rparr>"
    using d by (auto split: if_splits)
  obtain c where c: "command_type_cast raw = Some c" using known_cast ok(3) by blast
  have enc: "encode (res_frame r) = header m v fl raw len @ take (unat len) rest"
    using ok c by (simp add: r encode_header command_type_cast_SomeD min_def)
  show thesis
  proof (rule that)
    show "bs = encode (res_frame r) @ drop (bytesConsumed r) bs"
      using enc by (simp add: bs' r headerSize_def)
    show "bytesConsumed r = length (encode (res_frame r))"
      using enc ok by (simp add: r headerSize_def)
    show "length (frame_payload (res_frame r)) \<le> 1048576"
      using ok by (simp add: r maxPayloadSize_def word_less_nat_alt not_less min_def)
  qed
qed

lemma decode_prefix_stable:
  assumes "decode bs \<noteq> Unexpected Incomplete"
  shows "decode (bs @ extra) = decode bs"
proof -
  have "headerSize \<le> length bs" using assms decode_short [of bs] by fastforce
  then obtain m v fl raw len where bs: "bs = header m v fl raw len @ drop headerSize bs"
    using header_view by blast
  define rest where "rest = drop headerSize bs"
  have bs': "bs = header m v fl raw len @ rest" using bs by (simp add: rest_def)
  show ?thesis using assms unfolding bs' append_assoc decode_header by (auto split: if_splits)
qed

lemma decode_proper_prefix:
  assumes "length (frame_payload fr) \<le> 1048576" and "k < length (encode fr)"
  shows "decode (take k (encode fr)) = Unexpected Incomplete"
proof (cases "k < headerSize")
  case True
  then show ?thesis by (intro decode_short) simp
next
  case False
  then show ?thesis using assms
    by (simp add: encode_header decode_header unat_length_field length_field_too_large
        headerSize_def min_def)
qed

section \<open>Properties\<close>

text \<open>C9. Decoding what \<open>encode\<close> wrote of a payload below \<open>2 ^ 32\<close> bytes, followed by any further bytes, returns the frame and
  consumes exactly its bytes; a payload above the cap, which \<open>encode\<close> does not check, is
  encoded into a frame that every receiver rejects with \<open>PayloadTooLarge\<close>.\<close>

theorem encode_decode_roundtrip:
  assumes "length (frame_payload fr) < 2 ^ 32"
  shows "decode (encode fr @ rest) =
    (if length (frame_payload fr) \<le> unat maxPayloadSize
     then Ok \<lparr>res_frame = fr, bytesConsumed = headerSize + length (frame_payload fr)\<rparr>
     else Unexpected PayloadTooLarge)"
  using decode_encode [OF assms] by (simp add: encode_length maxPayloadSize_def)

theorem encode_decode_roundtrip_witness:
  "decode (encode \<lparr>frame_flags = 0, frame_type = MoveJoint, frame_payload = [7, 1]\<rparr> @ [82]) =
     Ok \<lparr>res_frame = \<lparr>frame_flags = 0, frame_type = MoveJoint, frame_payload = [7, 1]\<rparr>,
       bytesConsumed = 14\<rparr>"
  using encode_decode_roundtrip
    [of "\<lparr>frame_flags = 0, frame_type = MoveJoint, frame_payload = [7, 1]\<rparr>" "[82]"]
  by (simp add: headerSize_def maxPayloadSize_def)

text \<open>C10. \<open>decode\<close> accepts nothing but what \<open>encode\<close> writes: a successful decode has consumed
  exactly the encoding of the frame it returns (so the header has no second form, and the
  payload is within the cap).\<close>

theorem decode_canonical:
  assumes "decode bs = Ok r"
  shows "take (bytesConsumed r) bs = encode (res_frame r) \<and>
    bytesConsumed r = headerSize + length (frame_payload (res_frame r)) \<and>
    length (frame_payload (res_frame r)) \<le> unat maxPayloadSize"
  using assms
proof (rule decode_OkE)
  assume *: "bs = encode (res_frame r) @ drop (bytesConsumed r) bs"
    and n: "bytesConsumed r = length (encode (res_frame r))"
    and l: "length (frame_payload (res_frame r)) \<le> 1048576"
  have "take (bytesConsumed r) bs = encode (res_frame r)"
    by (subst *) (simp add: n)
  then show ?thesis using n l by (simp add: encode_length maxPayloadSize_def)
qed

theorem decode_canonical_witness:
  "take 12 [82, 79, 66, 79, 1, 9, 0, 5, 0, 0, 0, 0, 255] =
     encode \<lparr>frame_flags = 9, frame_type = Home, frame_payload = []\<rparr>"
proof -
  have "decode [82, 79, 66, 79, 1, 9, 0, 5, 0, 0, 0, 0, 255] =
    Ok \<lparr>res_frame = \<lparr>frame_flags = 9, frame_type = Home, frame_payload = []\<rparr>, bytesConsumed = 12\<rparr>"
    by code_simp
  from decode_canonical [OF this] show ?thesis by (simp add: headerSize_def)
qed

text \<open>A verdict other than \<open>Incomplete\<close> is final: more bytes never change it.  So a receiver
  may decode as soon as bytes arrive, and reports a malformed frame without waiting.\<close>

theorem decode_verdict_is_final:
  assumes "decode bs \<noteq> Unexpected Incomplete"
  shows "decode (bs @ extra) = decode bs"
  using assms by (rule decode_prefix_stable)

theorem decode_verdict_is_final_witness:
  "decode ([82, 79, 66, 78, 1, 9, 0, 5, 0, 0, 0, 0] @ [1, 2, 3]) = Unexpected InvalidMagic"
proof -
  have d: "decode [82, 79, 66, 78, 1, 9, 0, 5, 0, 0, 0, 0] = Unexpected InvalidMagic" by code_simp
  show ?thesis unfolding d [symmetric] by (rule decode_verdict_is_final) (simp add: d)
qed

text \<open>A frame cut short anywhere is \<open>Incomplete\<close>, never malformed.\<close>

theorem decode_cut_frame_incomplete:
  assumes "length (frame_payload fr) \<le> unat maxPayloadSize" and "k < length (encode fr)"
  shows "decode (take k (encode fr)) = Unexpected Incomplete"
  using assms by (intro decode_proper_prefix) (simp_all add: maxPayloadSize_def)

theorem decode_cut_frame_incomplete_witness:
  "decode (take 13 (encode \<lparr>frame_flags = 0, frame_type = MoveJoint, frame_payload = [7, 1]\<rparr>)) =
     Unexpected Incomplete"
  by (rule decode_cut_frame_incomplete)
    (simp_all add: encode_length headerSize_def maxPayloadSize_def)

end
