(* ===== verification/Command_Dispatcher.thy ===== *)
theory Command_Dispatcher
  imports Safety Frame_Codec Cli_Payload
begin

text \<open>
  \<open>robot::server::CommandDispatcher\<close> (\<open>include/robot/server/command_dispatcher.hpp\<close>,
  \<open>src/server/command_dispatcher.cpp\<close>).  The three objects the dispatcher borrows are one record,
  the plant; a handler returns the response and the changed plant.
\<close>

section \<open>State and responses\<close>

record plant =
  pl_robot :: robot
  pl_controller :: controller
  pl_brakes :: "virtual_brake list"

datatype response_status = Status_Ok | Status_Error

fun response_code :: "response_status \<Rightarrow> u8" where
  "response_code Status_Ok = 0"
| "response_code Status_Error = 1"

definition kRobotName :: string where
  "kRobotName = ''RE-6AXIS''"

definition okResponse :: "command_type \<Rightarrow> bytes \<Rightarrow> frame" where
  "okResponse ty extra =
     \<lparr>frame_flags = 0, frame_type = ty, frame_payload = [response_code Status_Ok] @ extra\<rparr>"

definition errorResponse :: "command_type \<Rightarrow> frame" where
  "errorResponse ty =
     \<lparr>frame_flags = 0, frame_type = ty, frame_payload = [response_code Status_Error]\<rparr>"

section \<open>Handlers\<close>

abbreviation update_joints :: "(joint \<Rightarrow> joint) \<Rightarrow> robot \<Rightarrow> robot" where
  "update_joints f r \<equiv> r\<lparr>joints := map f (joints r)\<rparr>"

definition status_of :: "plant \<Rightarrow> status_payload" where
  "status_of pl =
     \<lparr>sp_robotName = kRobotName,
      sp_controllerStateName = state_toString (ctl_state (pl_controller pl)),
      sp_joints = map (\<lambda>j. \<lparr>js_positionRadians = position (jstate j),
                     js_velocityRadiansPerSecond = velocity (jstate j)\<rparr>) (joints (pl_robot pl))\<rparr>"

definition handleGetStatus :: "plant \<Rightarrow> frame \<times> plant" where
  "handleGetStatus pl = (okResponse GetStatus (encodeStatusPayload (status_of pl)), pl)"

definition handleEnable :: "plant \<Rightarrow> frame \<times> plant" where
  "handleEnable pl =
     (let pl = pl\<lparr>pl_robot := update_joints Joint_enable (pl_robot pl)\<rparr>;
          pl = pl\<lparr>pl_controller := fst (handleEvent (pl_controller pl) ServoEnable)\<rparr>;
          pl = pl\<lparr>pl_controller := fst (handleEvent (pl_controller pl) ControllerReady)\<rparr>
      in (okResponse Enable [], pl))"

definition handleDisable :: "plant \<Rightarrow> frame \<times> plant" where
  "handleDisable pl =
     (let pl = pl\<lparr>pl_robot := update_joints Joint_disable (pl_robot pl)\<rparr>;
          pl = pl\<lparr>pl_controller := fst (handleEvent (pl_controller pl) ServoDisable)\<rparr>
      in (okResponse Disable [], pl))"

definition handleHome :: "plant \<Rightarrow> frame \<times> plant" where
  "handleHome pl =
     (okResponse Home [], pl\<lparr>pl_robot := update_joints Joint_home (pl_robot pl)\<rparr>)"

definition handleMoveJoint :: "frame \<Rightarrow> plant \<Rightarrow> frame \<times> plant" where
  "handleMoveJoint request pl =
     (case decodeMoveJointPayload (frame_payload request) of
        Inl _ \<Rightarrow> (errorResponse MoveJoint, pl)
      | Inr payload \<Rightarrow>
          let i = unat (mj_jointIndex payload) in
          if Robot_jointCount (pl_robot pl) \<le> i then (errorResponse MoveJoint, pl)
          else case Joint_setTargetPosition (mj_targetRadians payload) (Robot_joint (pl_robot pl) i) of
            Inl _ \<Rightarrow> (errorResponse MoveJoint, pl)
          | Inr j \<Rightarrow>
              let pl = pl\<lparr>pl_robot := (pl_robot pl)\<lparr>joints := (joints (pl_robot pl))[i := j]\<rparr>\<rparr>;
                  pl = (if ctl_state (pl_controller pl) = Ready
                        then pl\<lparr>pl_controller := fst (handleEvent (pl_controller pl) CommandMove)\<rparr>
                        else pl)
              in (okResponse MoveJoint [], pl))"

definition handleStop :: "plant \<Rightarrow> frame \<times> plant" where
  "handleStop pl =
     (let pl = pl\<lparr>pl_controller := fst (handleEvent (pl_controller pl) CommandStop)\<rparr>;
          pl = pl\<lparr>pl_controller := fst (handleEvent (pl_controller pl) StopComplete)\<rparr>
      in (okResponse Stop [], pl))"

definition handleEmergencyStop :: "plant \<Rightarrow> frame \<times> plant" where
  "handleEmergencyStop pl =
     (let (ctl, brakes) = EmergencyStopController_trigger (pl_controller pl) (pl_brakes pl)
      in (okResponse command_type.EmergencyStop [], pl\<lparr>pl_controller := ctl, pl_brakes := brakes\<rparr>))"

definition dispatch :: "frame \<Rightarrow> plant \<Rightarrow> frame \<times> plant" where
  "dispatch request pl =
     (case frame_type request of
        GetStatus \<Rightarrow> handleGetStatus pl
      | Enable \<Rightarrow> handleEnable pl
      | Disable \<Rightarrow> handleDisable pl
      | Home \<Rightarrow> handleHome pl
      | MoveJoint \<Rightarrow> handleMoveJoint request pl
      | Stop \<Rightarrow> handleStop pl
      | command_type.EmergencyStop \<Rightarrow> handleEmergencyStop pl
      | _ \<Rightarrow> (errorResponse (frame_type request), pl))"

lemmas handler_defs = handleGetStatus_def handleEnable_def handleDisable_def handleHome_def
  handleMoveJoint_def handleStop_def handleEmergencyStop_def

section \<open>What a request does to each part of the plant\<close>

text \<open>An accepted move replaces one joint by the joint with the new target.\<close>

definition move_target :: "frame \<Rightarrow> plant \<Rightarrow> (nat \<times> f64) option" where
  "move_target request pl =
     (case decodeMoveJointPayload (frame_payload request) of
        Inl _ \<Rightarrow> None
      | Inr p \<Rightarrow> let i = unat (mj_jointIndex p); x = mj_targetRadians p in
          if i < Robot_jointCount (pl_robot pl) \<and> enabled (Robot_joint (pl_robot pl) i) \<and>
            \<not> x < min_position (limits (Robot_joint (pl_robot pl) i)) \<and>
            \<not> max_position (limits (Robot_joint (pl_robot pl) i)) < x
          then Some (i, x) else None)"

lemma handleMoveJoint_result:
  "handleMoveJoint request pl =
     (case move_target request pl of
        None \<Rightarrow> (errorResponse MoveJoint, pl)
      | Some (i, x) \<Rightarrow> (okResponse MoveJoint [],
          pl\<lparr>pl_robot := (pl_robot pl)\<lparr>joints := (joints (pl_robot pl))
                 [i := (Robot_joint (pl_robot pl) i)\<lparr>target_position := x\<rparr>]\<rparr>,
             pl_controller := (if ctl_state (pl_controller pl) = Ready
               then post_event (pl_controller pl) CommandMove else pl_controller pl)\<rparr>))"
  by (auto simp: handleMoveJoint_def move_target_def Joint_setTargetPosition_def post_event_def
      Let_def split: sum.splits)

text \<open>The events a request posts to the controller.\<close>

lemma dispatch_controller:
  "pl_controller (snd (dispatch request pl)) =
     (case frame_type request of
        Enable \<Rightarrow> post_events (pl_controller pl) [ServoEnable, ControllerReady]
      | Disable \<Rightarrow> post_event (pl_controller pl) ServoDisable
      | MoveJoint \<Rightarrow>
          (if move_target request pl \<noteq> None \<and> ctl_state (pl_controller pl) = Ready
           then post_event (pl_controller pl) CommandMove else pl_controller pl)
      | Stop \<Rightarrow> post_events (pl_controller pl) [CommandStop, StopComplete]
      | command_type.EmergencyStop \<Rightarrow> post_event (pl_controller pl) EStopTriggered
      | _ \<Rightarrow> pl_controller pl)"
  by (cases "frame_type request")
    (simp_all add: dispatch_def handleMoveJoint_result handleGetStatus_def handleEnable_def
      handleDisable_def handleHome_def handleStop_def handleEmergencyStop_def post_event_def split_beta Let_def
      EmergencyStopController_trigger_def split: option.split)

lemma dispatch_brakes:
  "pl_brakes (snd (dispatch request pl)) =
     (if frame_type request = command_type.EmergencyStop then map VirtualBrake_engage (pl_brakes pl)
      else pl_brakes pl)"
  by (cases "frame_type request")
    (simp_all add: dispatch_def handler_defs split_beta Let_def
      EmergencyStopController_trigger_def split: sum.split)

lemma dispatch_robot:
  "pl_robot (snd (dispatch request pl)) =
     (case frame_type request of
        Enable \<Rightarrow> update_joints Joint_enable (pl_robot pl)
      | Disable \<Rightarrow> update_joints Joint_disable (pl_robot pl)
      | Home \<Rightarrow> update_joints Joint_home (pl_robot pl)
      | MoveJoint \<Rightarrow> (case move_target request pl of
            None \<Rightarrow> pl_robot pl
          | Some (i, x) \<Rightarrow> (pl_robot pl)\<lparr>joints := (joints (pl_robot pl))
                 [i := (Robot_joint (pl_robot pl) i)\<lparr>target_position := x\<rparr>]\<rparr>)
      | _ \<Rightarrow> pl_robot pl)"
  by (cases "frame_type request")
    (simp_all add: dispatch_def handleMoveJoint_result handleGetStatus_def handleEnable_def
      handleDisable_def handleHome_def handleStop_def handleEmergencyStop_def split_beta Let_def
      split: option.split)

section \<open>Invariant\<close>

text \<open>The requests that carry no NaN target: all but a \<open>MoveJoint\<close> whose payload decodes to one.\<close>

fun target_is_number :: "frame \<Rightarrow> bool" where
  "target_is_number request =
     (case decodeMoveJointPayload (frame_payload request) of
        Inl _ \<Rightarrow> True
      | Inr p \<Rightarrow> frame_type request \<noteq> MoveJoint \<or> \<not> is_nan (mj_targetRadians p))"

lemma joint_ok_target:
  assumes "joint_ok j" "\<not> is_nan x" "\<not> x < min_position (limits j)" "\<not> max_position (limits j) < x"
  shows "joint_ok (j\<lparr>target_position := x\<rparr>)"
  using assms limits_ok_finite(1,2) [OF joint_okD(1) [OF assms(1)]]
  by (auto simp: joint_ok_def f64_order)

lemma dispatch_robot_ok:
  assumes "robot_ok (pl_robot pl)" and "target_is_number request"
  shows "robot_ok (pl_robot (snd (dispatch request pl)))"
proof (cases "frame_type request")
  case MoveJoint
  show ?thesis
  proof (cases "move_target request pl")
    case None
    then show ?thesis using assms(1) MoveJoint by (simp add: dispatch_robot)
  next
    case (Some ix)
    obtain i x where ix: "ix = (i, x)" by (cases ix)
    have "joint_ok ((Robot_joint (pl_robot pl) i)\<lparr>target_position := x\<rparr>)"
      using assms Some MoveJoint unfolding ix
      by (intro joint_ok_target)
        (auto simp: move_target_def Let_def Robot_joint_def Robot_jointCount_def robot_ok_def
          list_all_length split: sum.splits if_splits)
    then show ?thesis using assms(1) MoveJoint Some ix
      by (simp add: dispatch_robot robot_ok_replace)
  qed
qed (use assms(1) in \<open>auto simp: dispatch_robot intro!: robot_ok_map joint_ok_enable joint_ok_disable
      joint_ok_home dest: joint_okD(1)\<close>)

interpretation dispatch_machine:
  invariant_machine "\<lambda>pl request. snd (dispatch request pl)" target_is_number "\<lambda>pl. robot_ok (pl_robot pl)"
  by unfold_locales (rule dispatch_robot_ok)

section \<open>Responses on the wire\<close>

lemma state_toString_length: "length (state_toString c) \<le> 13"
  by (cases c) simp_all

lemma status_length:
  "length (encodeStatusPayload (status_of pl)) \<le> 27 + 16 * Robot_jointCount (pl_robot pl)"
  using state_toString_length [of "ctl_state (pl_controller pl)"]
  by (simp add: encodeStatusPayload_app writeString_app status_of_def kRobotName_def
      joint_codec.concat_write_length wire_simps Robot_jointCount_def del: map_map)

lemma decode_status_of:
  assumes "Robot_jointCount (pl_robot pl) < 65535"
  shows "decodeStatusPayload (encodeStatusPayload (status_of pl)) = Ok (status_of pl)"
proof -
  have "status_sizes_ok (status_of pl)"
    using assms state_toString_length [of "ctl_state (pl_controller pl)"]
    by (simp add: status_sizes_ok_def status_of_def kRobotName_def Robot_jointCount_def)
  from decode_status_encode [OF this, of "[]"] show ?thesis by simp
qed

lemma decode_move_payload: "decodeMoveJointPayload (encodeMoveJointPayload p) = Ok p"
  using move_codec.read_write [of p "[]"] move_codec.write_length [of p]
  by (simp add: decodeMoveJointPayload_def readMoveJoint_def kEncodedSize_def)

text \<open>Every response fits into a frame.\<close>

lemma dispatch_sendable:
  assumes "Robot_jointCount (pl_robot pl) < 65535"
  shows "length (frame_payload (fst (dispatch request pl))) \<le> 1048576"
  using status_length [of pl] assms
  by (cases "frame_type request")
    (simp_all add: dispatch_def handleMoveJoint_result handleGetStatus_def handleEnable_def handleDisable_def
      handleHome_def handleStop_def handleEmergencyStop_def okResponse_def errorResponse_def split_beta Let_def
      split: option.split)

section \<open>Properties\<close>

text \<open>C15. Every request is answered by a frame that echoes its type: a payload that begins with the
  status byte 0 when the command is implemented and (for a move) accepted, and otherwise the
  single status byte 1, in which case nothing at all has changed.\<close>

theorem every_request_is_answered:
  "let (response, pl') = dispatch request pl in
     frame_type response = frame_type request \<and> frame_flags response = 0 \<and>
     (if frame_type request \<in> {GetStatus, Enable, Disable, Home, Stop, command_type.EmergencyStop} \<or>
         frame_type request = MoveJoint \<and> move_target request pl \<noteq> None
      then hd (frame_payload response) = 0
      else frame_payload response = [1] \<and> pl' = pl)"
  by (cases "frame_type request")
    (auto simp: dispatch_def handleMoveJoint_result handleGetStatus_def handleEnable_def
      handleDisable_def handleHome_def handleStop_def handleEmergencyStop_def split_beta Let_def
      okResponse_def errorResponse_def split: option.split)

text \<open>A plant for the witnesses: one enabled joint, controller in \<open>Ready\<close>.\<close>

definition demo_plant :: plant where
  "demo_plant =
     \<lparr>pl_robot = \<lparr>robot_name = ''demo'', joints = [Joint_enable (Joint_create unit_limits)]\<rparr>,
      pl_controller = \<lparr>ctl_state = Ready\<rparr>, pl_brakes = [VirtualBrake_create]\<rparr>"

definition demo_move :: "f64 \<Rightarrow> frame" where
  "demo_move x = \<lparr>frame_flags = 0, frame_type = MoveJoint,
     frame_payload = encodeMoveJointPayload \<lparr>mj_jointIndex = 0, mj_targetRadians = x\<rparr>\<rparr>"

abbreviation plain_request :: "command_type \<Rightarrow> frame" where
  "plain_request ty \<equiv> \<lparr>frame_flags = 0, frame_type = ty, frame_payload = []\<rparr>"

text \<open>C14. A joint move, as the client encodes it, is accepted iff the joint exists, is enabled and the
  target compares neither below the minimum nor above the maximum; then exactly that joint's
  target is set and a controller in \<open>Ready\<close> becomes \<open>Moving\<close>; otherwise the error leaves the plant
  as it was.\<close>

theorem move_joint_request:
  assumes "frame_type request = MoveJoint" and "frame_payload request = encodeMoveJointPayload p"
  shows "dispatch request pl =
    (let i = unat (mj_jointIndex p); x = mj_targetRadians p; r = pl_robot pl in
     if i < Robot_jointCount r \<and> enabled (Robot_joint r i) \<and>
        \<not> x < min_position (limits (Robot_joint r i)) \<and> \<not> max_position (limits (Robot_joint r i)) < x
     then (okResponse MoveJoint [],
           pl\<lparr>pl_robot := r\<lparr>joints := (joints r)[i := (Robot_joint r i)\<lparr>target_position := x\<rparr>]\<rparr>,
              pl_controller := (if ctl_state (pl_controller pl) = Ready
                then (pl_controller pl)\<lparr>ctl_state := Moving\<rparr> else pl_controller pl)\<rparr>)
     else (errorResponse MoveJoint, pl))"
proof -
  have d: "decodeMoveJointPayload (frame_payload request) = Ok p"
    by (simp add: assms(2) decode_move_payload)
  have c: "post_event (pl_controller pl) CommandMove = (pl_controller pl)\<lparr>ctl_state := Moving\<rparr>"
    if "ctl_state (pl_controller pl) = Ready"
    using that by (simp add: post_event_def handleEvent_documented)
  show ?thesis
    using assms(1) c by (simp add: dispatch_def handleMoveJoint_result move_target_def d Let_def)
qed

theorem move_joint_request_witness:
  "fst (dispatch (demo_move f64_half) demo_plant) = okResponse MoveJoint [] \<and>
   ctl_state (pl_controller (snd (dispatch (demo_move f64_half) demo_plant))) = Moving \<and>
   fst (dispatch (demo_move f64_two) demo_plant) = errorResponse MoveJoint"
proof -
  have "\<not> f64_half < min_position unit_limits" "\<not> max_position unit_limits < f64_half"
    "max_position unit_limits < f64_two"
    by (simp_all add: unit_limits_def f64_literals)
  then show ?thesis
    using move_joint_request [of "demo_move f64_half" "\<lparr>mj_jointIndex = 0, mj_targetRadians = f64_half\<rparr>" demo_plant]
      move_joint_request [of "demo_move f64_two" "\<lparr>mj_jointIndex = 0, mj_targetRadians = f64_two\<rparr>" demo_plant]
    by (simp add: demo_move_def demo_plant_def Robot_jointCount_def Robot_joint_def
        Joint_enable_def Joint_create_def Let_def)
qed

text \<open>\<open>GetStatus\<close> end to end: for a robot of up to 65,534 joints the encoded response is decoded
  by the client, alone or followed by further bytes, to the robot's name, the name of the
  controller's state and the position and velocity of every joint, bit for bit and in order;
  the request changes nothing.\<close>

theorem get_status_end_to_end:
  assumes "frame_type request = GetStatus" and "Robot_jointCount (pl_robot pl) < 65535"
  shows "snd (dispatch request pl) = pl \<and>
    (\<exists>res. decode (encode (fst (dispatch request pl)) @ rest) = Ok res \<and>
       frame_type (res_frame res) = GetStatus \<and> hd (frame_payload (res_frame res)) = 0 \<and>
       decodeStatusPayload (tl (frame_payload (res_frame res))) =
         Ok \<lparr>sp_robotName = ''RE-6AXIS'',
             sp_controllerStateName = state_toString (ctl_state (pl_controller pl)),
             sp_joints = map (\<lambda>j. \<lparr>js_positionRadians = position (jstate j),
               js_velocityRadiansPerSecond = velocity (jstate j)\<rparr>) (joints (pl_robot pl))\<rparr>)"
proof -
  have r: "dispatch request pl = (okResponse GetStatus (encodeStatusPayload (status_of pl)), pl)"
    using assms(1) by (simp add: dispatch_def handleGetStatus_def)
  have "length (frame_payload (okResponse GetStatus (encodeStatusPayload (status_of pl)))) \<le> 1048576"
    using dispatch_sendable [OF assms(2), of request] by (simp add: r)
  then have d: "decode (encode (fst (dispatch request pl)) @ rest) =
      Ok \<lparr>res_frame = okResponse GetStatus (encodeStatusPayload (status_of pl)),
         bytesConsumed = length (encode (fst (dispatch request pl)))\<rparr>"
    by (simp add: r decode_encode)
  show ?thesis
    using decode_status_of [OF assms(2)] d
    by (simp add: r okResponse_def) (simp add: status_of_def kRobotName_def)
qed

theorem get_status_end_to_end_witness:
  "\<exists>res. decode (encode (fst (dispatch (plain_request GetStatus) demo_plant)) @ [1, 2, 3]) = Ok res \<and>
     decodeStatusPayload (tl (frame_payload (res_frame res))) =
       Ok \<lparr>sp_robotName = ''RE-6AXIS'', sp_controllerStateName = ''Ready'',
           sp_joints = [\<lparr>js_positionRadians = 0, js_velocityRadiansPerSecond = 0\<rparr>]\<rparr>"
  using get_status_end_to_end [of "plain_request GetStatus" demo_plant "[1, 2, 3]"]
  by (auto simp: demo_plant_def Robot_jointCount_def Joint_create_def Joint_enable_def)

text \<open>\<open>Disable\<close> does not end a motion: the controller stays \<open>Moving\<close> (there is no transition), so
  after a later \<open>Enable\<close> the controller is still \<open>Moving\<close> and every joint is enabled with the
  target it had, without a new \<open>MoveJoint\<close>.\<close>

theorem disable_does_not_end_motion:
  assumes "ctl_state (pl_controller pl) = Moving"
    and "frame_type dis = Disable" and "frame_type en = Enable"
  shows "let pl' = snd (dispatch en (snd (dispatch dis pl))) in
    ctl_state (pl_controller (snd (dispatch dis pl))) = Moving \<and>
    ctl_state (pl_controller pl') = Moving \<and>
    map target_position (joints (pl_robot pl')) = map target_position (joints (pl_robot pl)) \<and>
    list_all enabled (joints (pl_robot pl'))"
  using assms
  by (simp add: dispatch_controller dispatch_robot post_event_state comp_def list_all_iff Let_def
      Joint_enable_def Joint_disable_def)

theorem disable_does_not_end_motion_witness:
  "ctl_state (pl_controller (snd (dispatch (plain_request Enable) (snd (dispatch (plain_request Disable)
     (demo_plant\<lparr>pl_controller := \<lparr>ctl_state = Moving\<rparr>\<rparr>)))))) = Moving"
  using disable_does_not_end_motion
    [of "demo_plant\<lparr>pl_controller := \<lparr>ctl_state = Moving\<rparr>\<rparr>" "plain_request Disable" "plain_request Enable"]
  by (simp add: Let_def)

end
