(* ===== verification/Control_Loop.thy ===== *)
theory Control_Loop
  imports Controller Robot
begin

text \<open>
  \<open>robot::runtime::ControlLoop\<close> (\<open>include/robot/runtime/\<close>, \<open>src/runtime/control_loop.cpp\<close>).
  The loop borrows the robot and the controller: \<open>step\<close> takes both and returns the robot.  One
  pass of the background thread takes the clock readings of that pass, the controller it finds
  and the outcomes of its compare-and-exchange attempts as inputs.  \<open>steady_clock\<close> durations
  are nanosecond counts, so the \<open>duration_cast\<close>s are the identity.
\<close>

section \<open>State\<close>

datatype control_loop_error = AlreadyRunning | NotRunning

datatype control_loop_frequency = Hz500 | Hz1000 | Hz2000 | Hz5000 | Hz10000

fun frequency_value :: "control_loop_frequency \<Rightarrow> int" where
  "frequency_value Hz500 = 500"
| "frequency_value Hz1000 = 1000"
| "frequency_value Hz2000 = 2000"
| "frequency_value Hz5000 = 5000"
| "frequency_value Hz10000 = 10000"

definition periodFor :: "control_loop_frequency \<Rightarrow> i64" where
  "periodFor frequency = word_of_int (1000000000 div frequency_value frequency)"

record control_loop =
  cl_period :: i64
  cl_running :: bool
  cl_cyclesExecuted :: u64
  cl_threadedCycleCount :: u64
  cl_totalThreadedCycleTimeNs :: i64
  cl_maxJitterNs :: i64
  cl_deadlineMisses :: u64

record control_loop_metrics =
  m_cyclesExecuted :: u64
  m_averageCycleTime :: i64
  m_maxJitter :: i64
  m_deadlineMisses :: u64

definition ControlLoop_create :: "control_loop_frequency \<Rightarrow> control_loop" where
  "ControlLoop_create frequency =
     \<lparr>cl_period = periodFor frequency, cl_running = False, cl_cyclesExecuted = 0,
      cl_threadedCycleCount = 0, cl_totalThreadedCycleTimeNs = 0, cl_maxJitterNs = 0,
      cl_deadlineMisses = 0\<rparr>"

section \<open>Operations\<close>

definition ControlLoop_step :: "controller \<Rightarrow> control_loop \<times> robot \<Rightarrow> control_loop \<times> robot" where
  "ControlLoop_step ctl s =
     (let (cl, r) = s;
          r = (if ctl_state ctl = Moving then Robot_update (cl_period cl) r else r)
      in (cl\<lparr>cl_cyclesExecuted := cl_cyclesExecuted cl + 1\<rparr>, r))"

definition ControlLoop_start ::
    "unit \<Rightarrow> control_loop \<Rightarrow> control_loop \<times> (control_loop_error, unit) expected" where
  "ControlLoop_start _ cl =
     (if cl_running cl then (cl, Unexpected AlreadyRunning)
      else (cl\<lparr>cl_running := True\<rparr>, Ok ()))"

definition ControlLoop_stop ::
    "control_loop \<Rightarrow> control_loop \<times> (control_loop_error, unit) expected" where
  "ControlLoop_stop cl =
     (if \<not> cl_running cl then (cl, Unexpected NotRunning)
      else (cl\<lparr>cl_running := False\<rparr>, Ok ()))"

definition ControlLoop_destroy :: "control_loop \<Rightarrow> control_loop" where
  "ControlLoop_destroy cl = (if cl_running cl then cl\<lparr>cl_running := False\<rparr> else cl)"

text \<open>The destructor is a \<open>stop\<close> whose error, on a loop that is not running, nobody sees.\<close>

lemma ControlLoop_destroy_stops: "ControlLoop_destroy cl = fst (ControlLoop_stop cl)"
  by (simp add: ControlLoop_destroy_def ControlLoop_stop_def)

text \<open>\<open>/\<close> on \<open>std::int64_t\<close> truncates towards zero.\<close>

definition i64_div :: "i64 \<Rightarrow> i64 \<Rightarrow> i64" where
  "i64_div a b = word_of_int (sgn (sint a) * sgn (sint b) * (\<bar>sint a\<bar> div \<bar>sint b\<bar>))"

definition ControlLoop_metrics :: "control_loop \<Rightarrow> control_loop_metrics" where
  "ControlLoop_metrics cl =
     (let threadedCount = cl_threadedCycleCount cl; totalNs = cl_totalThreadedCycleTimeNs cl
      in \<lparr>m_cyclesExecuted = cl_cyclesExecuted cl,
          m_averageCycleTime = (if 0 < threadedCount then i64_div totalNs threadedCount else 0),
          m_maxJitter = cl_maxJitterNs cl,
          m_deadlineMisses = cl_deadlineMisses cl\<rparr>)"

text \<open>
  The compare-and-exchange loop.  \<open>current\<close> is the local copy, \<open>mem\<close> the atomic; each element
  of the list is one attempt, \<open>True\<close> for a spurious failure of the weak exchange.  \<open>None\<close> means
  that the attempts listed do not finish the loop.
\<close>

fun cas_max :: "i64 \<Rightarrow> i64 \<Rightarrow> i64 \<Rightarrow> bool list \<Rightarrow> i64 option" where
  "cas_max candidateNs current mem [] =
     (if \<not> current <s candidateNs then Some mem else None)"
| "cas_max candidateNs current mem (spurious # attempts) =
     (if \<not> current <s candidateNs then Some mem
      else if spurious \<or> mem \<noteq> current then cas_max candidateNs mem mem attempts
      else Some candidateNs)"

definition updateMaxJitter :: "i64 \<Rightarrow> bool list \<Rightarrow> control_loop \<Rightarrow> control_loop option" where
  "updateMaxJitter candidate attempts cl =
     map_option (\<lambda>m. cl\<lparr>cl_maxJitterNs := m\<rparr>)
       (cas_max candidate (cl_maxJitterNs cl) (cl_maxJitterNs cl) attempts)"

text \<open>What one pass of \<open>runLoop\<close> reads.\<close>

record cycle_input =
  ci_controller :: controller
  ci_cycleStart :: i64
  ci_afterWork :: i64
  ci_deadlineCheck :: i64
  ci_attempts :: "bool list"

record run_loop =
  rl_loop :: control_loop
  rl_robot :: robot
  rl_previousCycleStart :: i64
  rl_firstCycle :: bool

definition deviation :: "i64 \<Rightarrow> i64 \<Rightarrow> i64" where
  "deviation actualPeriod period =
     (if period <s actualPeriod then actualPeriod - period else period - actualPeriod)"

definition runLoop_cycle :: "cycle_input \<Rightarrow> run_loop \<Rightarrow> run_loop option" where
  "runLoop_cycle ci s =
     (let cycleStart = ci_cycleStart ci;
          (cl, r) = ControlLoop_step (ci_controller ci) (rl_loop s, rl_robot s);
          cl = cl\<lparr>cl_threadedCycleCount := cl_threadedCycleCount cl + 1\<rparr>;
          workDuration = ci_afterWork ci - cycleStart;
          cl = cl\<lparr>cl_totalThreadedCycleTimeNs := cl_totalThreadedCycleTimeNs cl + workDuration\<rparr>
      in case (if rl_firstCycle s then Some cl
               else updateMaxJitter
                 (deviation (cycleStart - rl_previousCycleStart s) (cl_period cl)) (ci_attempts ci) cl) of
           None \<Rightarrow> None
         | Some cl \<Rightarrow>
             let nextDeadline = cycleStart + cl_period cl;
                 cl = (if nextDeadline \<le>s ci_deadlineCheck ci
                       then cl\<lparr>cl_deadlineMisses := cl_deadlineMisses cl + 1\<rparr> else cl)
             in Some \<lparr>rl_loop = cl, rl_robot = r, rl_previousCycleStart = cycleStart,
                      rl_firstCycle = False\<rparr>)"

fun runLoop :: "cycle_input list \<Rightarrow> run_loop \<Rightarrow> run_loop option" where
  "runLoop [] s = Some s"
| "runLoop (ci # cis) s =
     (case runLoop_cycle ci s of None \<Rightarrow> None | Some s' \<Rightarrow> runLoop cis s')"

interpretation cl: lifecycle ControlLoop_start ControlLoop_stop cl_running AlreadyRunning NotRunning
  by unfold_locales (auto simp: ControlLoop_start_def ControlLoop_stop_def)

fun ControlLoop_call ::
    "control_loop \<Rightarrow> unit lifecycle_call \<Rightarrow> control_loop \<times> (control_loop_error, unit) expected" where
  "ControlLoop_call cl (Call_start u) = ControlLoop_start u cl"
| "ControlLoop_call cl Call_stop = ControlLoop_stop cl"

lemma ControlLoop_call_interface: "ControlLoop_call = cl.call"
  by (intro ext, rename_tac s c, case_tac c) simp_all

section \<open>Lemmas\<close>

lemma period_exact: "sint (periodFor f) * frequency_value f = 1000000000"
  by (cases f) (simp_all add: periodFor_def)

lemma periodFor_pos: "0 < sint (periodFor f)"
  by (cases f) (simp_all add: periodFor_def)

lemma step_period [simp]: "cl_period (fst (ControlLoop_step ctl s)) = cl_period (fst s)"
  by (simp add: ControlLoop_step_def split_beta)

lemma step_fields:
  "cl_cyclesExecuted (fst (ControlLoop_step ctl s)) = cl_cyclesExecuted (fst s) + 1"
  "snd (ControlLoop_step ctl s) =
     (if ctl_state ctl = Moving then Robot_update (cl_period (fst s)) (snd s) else snd s)"
  by (simp_all add: ControlLoop_step_def split_beta)

definition moving_count :: "controller list \<Rightarrow> nat" where
  "moving_count ctls = length (List.filter (\<lambda>c. ctl_state c = Moving) ctls)"

lemma moving_count_simps [simp]:
  "moving_count [] = 0"
  "moving_count (c # cs) = (if ctl_state c = Moving then Suc (moving_count cs) else moving_count cs)"
  by (simp_all add: moving_count_def)

lemma steps_result:
  "cl_cyclesExecuted (fst (foldl (\<lambda>s c. ControlLoop_step c s) s ctls)) =
     cl_cyclesExecuted (fst s) + word_of_nat (length ctls) \<and>
   snd (foldl (\<lambda>s c. ControlLoop_step c s) s ctls) =
     (Robot_update (cl_period (fst s)) ^^ moving_count ctls) (snd s)"
  by (induction ctls arbitrary: s) (simp_all add: step_fields funpow_swap1)

lemma cas_max_result:
  "cas_max cand m m attempts =
     (if \<not> m <s cand then Some m else if False \<in> set attempts then Some cand else None)"
  by (induction attempts) auto

definition smax :: "i64 \<Rightarrow> i64 \<Rightarrow> i64" where
  "smax a b = (if a <s b then b else a)"

lemma updateMaxJitter_result:
  assumes "False \<in> set attempts"
  shows "updateMaxJitter cand attempts cl = Some (cl\<lparr>cl_maxJitterNs := smax (cl_maxJitterNs cl) cand\<rparr>)"
  using assms by (simp add: updateMaxJitter_def cas_max_result smax_def)

lemma sint_smax: "sint (smax a b) = max (sint a) (sint b)"
  by (simp add: smax_def word_sless_alt)

text \<open>The cycle as a total function, when the exchange gets through.\<close>

lemma runLoop_cycle_result:
  assumes "False \<in> set (ci_attempts ci)"
  shows "runLoop_cycle ci s = Some
    \<lparr>rl_loop =
       \<lparr>cl_period = cl_period (rl_loop s), cl_running = cl_running (rl_loop s),
        cl_cyclesExecuted = cl_cyclesExecuted (rl_loop s) + 1,
        cl_threadedCycleCount = cl_threadedCycleCount (rl_loop s) + 1,
        cl_totalThreadedCycleTimeNs =
          cl_totalThreadedCycleTimeNs (rl_loop s) + (ci_afterWork ci - ci_cycleStart ci),
        cl_maxJitterNs =
          (if rl_firstCycle s then cl_maxJitterNs (rl_loop s)
           else smax (cl_maxJitterNs (rl_loop s))
             (deviation (ci_cycleStart ci - rl_previousCycleStart s) (cl_period (rl_loop s)))),
        cl_deadlineMisses = cl_deadlineMisses (rl_loop s) +
          (if ci_cycleStart ci + cl_period (rl_loop s) \<le>s ci_deadlineCheck ci then 1 else 0)\<rparr>,
     rl_robot = snd (ControlLoop_step (ci_controller ci) (rl_loop s, rl_robot s)),
     rl_previousCycleStart = ci_cycleStart ci, rl_firstCycle = False\<rparr>"
  by (simp add: runLoop_cycle_def Let_def split_beta updateMaxJitter_result [OF assms]
      ControlLoop_step_def)

section \<open>Runs of the background loop\<close>

fun start_gaps :: "i64 \<Rightarrow> cycle_input list \<Rightarrow> i64 list" where
  "start_gaps previous [] = []"
| "start_gaps previous (ci # cis) = (ci_cycleStart ci - previous) # start_gaps (ci_cycleStart ci) cis"

definition work_time :: "cycle_input list \<Rightarrow> i64" where
  "work_time cis = sum_list (map (\<lambda>ci. ci_afterWork ci - ci_cycleStart ci) cis)"

definition late_cycles :: "i64 \<Rightarrow> cycle_input list \<Rightarrow> nat" where
  "late_cycles period cis =
     length (List.filter (\<lambda>ci. ci_cycleStart ci + period \<le>s ci_deadlineCheck ci) cis)"

definition attempts_ok :: "cycle_input list \<Rightarrow> bool" where
  "attempts_ok cis \<longleftrightarrow> list_all (\<lambda>ci. False \<in> set (ci_attempts ci)) cis"

lemma run_summaries [simp]:
  "work_time [] = 0" "work_time (ci # cis) = (ci_afterWork ci - ci_cycleStart ci) + work_time cis"
  "late_cycles p [] = 0"
  "late_cycles p (ci # cis) =
     (if ci_cycleStart ci + p \<le>s ci_deadlineCheck ci then Suc (late_cycles p cis) else late_cycles p cis)"
  "attempts_ok []" "attempts_ok (ci # cis) \<longleftrightarrow> False \<in> set (ci_attempts ci) \<and> attempts_ok cis"
  by (simp_all add: work_time_def late_cycles_def attempts_ok_def)

text \<open>The jitter record after a run, from the gaps between cycle starts.\<close>

definition jitter_after :: "i64 \<Rightarrow> i64 \<Rightarrow> i64 list \<Rightarrow> i64" where
  "jitter_after period m gaps = foldl smax m (map (\<lambda>g. deviation g period) gaps)"

lemma jitter_after_bound:
  "sint m \<le> sint (jitter_after period m gaps) \<and>
   list_all (\<lambda>g. sint (deviation g period) \<le> sint (jitter_after period m gaps)) gaps"
  by (induction gaps rule: rev_induct) (auto simp: jitter_after_def sint_smax list_all_iff)

lemma jitter_after_attained:
  "jitter_after period m gaps \<in> insert m ((\<lambda>g. deviation g period) ` set gaps)"
  by (induction gaps rule: rev_induct) (auto simp: jitter_after_def smax_def)

lemma runLoop_result:
  assumes "attempts_ok cis" and "\<not> rl_firstCycle s"
  shows "\<exists>s'. runLoop cis s = Some s' \<and>
    cl_cyclesExecuted (rl_loop s') = cl_cyclesExecuted (rl_loop s) + word_of_nat (length cis) \<and>
    cl_threadedCycleCount (rl_loop s') = cl_threadedCycleCount (rl_loop s) + word_of_nat (length cis) \<and>
    cl_totalThreadedCycleTimeNs (rl_loop s') = cl_totalThreadedCycleTimeNs (rl_loop s) + work_time cis \<and>
    cl_maxJitterNs (rl_loop s') = jitter_after (cl_period (rl_loop s)) (cl_maxJitterNs (rl_loop s))
      (start_gaps (rl_previousCycleStart s) cis) \<and>
    cl_deadlineMisses (rl_loop s') = cl_deadlineMisses (rl_loop s) +
      word_of_nat (late_cycles (cl_period (rl_loop s)) cis) \<and>
    rl_robot s' = (Robot_update (cl_period (rl_loop s)) ^^ moving_count (map ci_controller cis)) (rl_robot s)"
  using assms
proof (induction cis arbitrary: s)
  case (Cons ci cis)
  obtain s1 where s1: "runLoop_cycle ci s = Some s1" "\<not> rl_firstCycle s1"
    using Cons.prems by (simp add: runLoop_cycle_result)
  then show ?case
    using Cons.IH [of s1] Cons.prems s1
    by (auto simp: runLoop_cycle_result step_fields jitter_after_def funpow_swap1)
qed (simp add: jitter_after_def)

lemma runLoop_from_start:
  assumes "attempts_ok cis" and "rl_firstCycle s"
  shows "\<exists>s'. runLoop cis s = Some s' \<and>
    cl_cyclesExecuted (rl_loop s') = cl_cyclesExecuted (rl_loop s) + word_of_nat (length cis) \<and>
    cl_threadedCycleCount (rl_loop s') = cl_threadedCycleCount (rl_loop s) + word_of_nat (length cis) \<and>
    cl_totalThreadedCycleTimeNs (rl_loop s') = cl_totalThreadedCycleTimeNs (rl_loop s) + work_time cis \<and>
    cl_maxJitterNs (rl_loop s') = jitter_after (cl_period (rl_loop s)) (cl_maxJitterNs (rl_loop s))
      (tl (start_gaps (rl_previousCycleStart s) cis)) \<and>
    cl_deadlineMisses (rl_loop s') = cl_deadlineMisses (rl_loop s) +
      word_of_nat (late_cycles (cl_period (rl_loop s)) cis) \<and>
    rl_robot s' = (Robot_update (cl_period (rl_loop s)) ^^ moving_count (map ci_controller cis)) (rl_robot s)"
proof (cases cis)
  case Nil
  then show ?thesis by (simp add: jitter_after_def)
next
  case (Cons ci cis')
  obtain s1 where s1: "runLoop_cycle ci s = Some s1" "\<not> rl_firstCycle s1"
    using assms Cons by (simp add: runLoop_cycle_result)
  then show ?thesis
    using runLoop_result [of cis' s1] assms Cons s1
    by (auto simp: runLoop_cycle_result step_fields jitter_after_def funpow_swap1)
qed

section \<open>Properties\<close>

text \<open>\<open>step\<close> moves the robot in \<open>Moving\<close> only: after any number of steps, with whatever
  controller each of them finds, the robot has been updated by one period exactly as often as
  the controller was \<open>Moving\<close>, and the cycle counter has advanced by the number of steps (modulo
  \<open>2 ^ 64\<close>).  The period is exact: as many cycles as the frequency says take one second.\<close>

theorem control_steps_gate_motion:
  "let (cl', r') = foldl (\<lambda>s ctl. ControlLoop_step ctl s) (ControlLoop_create f, r) ctls in
     r' = (Robot_update (periodFor f) ^^ length (List.filter (\<lambda>ctl. ctl_state ctl = Moving) ctls)) r \<and>
     m_cyclesExecuted (ControlLoop_metrics cl') = word_of_nat (length ctls) \<and>
     sint (periodFor f) * frequency_value f = 10 ^ 9"
  using steps_result [of "(ControlLoop_create f, r)" ctls] period_exact [of f]
  by (simp add: split_beta ControlLoop_metrics_def ControlLoop_create_def moving_count_def Let_def)

text \<open>C18. When each compare-and-exchange loop gets through eventually, a run of the background
  thread finishes every pass, and the metrics are those of the readings: the number of
  cycles, the mean work time, the number of passes whose deadline had gone by, and the largest
  absolute deviation of the start-to-start times from the period (an upper bound of all of
  them, and one of them, or 0).\<close>

theorem control_loop_metrics_exact:
  assumes "attempts_ok cis" and "length cis < 2 ^ 64"
    and "rl_loop s = ControlLoop_create f" and "rl_firstCycle s"
  shows "\<exists>s'. runLoop cis s = Some s' \<and> (let m = ControlLoop_metrics (rl_loop s');
        deviations = map (\<lambda>g. deviation g (periodFor f)) (tl (start_gaps (rl_previousCycleStart s) cis)) in
      unat (m_cyclesExecuted m) = length cis \<and>
      m_averageCycleTime m = (if cis = [] then 0 else i64_div (work_time cis) (word_of_nat (length cis))) \<and>
      unat (m_deadlineMisses m) = late_cycles (periodFor f) cis \<and>
      list_all (\<lambda>d. sint d \<le> sint (m_maxJitter m)) deviations \<and>
      m_maxJitter m \<in> set (0 # deviations))"
proof -
  obtain s' where s': "runLoop cis s = Some s'"
    "cl_cyclesExecuted (rl_loop s') = word_of_nat (length cis)"
    "cl_threadedCycleCount (rl_loop s') = word_of_nat (length cis)"
    "cl_totalThreadedCycleTimeNs (rl_loop s') = work_time cis"
    "cl_maxJitterNs (rl_loop s') = jitter_after (periodFor f) 0
      (tl (start_gaps (rl_previousCycleStart s) cis))"
    "cl_deadlineMisses (rl_loop s') = word_of_nat (late_cycles (periodFor f) cis)"
    using runLoop_from_start [OF assms(1,4)] assms(3) by (auto simp: ControlLoop_create_def)
  have late: "late_cycles (periodFor f) cis \<le> length cis" by (simp add: late_cycles_def)
  have pos: "0 < (word_of_nat (length cis) :: u64) \<longleftrightarrow> cis \<noteq> []"
    using assms(2) by (simp add: word_less_nat_alt unat_of_nat_eq_64)
  show ?thesis
    using s' late assms(2) pos
      jitter_after_bound [of 0 "periodFor f" "tl (start_gaps (rl_previousCycleStart s) cis)"]
      jitter_after_attained [of "periodFor f" 0 "tl (start_gaps (rl_previousCycleStart s) cis)"]
    by (intro exI [of _ s'])
      (auto simp: ControlLoop_metrics_def Let_def list_all_iff unat_of_nat_eq_64)
qed

theorem control_loop_metrics_exact_witness:
  "\<exists>s'. runLoop
      [\<lparr>ci_controller = \<lparr>ctl_state = Idle\<rparr>, ci_cycleStart = 0, ci_afterWork = 10, ci_deadlineCheck = 20,
        ci_attempts = [False]\<rparr>,
       \<lparr>ci_controller = \<lparr>ctl_state = Idle\<rparr>, ci_cycleStart = 1000500, ci_afterWork = 2000400,
        ci_deadlineCheck = 2000600, ci_attempts = [True, False]\<rparr>]
      \<lparr>rl_loop = ControlLoop_create Hz1000, rl_robot = \<lparr>robot_name = ''demo'', joints = []\<rparr>,
       rl_previousCycleStart = 0, rl_firstCycle = True\<rparr> = Some s' \<and>
    unat (m_deadlineMisses (ControlLoop_metrics (rl_loop s'))) = 1 \<and>
    m_maxJitter (ControlLoop_metrics (rl_loop s')) \<in> {0, 500}"
  using control_loop_metrics_exact
    [of "[\<lparr>ci_controller = \<lparr>ctl_state = Idle\<rparr>, ci_cycleStart = 0, ci_afterWork = 10, ci_deadlineCheck = 20,
        ci_attempts = [False]\<rparr>,
       \<lparr>ci_controller = \<lparr>ctl_state = Idle\<rparr>, ci_cycleStart = 1000500, ci_afterWork = 2000400,
        ci_deadlineCheck = 2000600, ci_attempts = [True, False]\<rparr>]"
      "\<lparr>rl_loop = ControlLoop_create Hz1000, rl_robot = \<lparr>robot_name = ''demo'', joints = []\<rparr>,
       rl_previousCycleStart = 0, rl_firstCycle = True\<rparr>" Hz1000]
  by (auto simp: Let_def late_cycles_def deviation_def periodFor_def attempts_ok_def word_sless_alt
      word_sle_eq)

end
