(* ===== verification/Watchdog.thy ===== *)
theory Watchdog
  imports Prelude
begin

text \<open>
  \<open>robot::safety::Watchdog\<close> (\<open>include/robot/safety/watchdog.hpp\<close>, \<open>src/safety/watchdog.cpp\<close>).
  The heartbeat counter and the steady clock are the environment: each operation takes the
  values it reads from them.  \<open>Watchdog_poll\<close> is one pass of the background loop after its
  sleep.  \<open>reset\<close> is a program of three atomic stores, because the background thread may poll
  before, between and after them.
\<close>

section \<open>State and operations\<close>

datatype watchdog_error = AlreadyRunning | NotRunning

record watchdog =
  wd_timeout :: i64
  wd_pollInterval :: i64
  wd_running :: bool
  wd_tripped :: bool
  wd_lastSeenCounter :: u64
  wd_lastChangeTimeNs :: i64

definition Watchdog_create :: "i64 \<Rightarrow> i64 \<Rightarrow> watchdog" where
  "Watchdog_create timeout pollInterval =
     \<lparr>wd_timeout = timeout, wd_pollInterval = pollInterval, wd_running = False,
      wd_tripped = False, wd_lastSeenCounter = 0, wd_lastChangeTimeNs = 0\<rparr>"

definition Watchdog_start ::
    "u64 \<times> i64 \<Rightarrow> watchdog \<Rightarrow> watchdog \<times> (watchdog_error, unit) expected" where
  "Watchdog_start env w =
     (if wd_running w then (w, Unexpected AlreadyRunning)
      else (w\<lparr>wd_running := True, wd_lastSeenCounter := fst env, wd_lastChangeTimeNs := snd env,
              wd_tripped := False\<rparr>, Ok ()))"

definition Watchdog_stop :: "watchdog \<Rightarrow> watchdog \<times> (watchdog_error, unit) expected" where
  "Watchdog_stop w =
     (if \<not> wd_running w then (w, Unexpected NotRunning)
      else (w\<lparr>wd_running := False\<rparr>, Ok ()))"

text \<open>
  \<open>reset\<close> is its atomic stores, in program order: \<open>counter\<close> and \<open>now\<close> are what it reads for the
  second and the third.
\<close>

datatype watchdog_store =
    Store_tripped bool
  | Store_lastSeenCounter u64
  | Store_lastChangeTimeNs i64

fun do_store :: "watchdog \<Rightarrow> watchdog_store \<Rightarrow> watchdog" where
  "do_store w (Store_tripped b) = w\<lparr>wd_tripped := b\<rparr>"
| "do_store w (Store_lastSeenCounter c) = w\<lparr>wd_lastSeenCounter := c\<rparr>"
| "do_store w (Store_lastChangeTimeNs t) = w\<lparr>wd_lastChangeTimeNs := t\<rparr>"

definition reset_stores :: "u64 \<Rightarrow> i64 \<Rightarrow> watchdog_store list" where
  "reset_stores counter now =
     [Store_tripped False, Store_lastSeenCounter counter, Store_lastChangeTimeNs now]"

definition Watchdog_reset :: "u64 \<Rightarrow> i64 \<Rightarrow> watchdog \<Rightarrow> watchdog" where
  "Watchdog_reset counter now w = foldl do_store w (reset_stores counter now)"

text \<open>The decision of one pass, from the loaded values, and its stores.\<close>

definition Watchdog_poll :: "watchdog \<Rightarrow> u64 \<times> i64 \<Rightarrow> watchdog" where
  "Watchdog_poll w sample =
     (let current = fst sample; previous = wd_lastSeenCounter w; now = snd sample in
      if current \<noteq> previous
        then w\<lparr>wd_lastSeenCounter := current, wd_lastChangeTimeNs := now\<rparr>
      else let lastChange = wd_lastChangeTimeNs w in
        if sint (wd_timeout w) \<le> sint (now - lastChange) then w\<lparr>wd_tripped := True\<rparr>
        else w)"

text \<open>
  \<open>reset\<close> against the background thread: each list of samples is polled before the next store,
  what remains of them after the last.
\<close>

fun stores_among_polls :: "(u64 \<times> i64) list list \<Rightarrow> watchdog_store list \<Rightarrow> watchdog \<Rightarrow> watchdog" where
  "stores_among_polls polls [] w = foldl Watchdog_poll w (concat polls)"
| "stores_among_polls [] (st # sts) w = stores_among_polls [] sts (do_store w st)"
| "stores_among_polls (samples # polls) (st # sts) w =
     stores_among_polls polls sts (do_store (foldl Watchdog_poll w samples) st)"

text \<open>
  \<open>runLoop\<close>: per pass, whether a stop is requested before and after the sleep, and what the pass
  samples.  The destructor requests a stop of a running thread; the thread joins.
\<close>

record poll_input =
  pi_stop_before :: bool
  pi_stop_after :: bool
  pi_sample :: "u64 \<times> i64"

fun Watchdog_runLoop :: "poll_input list \<Rightarrow> watchdog \<Rightarrow> watchdog" where
  "Watchdog_runLoop [] w = w"
| "Watchdog_runLoop (p # ps) w =
     (if pi_stop_before p then w
      else if pi_stop_after p then w
      else Watchdog_runLoop ps (Watchdog_poll w (pi_sample p)))"

definition Watchdog_destroy :: "watchdog \<Rightarrow> watchdog" where
  "Watchdog_destroy w = (if wd_running w then w\<lparr>wd_running := False\<rparr> else w)"

interpretation wd: lifecycle Watchdog_start Watchdog_stop wd_running AlreadyRunning NotRunning
  by unfold_locales (auto simp: Watchdog_start_def Watchdog_stop_def)

fun Watchdog_call ::
    "watchdog \<Rightarrow> (u64 \<times> i64) lifecycle_call \<Rightarrow> watchdog \<times> (watchdog_error, unit) expected" where
  "Watchdog_call w (Call_start env) = Watchdog_start env w"
| "Watchdog_call w Call_stop = Watchdog_stop w"

lemma Watchdog_call_interface: "Watchdog_call = wd.call"
  by (intro ext, rename_tac s c, case_tac c) simp_all

section \<open>Runs of polls\<close>

text \<open>
  What the watchdog is for: somewhere in the samples the counter kept one value for at least the
  timeout.
\<close>

definition stalled :: "int \<Rightarrow> (u64 \<times> i64) list \<Rightarrow> bool" where
  "stalled timeout samples \<longleftrightarrow>
     list_ex (\<lambda>k. list_ex (\<lambda>i.
         list_all (\<lambda>j. fst (samples ! j) = fst (samples ! k)) [i..<k] \<and>
         timeout \<le> sint (snd (samples ! k)) - sint (snd (samples ! i))) [0..<k])
       [0..<length samples]"

text \<open>Sample times as a steady clock gives them: non-negative and never decreasing.\<close>

definition steady :: "(u64 \<times> i64) list \<Rightarrow> bool" where
  "steady samples \<longleftrightarrow> list_all (\<lambda>p. 0 \<le> sint (snd p)) samples \<and> sorted (map (\<lambda>p. sint (snd p)) samples)"

lemma sint_diff_nonneg:
  fixes a b :: i64
  assumes "0 \<le> sint a" "0 \<le> sint b"
  shows "sint (b - a) = sint b - sint a"
proof -
  have "sint a < 2 ^ 63" "sint b < 2 ^ 63" using sint_lt [of a] sint_lt [of b] by simp_all
  then show ?thesis using assms by (simp add: sint_word_ariths signed_take_bit_int_eq_self)
qed

text \<open>
  The abstract state of the loop: the last counter value and when it was first seen.
\<close>

definition follows :: "(u64 \<times> i64) list \<Rightarrow> watchdog \<Rightarrow> bool" where
  "follows samples w \<longleftrightarrow> (\<exists>i < length samples.
     samples ! i = (wd_lastSeenCounter w, wd_lastChangeTimeNs w) \<and>
     (\<forall>j < length samples. i \<le> j \<longrightarrow> fst (samples ! j) = wd_lastSeenCounter w) \<and>
     (0 < i \<longrightarrow> fst (samples ! (i - 1)) \<noteq> wd_lastSeenCounter w))"

lemma poll_timeout [simp]: "wd_timeout (Watchdog_poll w p) = wd_timeout w"
  by (simp add: Watchdog_poll_def Let_def)

lemma poll_follows:
  assumes "follows samples w"
  shows "follows (samples @ [p]) (Watchdog_poll w p)"
proof -
  from assms obtain i where i: "i < length samples"
    "samples ! i = (wd_lastSeenCounter w, wd_lastChangeTimeNs w)"
    "\<And>j. j < length samples \<Longrightarrow> i \<le> j \<Longrightarrow> fst (samples ! j) = wd_lastSeenCounter w"
    "0 < i \<Longrightarrow> fst (samples ! (i - 1)) \<noteq> wd_lastSeenCounter w"
    by (auto simp: follows_def)
  show ?thesis
  proof (cases "fst p = wd_lastSeenCounter w")
    case True
    then have "wd_lastSeenCounter (Watchdog_poll w p) = wd_lastSeenCounter w"
      "wd_lastChangeTimeNs (Watchdog_poll w p) = wd_lastChangeTimeNs w"
      by (simp_all add: Watchdog_poll_def Let_def)
    then show ?thesis unfolding follows_def
      using i True by (intro exI [of _ i]) (auto simp: nth_append less_Suc_eq)
  next
    case False
    then have "wd_lastSeenCounter (Watchdog_poll w p) = fst p"
      "wd_lastChangeTimeNs (Watchdog_poll w p) = snd p"
      by (simp_all add: Watchdog_poll_def)
    moreover have "fst (samples ! (length samples - 1)) = wd_lastSeenCounter w"
      using i(1) i(3) [of "length samples - 1"] by simp
    ultimately show ?thesis unfolding follows_def
      using i(1) False by (intro exI [of _ "length samples"]) (auto simp: nth_append less_Suc_eq)
  qed
qed

text \<open>One more sample stalls the counter iff it repeats a value first seen too long ago.\<close>

definition stalls_now :: "int \<Rightarrow> (u64 \<times> i64) list \<Rightarrow> u64 \<times> i64 \<Rightarrow> bool" where
  "stalls_now timeout samples p \<longleftrightarrow> (\<exists>i < length samples.
     (\<forall>j. i \<le> j \<and> j < length samples \<longrightarrow> fst (samples ! j) = fst p) \<and>
     timeout \<le> sint (snd p) - sint (snd (samples ! i)))"

definition stalled_at :: "int \<Rightarrow> (u64 \<times> i64) list \<Rightarrow> nat \<Rightarrow> bool" where
  "stalled_at timeout samples k \<longleftrightarrow> (\<exists>i < k.
     (\<forall>j. i \<le> j \<and> j < k \<longrightarrow> fst (samples ! j) = fst (samples ! k)) \<and>
     timeout \<le> sint (snd (samples ! k)) - sint (snd (samples ! i)))"

lemma stalled_iff: "stalled timeout samples \<longleftrightarrow> (\<exists>k < length samples. stalled_at timeout samples k)"
  by (simp add: stalled_def stalled_at_def list_ex_iff list_all_iff Bex_def Ball_def)

lemma stalled_at_append: "k < length samples \<Longrightarrow> stalled_at timeout (samples @ [p]) k = stalled_at timeout samples k"
  unfolding stalled_at_def
  by (intro ex_cong1 conj_cong refl all_cong1 imp_cong) (simp_all add: nth_append)

lemma stalled_at_last: "stalled_at timeout (samples @ [p]) (length samples) = stalls_now timeout samples p"
  unfolding stalled_at_def stalls_now_def
  by (intro ex_cong1 conj_cong refl all_cong1 imp_cong) (simp_all add: nth_append)

lemma stalled_snoc: "stalled timeout (samples @ [p]) \<longleftrightarrow> stalled timeout samples \<or> stalls_now timeout samples p"
  unfolding stalled_iff using stalled_at_append [of _ samples timeout p] stalled_at_last [of timeout samples p]
  by (auto simp: less_Suc_eq)

lemma steady_snoc: "steady (samples @ [p]) \<longleftrightarrow> steady samples \<and> 0 \<le> sint (snd p) \<and>
    (\<forall>q \<in> set samples. sint (snd q) \<le> sint (snd p))"
  by (auto simp: steady_def sorted_append)

lemma last_change_earliest:
  assumes "steady samples" "i < length samples" "i' < length samples"
    and "0 < i \<Longrightarrow> fst (samples ! (i - 1)) \<noteq> c" "\<forall>j. i' \<le> j \<and> j < length samples \<longrightarrow> fst (samples ! j) = c"
  shows "sint (snd (samples ! i)) \<le> sint (snd (samples ! i'))"
proof -
  have "i \<le> i'"
  proof (rule ccontr)
    assume "\<not> i \<le> i'"
    then have "0 < i" "i' \<le> i - 1" "i - 1 < length samples" using assms(2) by simp_all
    then show False using assms(4,5) by blast
  qed
  then show ?thesis using assms(1,3) unfolding steady_def sorted_iff_nth_mono by simp
qed

lemma poll_trips_iff:
  assumes "follows samples w" and "steady (samples @ [p])"
  shows "wd_tripped (Watchdog_poll w p) \<longleftrightarrow>
    wd_tripped w \<or> stalls_now (sint (wd_timeout w)) samples p"
proof -
  from assms(1) obtain i where i: "i < length samples"
    "samples ! i = (wd_lastSeenCounter w, wd_lastChangeTimeNs w)"
    "\<And>j. j < length samples \<Longrightarrow> i \<le> j \<Longrightarrow> fst (samples ! j) = wd_lastSeenCounter w"
    "0 < i \<Longrightarrow> fst (samples ! (i - 1)) \<noteq> wd_lastSeenCounter w"
    by (auto simp: follows_def)
  have st: "steady samples" "0 \<le> sint (snd p)" using assms(2) by (auto simp: steady_snoc)
  have t0: "0 \<le> sint (wd_lastChangeTimeNs w)"
    using st(1) i(1,2) by (auto simp: steady_def list_all_length)
  note later = last_change_earliest [OF st(1) i(1) _ i(4)]
  have "stalls_now (sint (wd_timeout w)) samples p \<longleftrightarrow>
      fst p = wd_lastSeenCounter w \<and> sint (wd_timeout w) \<le> sint (snd p) - sint (wd_lastChangeTimeNs w)"
  proof
    assume "stalls_now (sint (wd_timeout w)) samples p"
    then obtain i' where i': "i' < length samples"
      "\<forall>j. i' \<le> j \<and> j < length samples \<longrightarrow> fst (samples ! j) = fst p"
      "sint (wd_timeout w) \<le> sint (snd p) - sint (snd (samples ! i'))"
      by (auto simp: stalls_now_def)
    have "fst (samples ! (length samples - 1)) = fst p"
      using i'(1) by (intro i'(2) [rule_format]) auto
    moreover have "fst (samples ! (length samples - 1)) = wd_lastSeenCounter w"
      using i(1) by (intro i(3)) auto
    ultimately have "fst p = wd_lastSeenCounter w" by simp
    with later [OF i'(1)] i' i(2) show "fst p = wd_lastSeenCounter w \<and>
        sint (wd_timeout w) \<le> sint (snd p) - sint (wd_lastChangeTimeNs w)" by auto
  next
    assume "fst p = wd_lastSeenCounter w \<and> sint (wd_timeout w) \<le> sint (snd p) - sint (wd_lastChangeTimeNs w)"
    then show "stalls_now (sint (wd_timeout w)) samples p"
      using i unfolding stalls_now_def by (intro exI [of _ i]) auto
  qed
  then show ?thesis
    using sint_diff_nonneg [OF t0 st(2)] by (auto simp: Watchdog_poll_def Let_def)
qed

lemma polls_invariant:
  assumes "steady (sample0 # samples)" and "Watchdog_start sample0 w0 = (w, Ok ())"
  shows "follows (sample0 # samples) (foldl Watchdog_poll w samples)
    \<and> wd_timeout (foldl Watchdog_poll w samples) = wd_timeout w0
    \<and> (wd_tripped (foldl Watchdog_poll w samples) \<longleftrightarrow> stalled (sint (wd_timeout w0)) (sample0 # samples))"
  using assms(1)
proof (induction samples rule: rev_induct)
  case Nil
  then show ?case using assms(2)
    by (auto simp: Watchdog_start_def follows_def stalled_def split: if_splits)
next
  case (snoc p samples)
  have st: "steady (sample0 # samples)"
    using snoc.prems steady_snoc [of "sample0 # samples" p] by simp
  note IH = snoc.IH [OF st]
  show ?case
    using IH poll_follows [of "sample0 # samples" "foldl Watchdog_poll w samples" p]
      poll_trips_iff [of "sample0 # samples" "foldl Watchdog_poll w samples" p] snoc.prems
      stalled_snoc [of _ "sample0 # samples" p]
    by simp
qed

text \<open>The loop is a run of polls over the samples it takes before it sees a request to stop.\<close>

definition polled :: "poll_input list \<Rightarrow> (u64 \<times> i64) list" where
  "polled ps = map pi_sample (takeWhile (\<lambda>p. \<not> pi_stop_before p \<and> \<not> pi_stop_after p) ps)"

lemma runLoop_polls: "Watchdog_runLoop ps w = foldl Watchdog_poll w (polled ps)"
  by (induction ps arbitrary: w) (simp_all add: polled_def)

section \<open>Properties\<close>

text \<open>C16. The watchdog trips exactly on a stall: after \<open>start\<close> and any number of polls it is tripped
  iff the samples it took contain two at least \<open>timeout\<close> apart between which the counter was
  always the same.  So a loop that advances between polls is never stopped, a loop that hangs
  is always caught at the first poll after the timeout, and a trip is permanent.\<close>

theorem watchdog_trips_iff_stalled:
  assumes "steady (sample0 # samples)" and "Watchdog_start sample0 w0 = (w, Ok ())"
  shows "wd_tripped (foldl Watchdog_poll w samples) \<longleftrightarrow>
    stalled (sint (wd_timeout w0)) (sample0 # samples)"
  using polls_invariant [OF assms] by blast

theorem watchdog_trips_iff_stalled_witness:
  "wd_tripped (foldl Watchdog_poll (fst (Watchdog_start (7, 0) (Watchdog_create 100 10)))
     [(8, 60), (8, 120), (8, 160)]) \<and>
   \<not> wd_tripped (foldl Watchdog_poll (fst (Watchdog_start (7, 0) (Watchdog_create 100 10)))
     [(8, 60), (8, 120), (9, 160), (9, 250)])"
proof
  let ?w = "fst (Watchdog_start (7, 0) (Watchdog_create 100 10))"
  have start: "Watchdog_start (7, 0) (Watchdog_create 100 10) = (?w, Ok ())"
    by (simp add: Watchdog_start_def Watchdog_create_def)
  have "stalled 100 [(7, 0), (8, 60), (8, 120), (8, 160)]" by code_simp
  then show "wd_tripped (foldl Watchdog_poll ?w [(8, 60), (8, 120), (8, 160)])"
    using watchdog_trips_iff_stalled [OF _ start, of "[(8, 60), (8, 120), (8, 160)]"]
    by (simp add: steady_def Watchdog_create_def)
  have "\<not> stalled 100 [(7, 0), (8, 60), (8, 120), (9, 160), (9, 250)]" by code_simp
  then show "\<not> wd_tripped (foldl Watchdog_poll ?w [(8, 60), (8, 120), (9, 160), (9, 250)])"
    using watchdog_trips_iff_stalled [OF _ start, of "[(8, 60), (8, 120), (9, 160), (9, 250)]"]
    by (simp add: steady_def Watchdog_create_def)
qed

text \<open>The same of the background loop, which a stop request may end at any pass: whatever it would
  have sampled afterwards is irrelevant.\<close>

theorem watchdog_loop_trips_iff_stalled:
  assumes "steady (sample0 # polled ps)" and "Watchdog_start sample0 w0 = (w, Ok ())"
  shows "wd_tripped (Watchdog_destroy (Watchdog_runLoop ps w)) \<longleftrightarrow>
    stalled (sint (wd_timeout w0)) (sample0 # polled ps)"
  unfolding runLoop_polls using polls_invariant [OF assms] by (simp add: Watchdog_destroy_def)

text \<open>Without polls the stores are \<open>reset\<close>.\<close>

lemma stores_without_polls: "stores_among_polls [] sts w = foldl do_store w sts"
  by (induction sts arbitrary: w) simp_all

text \<open>A poll that finds the counter unchanged only ever sets the flag.\<close>

lemma polls_of_hung_loop:
  assumes "list_all (\<lambda>p. fst p = wd_lastSeenCounter w) samples"
  shows "foldl Watchdog_poll w samples = w\<lparr>wd_tripped :=
    (wd_tripped w \<or> list_ex (\<lambda>p. sint (wd_timeout w) \<le> sint (snd p - wd_lastChangeTimeNs w)) samples)\<rparr>"
  using assms
proof (induction samples arbitrary: w)
  case (Cons p samples)
  have "Watchdog_poll w p = w\<lparr>wd_tripped :=
      (wd_tripped w \<or> sint (wd_timeout w) \<le> sint (snd p - wd_lastChangeTimeNs w))\<rparr>"
    using Cons.prems by (auto simp: Watchdog_poll_def Let_def)
  then show ?case using Cons.IH [of "Watchdog_poll w p"] Cons.prems by (simp add: disj_assoc)
qed simp

lemma list_ex_all: "list_all P xs \<Longrightarrow> list_ex P xs \<longleftrightarrow> xs \<noteq> []"
  by (induction xs) auto

lemma list_ex_none: "list_all (\<lambda>x. \<not> P x) xs \<Longrightarrow> \<not> list_ex P xs"
  by (induction xs) auto

text \<open>C21. A \<open>reset\<close> can be lost.  While the loop hangs (every poll and the \<open>reset\<close> itself read the
  counter last seen), let the background thread poll \<open>p0\<close> before the first of the three stores of
  \<open>reset\<close>, \<open>p1\<close> and \<open>p2\<close> between them, all at least the timeout after the last change, and \<open>p3\<close>
  after the third, less than the timeout after the time that \<open>reset\<close> has read.  If the two
  gaps between the stores have no poll, the trip is cleared and stays cleared through \<open>p3\<close>; but a poll
  in either gap compares against the old baseline, and the finished \<open>reset\<close> leaves the watchdog
  tripped.\<close>

theorem watchdog_reset_can_be_lost:
  assumes "counter = wd_lastSeenCounter w"
    and "list_all (\<lambda>p. fst p = counter \<and> sint (wd_timeout w) \<le> sint (snd p - wd_lastChangeTimeNs w)) (p0 @ p1 @ p2)"
    and "list_all (\<lambda>p. fst p = counter \<and> sint (snd p - now) < sint (wd_timeout w)) p3"
  shows "wd_tripped (stores_among_polls [p0, p1, p2, p3] (reset_stores counter now) w) \<longleftrightarrow> p1 \<noteq> [] \<or> p2 \<noteq> []"
proof -
  have c: "list_all (\<lambda>p. fst p = wd_lastSeenCounter w) ps" if "ps \<in> {p0, p1, p2, p3}" for ps
    using assms that by (auto simp: list_all_iff)
  have e: "list_ex (\<lambda>p. sint (wd_timeout w) \<le> sint (snd p - wd_lastChangeTimeNs w)) ps \<longleftrightarrow> ps \<noteq> []"
    if "ps \<in> {p1, p2}" for ps
    using assms(2) that by (intro list_ex_all) (auto simp: list_all_iff)
  have n: "\<not> list_ex (\<lambda>p. sint (wd_timeout w) \<le> sint (snd p - now)) p3"
    using assms(3) by (intro list_ex_none) (auto simp: list_all_iff not_le)
  show ?thesis
    using c e n by (simp add: reset_stores_def polls_of_hung_loop assms(1))
qed

theorem watchdog_reset_can_be_lost_witness:
  "let w = \<lparr>wd_timeout = 100, wd_pollInterval = 10, wd_running = True, wd_tripped = True,
        wd_lastSeenCounter = 7, wd_lastChangeTimeNs = 50\<rparr>
   in wd_tripped (stores_among_polls [[], [(7, 200)], [], [(7, 210)]] (reset_stores 7 201) w) \<and>
      \<not> wd_tripped (stores_among_polls [[(7, 200)], [], [], [(7, 210)]] (reset_stores 7 201) w)"
proof -
  let ?w = "\<lparr>wd_timeout = 100, wd_pollInterval = 10, wd_running = True, wd_tripped = True,
      wd_lastSeenCounter = 7, wd_lastChangeTimeNs = 50\<rparr>"
  show ?thesis
    using watchdog_reset_can_be_lost [of 7 ?w "[]" "[(7, 200)]" "[]" 201 "[(7, 210)]"]
      watchdog_reset_can_be_lost [of 7 ?w "[(7, 200)]" "[]" "[]" 201 "[(7, 210)]"]
    by (simp add: Let_def)
qed

end
