(* ===== verification/Emulator.thy ===== *)
theory Emulator
  imports Command_Dispatcher Control_Loop Watchdog Tcp
begin

text \<open>
  The server \<open>apps/robot-emulator/main.cpp\<close>: the scenario it builds, the receive loop, and the
  threads that share the robot and the controller.  The mutex makes each control cycle, each
  dispatched request and each emergency stop atomic, so the threads are interleaved sequences of
  these actions (the mutex itself is in \<open>Threads\<close>).  The socket is the environment: a list of the
  results of \<open>receive\<close>, and for each \<open>send\<close> how it ends.
\<close>

section \<open>The scenario\<close>

definition kJointCount :: nat where
  "kJointCount = 6"

definition defaultLimits :: joint_limits where
  "defaultLimits =
     \<lparr>min_position = - f64_180 * f64_pi / f64_180,
      max_position = f64_180 * f64_pi / f64_180,
      max_velocity = f64_two,
      max_acceleration = f64_five\<rparr>"

definition emulator_config :: robot_config where
  "emulator_config = \<lparr>config_name = ''RE-6AXIS'', config_joints = replicate kJointCount defaultLimits\<rparr>"

record emulator =
  em_plant :: plant
  em_loop :: control_loop
  em_watchdog :: watchdog
  em_alreadyTripped :: bool
  em_responding :: bool

text \<open>
  Everything \<open>main\<close> sets up before it serves.  The control thread already runs when the watchdog is
  started: \<open>early\<close> is the number of its cycles until then, \<open>now\<close> the clock reading of
  \<open>Watchdog::start\<close>.  \<open>None\<close> stands for the two error exits.
\<close>

definition early_cycles :: "nat \<Rightarrow> controller \<Rightarrow> control_loop \<times> robot \<Rightarrow> control_loop \<times> robot" where
  "early_cycles n ctl = (ControlLoop_step ctl ^^ n)"

definition Emulator_start :: "nat \<Rightarrow> i64 \<Rightarrow> emulator option" where
  "Emulator_start early now =
     (case Robot_create emulator_config of
        Inl _ \<Rightarrow> None
      | Inr r \<Rightarrow>
          let ctl = foldl (\<lambda>m e. fst (handleEvent m e)) ControllerStateMachine_create
                      [PowerOn, BootComplete, InitComplete];
              (loop, r) = early_cycles early ctl (ControlLoop_create Hz1000, r);
              (w, result) = Watchdog_start (m_cyclesExecuted (ControlLoop_metrics loop), now)
                              (Watchdog_create 100000000 10000000)
          in if \<not> has_value result then None
             else Some \<lparr>em_plant = \<lparr>pl_robot = r, pl_controller = ctl,
                                    pl_brakes = replicate kJointCount VirtualBrake_create\<rparr>,
                        em_loop = loop, em_watchdog = w, em_alreadyTripped = False, em_responding = False\<rparr>)"

section \<open>The threads\<close>

datatype emu_action =
    Control_cycle
  | Watchdog_pass i64
  | Response_check
  | Response_trigger
  | Client_request frame

definition control_cycle :: "emulator \<Rightarrow> emulator" where
  "control_cycle em =
     (let (loop, r) = ControlLoop_step (pl_controller (em_plant em)) (em_loop em, pl_robot (em_plant em))
      in em\<lparr>em_loop := loop, em_plant := (em_plant em)\<lparr>pl_robot := r\<rparr>\<rparr>)"

definition watchdog_pass :: "i64 \<Rightarrow> emulator \<Rightarrow> emulator" where
  "watchdog_pass now em =
     em\<lparr>em_watchdog := Watchdog_poll (em_watchdog em)
          (m_cyclesExecuted (ControlLoop_metrics (em_loop em)), now)\<rparr>"

text \<open>
  The response thread: the check, which sets \<open>alreadyTripped\<close> without the mutex, and the emergency
  stop, once the mutex is its own.
\<close>

definition response_check :: "emulator \<Rightarrow> emulator" where
  "response_check em =
     (if wd_tripped (em_watchdog em) \<and> \<not> em_alreadyTripped em
      then em\<lparr>em_alreadyTripped := True, em_responding := True\<rparr> else em)"

definition response_trigger :: "emulator \<Rightarrow> emulator" where
  "response_trigger em =
     (if em_responding em
      then let (ctl, brakes) = EmergencyStopController_trigger (pl_controller (em_plant em)) (pl_brakes (em_plant em))
           in em\<lparr>em_responding := False,
                 em_plant := (em_plant em)\<lparr>pl_controller := ctl, pl_brakes := brakes\<rparr>\<rparr>
      else em)"

fun emu_step :: "emulator \<Rightarrow> emu_action \<Rightarrow> emulator" where
  "emu_step em Control_cycle = control_cycle em"
| "emu_step em (Watchdog_pass now) = watchdog_pass now em"
| "emu_step em Response_check = response_check em"
| "emu_step em Response_trigger = response_trigger em"
| "emu_step em (Client_request request) = em\<lparr>em_plant := snd (dispatch request (em_plant em))\<rparr>"

section \<open>The connection\<close>

text \<open>
  \<open>receiveOneFrame\<close>: the result, the buffer and the receives that are left; \<open>None\<close> is \<open>false\<close>,
  also when the listed receives are exhausted.
\<close>

fun receiveOneFrame :: "receives \<Rightarrow> bytes \<Rightarrow> (decode_result \<times> bytes \<times> receives) option" where
  "receiveOneFrame [] received =
     (case decode received of Inr r \<Rightarrow> Some (r, received, []) | Inl _ \<Rightarrow> None)"
| "receiveOneFrame (n # incoming) received =
     (case decode received of
        Inr r \<Rightarrow> Some (r, received, n # incoming)
      | Inl e \<Rightarrow>
          if e \<noteq> Incomplete then None
          else case n of
            Inl _ \<Rightarrow> None
          | Inr chunk \<Rightarrow> receiveOneFrame incoming (received @ chunk))"

text \<open>
  How the \<open>send\<close> of a response ends: it returns with or without success, or the client has closed
  the connection and \<open>SIGPIPE\<close> ends the server.
\<close>

datatype send_end = Sent | Send_failed | Peer_closed

text \<open>
  One connection.  For each frame, the schedule lists the actions of the other threads between
  the decoding and the lock, and how the sending of the response ends.  The result is the final
  state and the byte strings sent; \<open>None\<close>: the process has been ended.
\<close>

fun serve ::
    "(emu_action list \<times> send_end) list \<Rightarrow> receives \<Rightarrow> bytes \<Rightarrow> emulator \<Rightarrow> (emulator \<times> bytes list) option" where
  "serve [] incoming received em = Some (em, [])"
| "serve ((others, sending) # schedule) incoming received em =
     (case receiveOneFrame incoming received of
        None \<Rightarrow> Some (em, [])
      | Some (decoded, received, incoming) \<Rightarrow>
          let received = drop (bytesConsumed decoded) received;
              em = foldl emu_step em others;
              (response, pl) = dispatch (res_frame decoded) (em_plant em);
              em = em\<lparr>em_plant := pl\<rparr>;
              encoded = encode response
          in (case sending of
                Peer_closed \<Rightarrow> None
              | Send_failed \<Rightarrow> Some (em, [])
              | Sent \<Rightarrow> map_option (\<lambda>(em, sent). (em, encoded # sent)) (serve schedule incoming received em)))"

section \<open>The scenario satisfies the invariant\<close>

lemma defaultLimits_exact:
  "defaultLimits = \<lparr>min_position = - f64_pi, max_position = f64_pi,
     max_velocity = f64_two, max_acceleration = f64_five\<rparr>"
  by (simp add: defaultLimits_def degrees_180 degrees_minus_180)

lemma defaultLimits_ok: "limits_ok defaultLimits"
  by (simp add: defaultLimits_exact limits_ok_def JointLimits_validate_def f64_literals)

lemma emulator_robot:
  "Robot_create emulator_config =
     Ok \<lparr>robot_name = ''RE-6AXIS'', joints = replicate kJointCount (Joint_create defaultLimits)\<rparr>"
proof -
  have v: "JointLimits_validate defaultLimits = Ok ()" using defaultLimits_ok by (simp add: limits_ok_def)
  have "list_all (\<lambda>l. JointLimits_validate l = Ok ()) (replicate kJointCount defaultLimits)"
    by (simp add: list_all_iff v)
  then have "validate_all (replicate kJointCount defaultLimits) = Ok ()"
    by (simp add: validate_all_cases)
  then show ?thesis
    by (simp add: Robot_create_def RobotConfig_validate_def emulator_config_def kJointCount_def)
qed

definition started :: "nat \<Rightarrow> i64 \<Rightarrow> emulator" where
  "started early now =
     \<lparr>em_plant = \<lparr>pl_robot = \<lparr>robot_name = ''RE-6AXIS'',
                    joints = replicate kJointCount (Joint_create defaultLimits)\<rparr>,
                  pl_controller = \<lparr>ctl_state = Idle\<rparr>,
                  pl_brakes = replicate kJointCount VirtualBrake_create\<rparr>,
      em_loop = (ControlLoop_create Hz1000)\<lparr>cl_cyclesExecuted := of_nat early\<rparr>,
      em_watchdog = \<lparr>wd_timeout = 100000000, wd_pollInterval = 10000000, wd_running = True,
        wd_tripped = False, wd_lastSeenCounter = of_nat early, wd_lastChangeTimeNs = now\<rparr>,
      em_alreadyTripped = False, em_responding = False\<rparr>"

lemma early_cycles_idle:
  assumes "ctl_state ctl \<noteq> Moving"
  shows "early_cycles n ctl (cl, r) = (cl\<lparr>cl_cyclesExecuted := cl_cyclesExecuted cl + of_nat n\<rparr>, r)"
  unfolding early_cycles_def using assms by (induction n) (simp_all add: ControlLoop_step_def add_ac)

lemma Emulator_start_eq: "Emulator_start early now = Some (started early now)"
proof -
  have "foldl (\<lambda>m e. fst (handleEvent m e)) ControllerStateMachine_create
      [PowerOn, BootComplete, InitComplete] = \<lparr>ctl_state = Idle\<rparr>"
    by (simp add: ControllerStateMachine_create_def handleEvent_documented)
  then show ?thesis
    by (simp add: Emulator_start_def emulator_robot started_def Watchdog_start_def Watchdog_create_def
        early_cycles_idle ControlLoop_metrics_def ControlLoop_create_def Let_def)
qed

section \<open>The system invariant\<close>

definition emulator_ok :: "emulator \<Rightarrow> bool" where
  "emulator_ok em \<longleftrightarrow>
     robot_ok (pl_robot (em_plant em)) \<and>
     map limits (joints (pl_robot (em_plant em))) = replicate kJointCount defaultLimits \<and>
     length (pl_brakes (em_plant em)) = kJointCount"

fun number_request :: "emu_action \<Rightarrow> bool" where
  "number_request (Client_request request) = target_is_number request"
| "number_request _ = True"

lemma dispatch_limits:
  "map limits (joints (pl_robot (snd (dispatch request pl)))) = map limits (joints (pl_robot pl))"
proof (cases "frame_type request")
  case MoveJoint
  then show ?thesis
    by (auto simp: dispatch_robot map_update Robot_joint_def move_target_def Robot_jointCount_def Let_def
        list_eq_iff_nth_eq nth_list_update split: option.splits sum.splits if_splits)
qed (simp_all add: dispatch_robot comp_def)

lemma dispatch_brake_count: "length (pl_brakes (snd (dispatch request pl))) = length (pl_brakes pl)"
  by (simp add: dispatch_brakes)

lemma control_cycle_fields:
  "pl_controller (em_plant (control_cycle em)) = pl_controller (em_plant em)"
  "pl_brakes (em_plant (control_cycle em)) = pl_brakes (em_plant em)"
  "pl_robot (em_plant (control_cycle em)) =
     (if ctl_state (pl_controller (em_plant em)) = Moving
      then Robot_update (cl_period (em_loop em)) (pl_robot (em_plant em)) else pl_robot (em_plant em))"
  "em_watchdog (control_cycle em) = em_watchdog em"
  "em_alreadyTripped (control_cycle em) = em_alreadyTripped em"
  "em_responding (control_cycle em) = em_responding em"
  "cl_period (em_loop (control_cycle em)) = cl_period (em_loop em)"
  by (simp_all add: control_cycle_def split_beta step_fields)

lemma watchdog_pass_fields:
  "em_plant (watchdog_pass now em) = em_plant em" "em_loop (watchdog_pass now em) = em_loop em"
  "em_alreadyTripped (watchdog_pass now em) = em_alreadyTripped em"
  "em_responding (watchdog_pass now em) = em_responding em"
  by (simp_all add: watchdog_pass_def)

lemma response_check_fields:
  "em_plant (response_check em) = em_plant em" "em_loop (response_check em) = em_loop em"
  "em_watchdog (response_check em) = em_watchdog em"
  "em_alreadyTripped (response_check em) = (em_alreadyTripped em \<or> wd_tripped (em_watchdog em))"
  "em_responding (response_check em) = (em_responding em \<or> wd_tripped (em_watchdog em) \<and> \<not> em_alreadyTripped em)"
  by (auto simp: response_check_def)

lemma response_trigger_fields:
  "pl_robot (em_plant (response_trigger em)) = pl_robot (em_plant em)"
  "pl_controller (em_plant (response_trigger em)) =
     (if em_responding em then post_event (pl_controller (em_plant em)) EStopTriggered else pl_controller (em_plant em))"
  "pl_brakes (em_plant (response_trigger em)) =
     (if em_responding em then map VirtualBrake_engage (pl_brakes (em_plant em)) else pl_brakes (em_plant em))"
  "em_watchdog (response_trigger em) = em_watchdog em" "em_loop (response_trigger em) = em_loop em"
  "em_alreadyTripped (response_trigger em) = em_alreadyTripped em" "\<not> em_responding (response_trigger em)"
  by (simp_all add: response_trigger_def split_beta)

lemmas thread_fields = control_cycle_fields watchdog_pass_fields response_check_fields response_trigger_fields

lemma emulator_step_ok:
  assumes "emulator_ok em" and "number_request a"
  shows "emulator_ok (emu_step em a)"
proof (cases a)
  case (Client_request request)
  then show ?thesis
    using assms by (simp add: emulator_ok_def dispatch_limits dispatch_brake_count dispatch_robot_ok)
qed (use assms in \<open>simp_all add: emulator_ok_def thread_fields robot_ok_update comp_def\<close>)

lemma emulator_ok_started: "emulator_ok (started early now)"
  by (simp add: emulator_ok_def started_def robot_ok_def kJointCount_def joint_ok_create defaultLimits_ok
      list_all_iff) (simp add: Joint_create_def)

interpretation emu_machine: invariant_machine emu_step number_request emulator_ok
  by unfold_locales (rule emulator_step_ok)

lemma scenario_bounds:
  assumes "robot_ok r" and "map limits (joints r) = replicate kJointCount defaultLimits"
  shows "Robot_jointCount r = 6"
    and "list_all (\<lambda>j. - f64_pi \<le> position (jstate j) \<and> position (jstate j) \<le> f64_pi \<and>
      - f64_two \<le> velocity (jstate j) \<and> velocity (jstate j) \<le> f64_two) (joints r)"
proof -
  have lim: "limits j = defaultLimits" if "j \<in> set (joints r)" for j
    using assms(2) that by (metis in_set_replicate list.set_map image_eqI)
  have "length (map limits (joints r)) = 6" using assms(2) by (simp add: kJointCount_def)
  then show "Robot_jointCount r = 6" by (simp add: Robot_jointCount_def)
  have "joint_ok j" if "j \<in> set (joints r)" for j
    using assms(1) that by (simp add: robot_ok_def list_all_iff)
  then show "list_all (\<lambda>j. - f64_pi \<le> position (jstate j) \<and> position (jstate j) \<le> f64_pi \<and>
      - f64_two \<le> velocity (jstate j) \<and> velocity (jstate j) \<le> f64_two) (joints r)"
    using lim joint_okD by (fastforce simp: list_all_iff defaultLimits_exact)
qed

lemma emulator_ok_bounds:
  assumes "emulator_ok em"
  shows "Robot_jointCount (pl_robot (em_plant em)) = 6" and "length (pl_brakes (em_plant em)) = 6"
    and "list_all (\<lambda>j. - f64_pi \<le> position (jstate j) \<and> position (jstate j) \<le> f64_pi \<and>
      - f64_two \<le> velocity (jstate j) \<and> velocity (jstate j) \<le> f64_two) (joints (pl_robot (em_plant em)))"
  using assms scenario_bounds [of "pl_robot (em_plant em)"] by (simp_all add: emulator_ok_def kJointCount_def)

section \<open>The latched emergency stop\<close>

text \<open>
  The server has no path to \<open>EStopReset\<close>, and it cannot post \<open>FaultDetected\<close> either; so the
  stopped state is never left.  Positions and velocities are frozen, except by \<open>Home\<close>.
\<close>

definition stopped :: "emulator \<Rightarrow> bool" where
  "stopped em \<longleftrightarrow> ctl_state (pl_controller (em_plant em)) = controller_state.EmergencyStop \<and>
     list_all VirtualBrake_isEngaged (pl_brakes (em_plant em))"

definition joint_states :: "emulator \<Rightarrow> joint_state list" where
  "joint_states em = map jstate (joints (pl_robot (em_plant em)))"

fun not_home_request :: "emu_action \<Rightarrow> bool" where
  "not_home_request (Client_request request) = (frame_type request \<noteq> Home)"
| "not_home_request _ = True"

lemma estop_post_event:
  "ctl_state m = controller_state.EmergencyStop \<Longrightarrow> e \<noteq> EStopReset \<Longrightarrow> e \<noteq> FaultDetected \<Longrightarrow>
   ctl_state (post_event m e) = controller_state.EmergencyStop"
  by (cases e) (simp_all add: post_event_state)

lemma stopped_step: "stopped em \<Longrightarrow> stopped (emu_step em a)"
proof (cases a)
  case (Client_request request)
  assume "stopped em"
  then show ?thesis using Client_request
    by (cases "frame_type request")
      (simp_all add: stopped_def dispatch_controller dispatch_brakes estop_post_event engaged_all)
qed (simp_all add: stopped_def thread_fields estop_post_event engaged_all)

lemma stopped_joint_states:
  assumes "stopped em" and "not_home_request a"
  shows "joint_states (emu_step em a) = joint_states em"
proof (cases a)
  case (Client_request request)
  show ?thesis
  proof (cases "frame_type request")
    case MoveJoint
    then show ?thesis using Client_request
      by (auto simp: joint_states_def dispatch_robot Robot_joint_def move_target_def Robot_jointCount_def Let_def
          list_eq_iff_nth_eq nth_list_update split: option.splits sum.splits if_splits)
  qed (use Client_request assms in \<open>simp_all add: joint_states_def dispatch_robot comp_def\<close>)
qed (use assms in \<open>simp_all add: joint_states_def stopped_def thread_fields\<close>)

interpretation stopped_machine: invariant_machine emu_step "\<lambda>_. True" stopped
  by unfold_locales (rule stopped_step)

interpretation parked_machine: framed_machine emu_step not_home_request stopped joint_states
  by unfold_locales (simp_all add: stopped_step stopped_joint_states)

section \<open>The one-shot watchdog response\<close>

definition response_spent :: "emulator \<Rightarrow> bool" where
  "response_spent em \<longleftrightarrow> em_alreadyTripped em \<and> \<not> em_responding em \<and> ctl_state (pl_controller (em_plant em)) \<noteq> controller_state.EmergencyStop"

fun not_estop_request :: "emu_action \<Rightarrow> bool" where
  "not_estop_request (Client_request request) = (frame_type request \<noteq> command_type.EmergencyStop)"
| "not_estop_request _ = True"

lemma no_estop_event:
  "ctl_state m \<noteq> controller_state.EmergencyStop \<Longrightarrow> e \<noteq> EStopTriggered \<Longrightarrow> ctl_state (post_event m e) \<noteq> controller_state.EmergencyStop"
  by (cases e) (simp_all add: post_event_state)

lemma response_spent_step:
  assumes "response_spent em" and "not_estop_request a"
  shows "response_spent (emu_step em a)"
proof (cases a)
  case (Client_request request)
  then show ?thesis using assms
    by (cases "frame_type request")
      (simp_all add: response_spent_def dispatch_controller no_estop_event)
qed (use assms in \<open>simp_all add: response_spent_def thread_fields\<close>)

interpretation spent_machine: invariant_machine emu_step not_estop_request response_spent
  by unfold_locales (rule response_spent_step)

section \<open>Streams of frames\<close>

definition sendable_frame :: "frame \<Rightarrow> bool" where
  "sendable_frame fr \<longleftrightarrow> length (frame_payload fr) \<le> unat maxPayloadSize"

lemma decode_sendable:
  assumes "sendable_frame fr"
  shows "decode (encode fr @ rest) = Ok \<lparr>res_frame = fr, bytesConsumed = length (encode fr)\<rparr>"
  using assms by (simp add: sendable_frame_def maxPayloadSize_def decode_encode)

lemma decode_cut:
  assumes "sendable_frame fr" and "received @ chunks = encode fr @ rest" and "length received < length (encode fr)"
  shows "decode received = Unexpected Incomplete"
proof -
  have "received = take (length received) (received @ chunks)" by simp
  also have "\<dots> = take (length received) (encode fr)"
    unfolding assms(2) using assms(3) by simp
  finally show ?thesis
    using decode_proper_prefix [of fr "length received"] assms(1,3)
    by (simp add: sendable_frame_def maxPayloadSize_def)
qed

lemma receive_frame:
  assumes "sendable_frame fr" and "received @ concat chunks = encode fr @ rest"
  shows "\<exists>received' chunks'. receiveOneFrame (map Inr chunks) received =
      Some (\<lparr>res_frame = fr, bytesConsumed = length (encode fr)\<rparr>, received', map Inr chunks') \<and>
    drop (length (encode fr)) received' @ concat chunks' = rest"
  using assms(2)
proof (induction chunks arbitrary: received)
  case Nil
  then show ?case using decode_sendable [OF assms(1), of rest] by simp
next
  case (Cons chunk chunks)
  show ?case
  proof (cases "length received < length (encode fr)")
    case True
    then have "decode received = Unexpected Incomplete"
      using decode_cut [OF assms(1) Cons.prems] by simp
    then show ?thesis using Cons.IH [of "received @ chunk"] Cons.prems by simp
  next
    case False
    then have le: "length (encode fr) \<le> length received" by simp
    note sp = append_split [OF Cons.prems le]
    have "decode received = Ok \<lparr>res_frame = fr, bytesConsumed = length (encode fr)\<rparr>"
      by (subst sp(1)) (rule decode_sendable [OF assms(1)])
    then show ?thesis using sp(2) by (intro exI [of _ received] exI [of _ "chunk # chunks"]) simp
  qed
qed

text \<open>The same connection without a byte stream: the frames are handed over one by one.\<close>

fun serve_frames ::
    "(emu_action list \<times> send_end) list \<Rightarrow> frame list \<Rightarrow> emulator \<Rightarrow> (emulator \<times> bytes list) option" where
  "serve_frames [] frames em = Some (em, [])"
| "serve_frames (_ # schedule) [] em = Some (em, [])"
| "serve_frames ((others, sending) # schedule) (fr # frames) em =
     (let em = foldl emu_step em others;
          response = fst (dispatch fr (em_plant em));
          em = emu_step em (Client_request fr)
      in case sending of
           Peer_closed \<Rightarrow> None
         | Send_failed \<Rightarrow> Some (em, [])
         | Sent \<Rightarrow> map_option (\<lambda>(em, sent). (em, encode response # sent)) (serve_frames schedule frames em))"

lemma receive_nothing: "concat chunks = [] \<Longrightarrow> receiveOneFrame (map Inr chunks) [] = None"
  by (induction chunks) (simp_all add: decode_short headerSize_def)

lemma serve_stream:
  assumes "list_all sendable_frame frames"
    and "received @ concat chunks = concat (map encode frames)"
  shows "serve schedule (map Inr chunks) received em = serve_frames schedule frames em"
  using assms
proof (induction schedule arbitrary: frames chunks received em)
  case (Cons step schedule)
  obtain others sending where step: "step = (others, sending)" by (cases step)
  show ?case
  proof (cases frames)
    case Nil
    then have "received = []" "concat chunks = []" using Cons.prems(2) by simp_all
    then show ?thesis using Nil step by (simp add: receive_nothing del: concat_eq_Nil_conv)
  next
    case (Cons fr frames')
    have fr: "sendable_frame fr" "list_all sendable_frame frames'" using Cons.prems(1) Cons by simp_all
    obtain received' chunks' where r: "receiveOneFrame (map Inr chunks) received =
        Some (\<lparr>res_frame = fr, bytesConsumed = length (encode fr)\<rparr>, received', map Inr chunks')"
      "drop (length (encode fr)) received' @ concat chunks' = concat (map encode frames')"
      using receive_frame [OF fr(1), of received chunks "concat (map encode frames')"] Cons.prems(2) Cons
      by auto
    show ?thesis
      using Cons.IH [OF fr(2) r(2)] r(1) Cons step by (simp add: split_beta Let_def split: send_end.split)
  qed
qed simp

section \<open>Properties\<close>

text \<open>C2. The server, from start-up, with its threads interleaved in any order and any requests whose
  move targets are not NaN: every joint stays within plus and minus pi (the doubles that
  \<open>-180.0 * pi / 180.0\<close> and \<open>180.0 * pi / 180.0\<close> evaluate to) and within 2 radians per second, and
  there are always six joints and six brakes.\<close>

theorem emulator_stays_within_limits:
  assumes "list_all number_request actions"
  shows "\<exists>em0. Emulator_start early now = Some em0 \<and> (let pl = em_plant (foldl emu_step em0 actions) in
    Robot_jointCount (pl_robot pl) = 6 \<and> length (pl_brakes pl) = 6 \<and>
    list_all (\<lambda>j. - f64_pi \<le> position (jstate j) \<and> position (jstate j) \<le> f64_pi \<and>
      - f64_two \<le> velocity (jstate j) \<and> velocity (jstate j) \<le> f64_two) (joints (pl_robot pl)))"
proof -
  have "emulator_ok (foldl emu_step (started early now) actions)"
    using emulator_ok_started assms by (rule emu_machine.run_inv)
  from emulator_ok_bounds [OF this] show ?thesis by (simp add: Emulator_start_eq Let_def)
qed

theorem emulator_stays_within_limits_witness:
  "\<exists>em0. Emulator_start 3 0 = Some em0 \<and>
     length (pl_brakes (em_plant (foldl emu_step em0
       [Client_request (plain_request Enable), Client_request (demo_move f64_half), Control_cycle]))) = 6"
proof -
  have "decodeMoveJointPayload (frame_payload (demo_move f64_half)) =
      Ok \<lparr>mj_jointIndex = 0, mj_targetRadians = f64_half\<rparr>"
    using move_codec.read_write [of "\<lparr>mj_jointIndex = 0, mj_targetRadians = f64_half\<rparr>" "[]"]
      move_codec.write_length [of "\<lparr>mj_jointIndex = 0, mj_targetRadians = f64_half\<rparr>"]
    by (simp add: demo_move_def decodeMoveJointPayload_def readMoveJoint_def kEncodedSize_def)
  then have "target_is_number (demo_move f64_half)" by (simp add: f64_literals)
  moreover have "target_is_number (plain_request Enable)"
    by (simp add: decodeMoveJointPayload_def kEncodedSize_def)
  ultimately show ?thesis
    using emulator_stays_within_limits
      [of "[Client_request (plain_request Enable), Client_request (demo_move f64_half), Control_cycle]" 3 0]
    by (auto simp: Let_def simp del: target_is_number.simps)
qed

text \<open>A server for the witnesses, after start-up with its controller in the given state.\<close>

definition demo_emulator :: "controller_state \<Rightarrow> emulator" where
  "demo_emulator st =
     (started 0 0)\<lparr>em_plant := (em_plant (started 0 0))\<lparr>pl_controller := \<lparr>ctl_state = st\<rparr>\<rparr>\<rparr>"

text \<open>C3. Once stopped, the server stays stopped: whatever the threads and the clients do, the
  controller remains in \<open>EmergencyStop\<close> with every brake engaged (no request leads to
  \<open>EStopReset\<close>); and as long as no \<open>Home\<close> arrives no joint's position, velocity or
  acceleration changes.\<close>

theorem emergency_stop_is_latched:
  assumes "ctl_state (pl_controller (em_plant em)) = controller_state.EmergencyStop"
    and "list_all VirtualBrake_isEngaged (pl_brakes (em_plant em))"
  shows "let em' = foldl emu_step em actions in
    ctl_state (pl_controller (em_plant em')) = controller_state.EmergencyStop \<and>
    list_all VirtualBrake_isEngaged (pl_brakes (em_plant em')) \<and>
    (list_all not_home_request actions \<longrightarrow>
      map jstate (joints (pl_robot (em_plant em'))) = map jstate (joints (pl_robot (em_plant em))))"
proof -
  have st: "stopped em" using assms by (simp add: stopped_def)
  have "stopped (foldl emu_step em actions)"
    using st by (rule stopped_machine.run_inv) (simp add: list_all_iff)
  then show ?thesis
    using parked_machine.run_obs [OF st, of actions]
    by (simp add: stopped_def joint_states_def Let_def)
qed

theorem emergency_stop_is_latched_witness:
  "let em' = foldl emu_step (demo_emulator controller_state.EmergencyStop)
     [Client_request (plain_request Enable), Client_request (demo_move quiet_nan), Control_cycle,
      Response_check, Response_trigger, Client_request (plain_request Home), Client_request (plain_request Stop)] in
   ctl_state (pl_controller (em_plant em')) = controller_state.EmergencyStop \<and>
   list_all VirtualBrake_isEngaged (pl_brakes (em_plant em'))"
  using emergency_stop_is_latched [of "demo_emulator controller_state.EmergencyStop"
    "[Client_request (plain_request Enable), Client_request (demo_move quiet_nan), Control_cycle,
      Response_check, Response_trigger, Client_request (plain_request Home), Client_request (plain_request Stop)]"]
  by (simp add: Let_def demo_emulator_def started_def list_all_iff VirtualBrake_isEngaged_def VirtualBrake_create_def)

text \<open>The response is given once only: after a trip that the controller did not accept (it was not
  powered), no later hang leads to an emergency stop; only a client's request does.\<close>

theorem spent_response_never_stops:
  assumes "em_alreadyTripped em" "\<not> em_responding em"
    and "ctl_state (pl_controller (em_plant em)) \<noteq> controller_state.EmergencyStop"
    and "list_all not_estop_request actions"
  shows "ctl_state (pl_controller (em_plant (foldl emu_step em actions))) \<noteq> controller_state.EmergencyStop"
  using spent_machine.run_inv [of em actions] assms by (simp add: response_spent_def)

theorem spent_response_never_stops_witness:
  "let em = foldl emu_step (demo_emulator Idle) [Watchdog_pass 100000000, Response_check, Response_trigger] in
     ctl_state (pl_controller (em_plant (foldl emu_step em
       [Client_request (plain_request Enable), Control_cycle, Watchdog_pass 900000000, Response_check, Response_trigger])))
     \<noteq> controller_state.EmergencyStop"
proof -
  let ?em = "foldl emu_step (demo_emulator Idle) [Watchdog_pass 100000000, Response_check, Response_trigger]"
  have "wd_tripped (em_watchdog (watchdog_pass 100000000 (demo_emulator Idle)))"
    by (simp add: watchdog_pass_def Watchdog_poll_def demo_emulator_def started_def ControlLoop_create_def
        ControlLoop_metrics_def Let_def)
  then have "em_alreadyTripped ?em" "\<not> em_responding ?em" "ctl_state (pl_controller (em_plant ?em)) = Idle"
    by (simp_all add: thread_fields post_event_state) (simp add: demo_emulator_def)
  then show ?thesis
    using spent_response_never_stops [of ?em
      "[Client_request (plain_request Enable), Control_cycle, Watchdog_pass 900000000, Response_check, Response_trigger]"]
    by (simp add: Let_def del: foldl.simps)
qed

text \<open>C6. The connection handles the requests in order and answers each before the next, however the bytes of
  their frames (within the payload cap) are split into receives, whatever the other threads do in
  between and however each send ends: it behaves as if the frames were handed to the dispatcher one
  by one.\<close>

theorem serve_is_independent_of_chunking:
  assumes "list_all (\<lambda>fr. length (frame_payload fr) \<le> unat maxPayloadSize) frames"
    and "concat chunks = concat (map encode frames)"
  shows "serve schedule (map Ok chunks) [] em = serve_frames schedule frames em"
  using assms by (intro serve_stream) (simp_all add: sendable_frame_def list_all_iff)

theorem serve_is_independent_of_chunking_witness:
  "serve [([], Sent), ([Control_cycle], Sent)] (map Ok [take 5 (encode (plain_request Enable)),
       drop 5 (encode (plain_request Enable)) @ encode (plain_request Stop)]) [] (demo_emulator Idle) =
   serve_frames [([], Sent), ([Control_cycle], Sent)] [plain_request Enable, plain_request Stop] (demo_emulator Idle)"
  by (rule serve_is_independent_of_chunking) (simp_all add: maxPayloadSize_def)

end
