(* ===== verification/Sockets.thy ===== *)
theory Sockets
  imports Tcp
begin

text \<open>
  Who owns which socket: the constructors, the moves and the destructors of \<open>TcpConnection\<close> and
  \<open>TcpListener\<close> (\<open>src/protocol/tcp_connection.cpp\<close>, \<open>tcp_listener.cpp\<close>) over the table of open file
  descriptors.  Whether a system call succeeds is an argument; the descriptor the system hands
  out is \<open>fresh\<close> of the open ones, of which POSIX promises only that it is not open.
\<close>

section \<open>Descriptors\<close>

record kernel =
  open_fds :: "int set"
  bad_closes :: nat

definition allocates :: "(int set \<Rightarrow> int) \<Rightarrow> bool" where
  "allocates fresh \<longleftrightarrow> (\<forall>S. finite S \<longrightarrow> 0 \<le> fresh S \<and> fresh S \<notin> S)"

text \<open>A call that yields a descriptor (\<open>::socket\<close>, \<open>::accept\<close>), and \<open>::close\<close>, which fails on one that is not open.\<close>

definition sys_new_fd :: "(int set \<Rightarrow> int) \<Rightarrow> bool \<Rightarrow> kernel \<Rightarrow> int \<times> kernel" where
  "sys_new_fd fresh ok k =
     (if ok then (fresh (open_fds k), k\<lparr>open_fds := insert (fresh (open_fds k)) (open_fds k)\<rparr>) else (- 1, k))"

definition sys_close :: "int \<Rightarrow> kernel \<Rightarrow> kernel" where
  "sys_close fd k =
     (if fd \<in> open_fds k then k\<lparr>open_fds := open_fds k - {fd}\<rparr> else k\<lparr>bad_closes := Suc (bad_closes k)\<rparr>)"

section \<open>Connections\<close>

record tcp_connection =
  connection_fd :: int

definition TcpConnection_destroy :: "tcp_connection \<Rightarrow> kernel \<Rightarrow> kernel" where
  "TcpConnection_destroy c k = (if 0 \<le> connection_fd c then sys_close (connection_fd c) k else k)"

definition TcpConnection_move :: "tcp_connection \<Rightarrow> tcp_connection \<times> tcp_connection" where
  "TcpConnection_move other = (\<lparr>connection_fd = connection_fd other\<rparr>, other\<lparr>connection_fd := - 1\<rparr>)"

text \<open>Move assignment; \<open>same\<close> says that both operands are one object.\<close>

definition TcpConnection_assign ::
    "bool \<Rightarrow> tcp_connection \<Rightarrow> tcp_connection \<Rightarrow> kernel \<Rightarrow> (tcp_connection \<times> tcp_connection) \<times> kernel" where
  "TcpConnection_assign same this other k =
     (if \<not> same then
        let k = (if 0 \<le> connection_fd this then sys_close (connection_fd this) k else k)
        in ((this\<lparr>connection_fd := connection_fd other\<rparr>, other\<lparr>connection_fd := - 1\<rparr>), k)
      else ((this, other), k))"

definition connectTo ::
    "(int set \<Rightarrow> int) \<Rightarrow> bool \<Rightarrow> int \<Rightarrow> int \<Rightarrow> kernel \<Rightarrow> (transport_error, tcp_connection) expected \<times> kernel" where
  "connectTo fresh socket_ok inet_pton_result connect_result k =
     (let (fd, k) = sys_new_fd fresh socket_ok k
      in if fd < 0 then (Unexpected ConnectFailed, k)
         else if inet_pton_result \<noteq> 1 then (Unexpected ConnectFailed, sys_close fd k)
         else if connect_result < 0 then (Unexpected ConnectFailed, sys_close fd k)
         else (Ok \<lparr>connection_fd = fd\<rparr>, k))"

section \<open>Listeners\<close>

record tcp_listener =
  listener_fd :: int
  listener_port :: u16

definition TcpListener_destroy :: "tcp_listener \<Rightarrow> kernel \<Rightarrow> kernel" where
  "TcpListener_destroy l k = (if 0 \<le> listener_fd l then sys_close (listener_fd l) k else k)"

definition TcpListener_move :: "tcp_listener \<Rightarrow> tcp_listener \<times> tcp_listener" where
  "TcpListener_move other =
     (\<lparr>listener_fd = listener_fd other, listener_port = listener_port other\<rparr>, other\<lparr>listener_fd := - 1\<rparr>)"

definition TcpListener_assign ::
    "bool \<Rightarrow> tcp_listener \<Rightarrow> tcp_listener \<Rightarrow> kernel \<Rightarrow> (tcp_listener \<times> tcp_listener) \<times> kernel" where
  "TcpListener_assign same this other k =
     (if \<not> same then
        let k = (if 0 \<le> listener_fd this then sys_close (listener_fd this) k else k)
        in ((this\<lparr>listener_fd := listener_fd other, listener_port := listener_port other\<rparr>,
             other\<lparr>listener_fd := - 1\<rparr>), k)
      else ((this, other), k))"

text \<open>\<open>bound_port\<close> is the port that \<open>::getsockname\<close> reports, in host byte order.\<close>

definition TcpListener_create ::
    "(int set \<Rightarrow> int) \<Rightarrow> bool \<Rightarrow> int \<Rightarrow> int \<Rightarrow> int \<Rightarrow> u16 \<Rightarrow> kernel \<Rightarrow>
       (transport_error, tcp_listener) expected \<times> kernel" where
  "TcpListener_create fresh socket_ok bind_result listen_result getsockname_result bound_port k =
     (let (fd, k) = sys_new_fd fresh socket_ok k
      in if fd < 0 then (Unexpected BindFailed, k)
         else if bind_result < 0 then (Unexpected BindFailed, sys_close fd k)
         else if listen_result < 0 then (Unexpected ListenFailed, sys_close fd k)
         else if getsockname_result < 0 then (Unexpected BindFailed, sys_close fd k)
         else (Ok \<lparr>listener_fd = fd, listener_port = bound_port\<rparr>, k))"

definition TcpListener_port :: "tcp_listener \<Rightarrow> u16" where
  "TcpListener_port l = listener_port l"

definition TcpListener_accept ::
    "(int set \<Rightarrow> int) \<Rightarrow> bool \<Rightarrow> tcp_listener \<Rightarrow> kernel \<Rightarrow> (transport_error, tcp_connection) expected \<times> kernel" where
  "TcpListener_accept fresh accept_ok l k =
     (let (clientFd, k) = sys_new_fd fresh (accept_ok \<and> listener_fd l \<in> open_fds k) k
      in if clientFd < 0 then (Unexpected AcceptFailed, k) else (Ok \<lparr>connection_fd = clientFd\<rparr>, k))"

section \<open>Programs over sockets\<close>

text \<open>
  A program holds sockets in variables, each a connection or a listener during its lifetime, as
  C++ has it: a variable is constructed once, by a factory or from another of its class, assigned
  from one of its class, and destroyed once.  \<open>None\<close>: not a program of that form.
\<close>

datatype socket = Connection_of tcp_connection | Listener_of tcp_listener

fun fd_of :: "socket \<Rightarrow> int" where
  "fd_of (Connection_of c) = connection_fd c"
| "fd_of (Listener_of l) = listener_fd l"

type_synonym sockets = "(nat \<rightharpoonup> socket) \<times> kernel"

datatype socket_call =
    Connect nat bool int int
  | Listen nat bool int int int u16
  | Accept nat nat bool
  | Move_construct nat nat
  | Move_assign nat nat
  | Destroy nat

fun new_variable ::
    "nat \<Rightarrow> ('c \<Rightarrow> socket) \<Rightarrow> (nat \<rightharpoonup> socket) \<Rightarrow> (transport_error, 'c) expected \<times> kernel \<Rightarrow> sockets" where
  "new_variable v f vars (Inl e, k) = (vars, k)"
| "new_variable v f vars (Inr c, k) = (vars(v \<mapsto> f c), k)"

fun socket_step :: "(int set \<Rightarrow> int) \<Rightarrow> sockets \<Rightarrow> socket_call \<Rightarrow> sockets option" where
  "socket_step fresh (vars, k) (Connect v s i c) =
     (if vars v = None then Some (new_variable v Connection_of vars (connectTo fresh s i c k)) else None)"
| "socket_step fresh (vars, k) (Listen v s b l g p) =
     (if vars v = None then Some (new_variable v Listener_of vars (TcpListener_create fresh s b l g p k)) else None)"
| "socket_step fresh (vars, k) (Accept w v ok) =
     (case vars w of
        Some (Listener_of l) \<Rightarrow>
          if vars v = None then Some (new_variable v Connection_of vars (TcpListener_accept fresh ok l k)) else None
      | _ \<Rightarrow> None)"
| "socket_step fresh (vars, k) (Move_construct v w) =
     (case (vars v, vars w) of
        (None, Some (Connection_of c)) \<Rightarrow>
          let (this, other) = TcpConnection_move c
          in Some (vars(w \<mapsto> Connection_of other, v \<mapsto> Connection_of this), k)
      | (None, Some (Listener_of l)) \<Rightarrow>
          let (this, other) = TcpListener_move l
          in Some (vars(w \<mapsto> Listener_of other, v \<mapsto> Listener_of this), k)
      | _ \<Rightarrow> None)"
| "socket_step fresh (vars, k) (Move_assign v w) =
     (case (vars v, vars w) of
        (Some (Connection_of this), Some (Connection_of other)) \<Rightarrow>
          let ((this, other), k) = TcpConnection_assign (v = w) this other k
          in Some (vars(w \<mapsto> Connection_of other, v \<mapsto> Connection_of this), k)
      | (Some (Listener_of this), Some (Listener_of other)) \<Rightarrow>
          let ((this, other), k) = TcpListener_assign (v = w) this other k
          in Some (vars(w \<mapsto> Listener_of other, v \<mapsto> Listener_of this), k)
      | _ \<Rightarrow> None)"
| "socket_step fresh (vars, k) (Destroy v) =
     (case vars v of
        None \<Rightarrow> None
      | Some (Connection_of c) \<Rightarrow> Some (vars(v := None), TcpConnection_destroy c k)
      | Some (Listener_of l) \<Rightarrow> Some (vars(v := None), TcpListener_destroy l k))"

fun socket_run :: "(int set \<Rightarrow> int) \<Rightarrow> sockets \<Rightarrow> socket_call list \<Rightarrow> sockets option" where
  "socket_run fresh st [] = Some st"
| "socket_run fresh st (c # cs) =
     (case socket_step fresh st c of None \<Rightarrow> None | Some st' \<Rightarrow> socket_run fresh st' cs)"

section \<open>Ownership\<close>

definition owned :: "(nat \<rightharpoonup> socket) \<Rightarrow> nat \<rightharpoonup> int" where
  "owned vars v =
     (case vars v of None \<Rightarrow> None | Some s \<Rightarrow> if 0 \<le> fd_of s then Some (fd_of s) else None)"

text \<open>Every open descriptor has exactly one owner, nothing else is owned, and no close has failed.\<close>

definition tidy :: "(nat \<rightharpoonup> int) \<Rightarrow> kernel \<Rightarrow> bool" where
  "tidy f k \<longleftrightarrow>
     bad_closes k = 0 \<and> open_fds k = ran f \<and> finite (ran f) \<and> inj_on f (dom f)"

definition ownership :: "sockets \<Rightarrow> bool" where
  "ownership st \<longleftrightarrow> tidy (owned (fst st)) (snd st)"

lemma owned_update:
  "owned (vars(v \<mapsto> s)) = (owned vars)(v := if 0 \<le> fd_of s then Some (fd_of s) else None)"
  "owned (vars(v := None)) = (owned vars)(v := None)"
  by (rule ext; simp add: owned_def)+

lemma fresh_fd:
  assumes "allocates fresh" "ownership (vars, k)"
  shows "0 \<le> fresh (open_fds k)" "fresh (open_fds k) \<notin> open_fds k"
proof -
  have "finite (open_fds k)" using assms(2) by (simp add: ownership_def tidy_def)
  then show "0 \<le> fresh (open_fds k)" "fresh (open_fds k) \<notin> open_fds k"
    using assms(1) by (simp_all add: allocates_def)
qed

text \<open>The ways in which a descriptor changes hands.\<close>

lemma tidy_new:
  assumes "tidy f k" "f v = None" "fd \<notin> open_fds k"
  shows "tidy (f(v \<mapsto> fd)) (k\<lparr>open_fds := insert fd (open_fds k)\<rparr>)"
proof -
  have fd: "fd \<notin> ran f" using assms(1,3) by (simp add: tidy_def)
  have "inj_on (f(v \<mapsto> fd)) (insert v (dom f))"
    using assms(1,2) fd by (auto simp: tidy_def inj_on_def ran_def)
  then show ?thesis using assms(1,2) by (simp add: tidy_def)
qed

lemma ran_map_upd_None:
  assumes "f v = Some fd" "inj_on f (dom f)"
  shows "ran (f(v := None)) = ran f - {fd}"
proof (rule set_eqI)
  fix x
  have "u \<noteq> v \<longleftrightarrow> x \<noteq> fd" if "f u = Some x" for u
    using inj_onD [OF assms(2), of u v] that assms(1) by auto
  then show "x \<in> ran (f(v := None)) \<longleftrightarrow> x \<in> ran f - {fd}"
    unfolding ran_def fun_upd_def by auto
qed

lemma tidy_close:
  assumes "tidy f k" "f v = Some fd"
  shows "tidy (f(v := None)) (sys_close fd k)"
proof -
  have inj: "inj_on f (dom f)" and open_ran: "open_fds k = ran f" using assms(1) by (simp_all add: tidy_def)
  have "inj_on (f(v := None)) (dom (f(v := None)))" using inj by (auto simp: inj_on_def)
  moreover have "ran (f(v := None)) = ran f - {fd}"
    by (rule ran_map_upd_None [OF assms(2) inj])
  moreover have "fd \<in> open_fds k" unfolding open_ran using assms(2) by (rule ranI)
  ultimately show ?thesis using assms(1) by (simp add: tidy_def sys_close_def)
qed

lemma tidy_drop: "tidy f k \<Longrightarrow> f v = None \<Longrightarrow> tidy (f(v := None)) k"
  by (simp add: fun_upd_idem)

lemma tidy_move:
  assumes "tidy f k" "f v = None" "v \<noteq> w"
  shows "tidy (f(w := None, v := f w)) k"
proof -
  have inj: "inj_on f (dom f)" using assms(1) by (simp add: tidy_def)
  have "inj_on (f(w := None, v := f w)) (dom (f(w := None, v := f w)))"
    using inj assms(2,3) by (auto simp: inj_on_def dom_def)
  moreover have "ran (f(w := None, v := f w)) = ran f"
  proof (rule set_eqI)
    fix fd
    show "fd \<in> ran (f(w := None, v := f w)) \<longleftrightarrow> fd \<in> ran f"
    proof
      assume "fd \<in> ran f"
      then obtain u where "f u = Some fd" by (auto simp: ran_def)
      then have "(f(w := None, v := f w)) (if u = w then v else u) = Some fd" using assms(2,3) by auto
      then show "fd \<in> ran (f(w := None, v := f w))" by (rule ranI)
    qed (auto simp: ran_def split: if_splits)
  qed
  ultimately show ?thesis using assms(1) by (simp add: tidy_def)
qed

lemma ownership_new:
  assumes "ownership (vars, k)" "vars v = None" "fd_of s \<notin> open_fds k" "0 \<le> fd_of s"
  shows "ownership (vars(v \<mapsto> s), k\<lparr>open_fds := insert (fd_of s) (open_fds k)\<rparr>)"
  using tidy_new [of "owned vars" k v "fd_of s"] assms by (simp add: ownership_def owned_update) (simp add: owned_def)

lemma ownership_move:
  assumes "ownership (vars, k)" "vars w = Some s" "vars v = None" "fd_of t = fd_of s" "fd_of r = - 1"
  shows "ownership (vars(w \<mapsto> r, v \<mapsto> t), k)"
proof -
  have "owned vars v = None" "v \<noteq> w" "owned vars w = (if 0 \<le> fd_of s then Some (fd_of s) else None)"
    using assms(2,3) by (auto simp: owned_def)
  then show ?thesis
    using tidy_move [of "owned vars" k v w] assms(1,4,5)
    by (cases "0 \<le> fd_of s") (simp_all add: ownership_def owned_update)
qed

lemma ownership_destroy:
  assumes "ownership (vars, k)" "vars v = Some s"
  shows "ownership (vars(v := None), if 0 \<le> fd_of s then sys_close (fd_of s) k else k)"
  using tidy_close [of "owned vars" k v "fd_of s"] tidy_drop [of "owned vars" k v] assms
  by (simp add: ownership_def owned_update) (simp add: owned_def)

lemma ownership_finite: "ownership (vars, k) \<Longrightarrow> finite (open_fds k)"
  by (simp add: ownership_def tidy_def)

section \<open>The contract of a factory\<close>

text \<open>A factory fails and leaves no descriptor open, or yields an object that owns a new one.\<close>

locale socket_factory =
  fixes make :: "kernel \<Rightarrow> (transport_error, 'c) expected \<times> kernel"
    and handle :: "'c \<Rightarrow> socket" and fresh :: "int set \<Rightarrow> int"
  assumes failed: "allocates fresh \<Longrightarrow> finite (open_fds k) \<Longrightarrow> make k = (Inl e, k') \<Longrightarrow> k' = k"
    and made: "allocates fresh \<Longrightarrow> finite (open_fds k) \<Longrightarrow> make k = (Inr c, k') \<Longrightarrow>
      fd_of (handle c) = fresh (open_fds k) \<and>
      k' = k\<lparr>open_fds := insert (fresh (open_fds k)) (open_fds k)\<rparr>"
begin

lemma new_owner:
  assumes "allocates fresh" "ownership (vars, k)" "vars v = None"
  shows "ownership (new_variable v handle vars (make k))"
proof (cases "make k")
  case (Pair r k')
  note fin = ownership_finite [OF assms(2)]
  show ?thesis
  proof (cases r)
    case (Inl e)
    then show ?thesis using failed [OF assms(1) fin] Pair assms(2) by simp
  next
    case (Inr c)
    have c: "fd_of (handle c) = fresh (open_fds k)"
      "k' = k\<lparr>open_fds := insert (fd_of (handle c)) (open_fds k)\<rparr>"
      using made [OF assms(1) fin, of c k'] Pair Inr by simp_all
    have "ownership (vars(v \<mapsto> handle c), k\<lparr>open_fds := insert (fd_of (handle c)) (open_fds k)\<rparr>)"
      using fresh_fd [OF assms(1,2)] by (intro ownership_new [OF assms(2,3)]) (simp_all add: c(1))
    then show ?thesis by (simp add: Pair Inr flip: c(2))
  qed
qed

end

lemma allocates_fresh:
  assumes "allocates fresh" "finite S"
  shows "\<not> fresh S < 0" "fresh S \<notin> S"
  using assms by (simp_all add: allocates_def not_less)

lemmas factory_defs = allocates_fresh sys_new_fd_def sys_close_def Let_def

interpretation connecting: socket_factory "connectTo fresh socket_ok pton connect" Connection_of fresh
  for fresh socket_ok pton connect
  by unfold_locales (auto simp: connectTo_def factory_defs split: if_splits)

interpretation listening: socket_factory "TcpListener_create fresh socket_ok bind listen name port" Listener_of fresh
  for fresh socket_ok bind listen name port
  by unfold_locales (auto simp: TcpListener_create_def factory_defs split: if_splits)

interpretation accepting: socket_factory "TcpListener_accept fresh ok l" Connection_of fresh for fresh ok l
  by unfold_locales (auto simp: TcpListener_accept_def factory_defs split: if_splits)

section \<open>The contract of a socket class\<close>

locale socket_class =
  fixes handle :: "'c \<Rightarrow> socket"
    and destroy :: "'c \<Rightarrow> kernel \<Rightarrow> kernel"
    and move :: "'c \<Rightarrow> 'c \<times> 'c"
    and assign :: "bool \<Rightarrow> 'c \<Rightarrow> 'c \<Rightarrow> kernel \<Rightarrow> ('c \<times> 'c) \<times> kernel"
  assumes handle_inject: "handle c = handle d \<Longrightarrow> c = d"
    and destroy_closes: "destroy c k = (if 0 \<le> fd_of (handle c) then sys_close (fd_of (handle c)) k else k)"
    and move_fds: "move c = (c', r) \<Longrightarrow> fd_of (handle c') = fd_of (handle c) \<and> fd_of (handle r) = - 1"
    and assign_self: "assign True c d k = ((c, d), k)"
    and assign_fds: "assign False c d k = ((c', r), k') \<Longrightarrow>
      fd_of (handle c') = fd_of (handle d) \<and> fd_of (handle r) = - 1 \<and> k' = destroy c k"
begin

lemma move_ownership:
  assumes "ownership (vars, k)" "vars v = None" "vars w = Some (handle c)" "move c = (c', r)"
  shows "ownership (vars(w \<mapsto> handle r, v \<mapsto> handle c'), k)"
  using ownership_move [OF assms(1,3,2)] move_fds [OF assms(4)] by simp

lemma destroy_ownership:
  assumes "ownership (vars, k)" "vars v = Some (handle c)"
  shows "ownership (vars(v := None), destroy c k)"
  using ownership_destroy [OF assms] by (simp add: destroy_closes)

lemma assign_ownership:
  assumes "ownership (vars, k)" "vars v = Some (handle c)" "vars w = Some (handle d)"
    and "assign (v = w) c d k = ((c', r), k')"
  shows "ownership (vars(w \<mapsto> handle r, v \<mapsto> handle c'), k')"
proof (cases "v = w")
  case True
  then have "vars(w \<mapsto> handle r, v \<mapsto> handle c') = vars" "k' = k"
    using assms(2-4) handle_inject [of c d] by (auto simp: assign_self fun_upd_idem)
  then show ?thesis using assms(1) by simp
next
  case False
  have a: "fd_of (handle c') = fd_of (handle d)" "fd_of (handle r) = - 1" "k' = destroy c k"
    using assign_fds [of c d k c' r k'] assms(4) False by simp_all
  have "ownership ((vars(v := None))(w \<mapsto> handle r, v \<mapsto> handle c'), destroy c k)"
    using destroy_ownership [OF assms(1,2)] False assms(3) a by (intro ownership_move) auto
  moreover have "(vars(v := None))(w \<mapsto> handle r, v \<mapsto> handle c') = vars(w \<mapsto> handle r, v \<mapsto> handle c')"
    by (rule ext) simp
  ultimately show ?thesis using a(3) by simp
qed

end

interpretation connection: socket_class Connection_of TcpConnection_destroy TcpConnection_move TcpConnection_assign
  by unfold_locales (auto simp: TcpConnection_destroy_def TcpConnection_move_def TcpConnection_assign_def Let_def)

interpretation listener: socket_class Listener_of TcpListener_destroy TcpListener_move TcpListener_assign
  by unfold_locales (auto simp: TcpListener_destroy_def TcpListener_move_def TcpListener_assign_def Let_def)

section \<open>Every program keeps ownership\<close>

lemma socket_step_ownership:
  assumes "allocates fresh" "ownership (vars, k)" "socket_step fresh (vars, k) c = Some st"
  shows "ownership st"
  using assms(3)
proof (cases c)
  case (Move_construct v w)
  then show ?thesis
    using assms(3) connection.move_ownership [OF assms(2)] listener.move_ownership [OF assms(2)]
    by (auto split: option.splits socket.splits prod.splits)
next
  case (Move_assign v w)
  then show ?thesis
    using assms(3) connection.assign_ownership [OF assms(2)] listener.assign_ownership [OF assms(2)]
    by (auto split: option.splits socket.splits prod.splits)
next
  case (Destroy v)
  then show ?thesis
    using assms(3) connection.destroy_ownership [OF assms(2)] listener.destroy_ownership [OF assms(2)]
    by (auto split: option.splits socket.splits)
qed (use connecting.new_owner [OF assms(1,2)] listening.new_owner [OF assms(1,2)]
      accepting.new_owner [OF assms(1,2)] in \<open>auto split: option.splits socket.splits if_splits\<close>)

lemma socket_run_ownership:
  assumes "allocates fresh" "ownership st" "socket_run fresh st cs = Some st'"
  shows "ownership st'"
  using assms(2,3)
proof (induction cs arbitrary: st)
  case (Cons c cs)
  obtain vars k where st: "st = (vars, k)" by (cases st)
  show ?case
    using Cons socket_step_ownership [OF assms(1), of vars k c] by (auto simp: st split: option.splits)
qed simp

section \<open>Properties\<close>

text \<open>C26. No program over the two socket classes leaks or mishandles a descriptor: after any calls, on any
  path of errors, moves and destructors, the open descriptors are exactly those owned by live
  objects, each by one, no close has hit a descriptor that is not open, and once every object is
  destroyed nothing is open.\<close>

theorem sockets_are_owned:
  assumes "allocates fresh"
    and "socket_run fresh (Map.empty, \<lparr>open_fds = {}, bad_closes = 0\<rparr>) calls = Some (vars, k)"
  shows "bad_closes k = 0 \<and> open_fds k = ran (owned vars) \<and> inj_on (owned vars) (dom (owned vars)) \<and>
    (if vars = Map.empty then open_fds k = {} else True)"
proof -
  have "ownership (Map.empty, \<lparr>open_fds = {}, bad_closes = 0\<rparr>)"
    by (simp add: ownership_def tidy_def owned_def ran_def dom_def)
  then have own: "ownership (vars, k)" by (rule socket_run_ownership [OF assms(1) _ assms(2)])
  moreover have "ran (owned Map.empty) = {}" by (simp add: owned_def ran_def)
  ultimately show ?thesis by (auto simp: ownership_def tidy_def)
qed

definition next_fd :: "int set \<Rightarrow> int" where
  "next_fd S = (if S = {} then 3 else max 0 (Max S + 1))"

lemma allocates_next_fd: "allocates next_fd"
proof -
  have "max 0 (Max S + 1) \<notin> S" if "finite S" "S \<noteq> {}" for S :: "int set"
    using Max_ge [OF that(1), of "max 0 (Max S + 1)"] by linarith
  then show ?thesis by (simp add: allocates_def next_fd_def)
qed

theorem sockets_are_owned_witness:
  "let vars = [1 \<mapsto> Listener_of \<lparr>listener_fd = 4, listener_port = 8080\<rparr>,
      2 \<mapsto> Connection_of \<lparr>connection_fd = - 1\<rparr>, 0 \<mapsto> Connection_of \<lparr>connection_fd = 5\<rparr>];
      k = \<lparr>open_fds = {5, 4}, bad_closes = 0\<rparr>
   in socket_run next_fd (Map.empty, \<lparr>open_fds = {}, bad_closes = 0\<rparr>)
        [Connect 0 True 1 0, Listen 1 True 0 (- 1) 0 0, Listen 1 True 0 0 0 8080, Accept 1 2 True,
         Move_assign 0 2] = Some (vars, k) \<and>
      bad_closes k = 0 \<and> open_fds k = ran (owned vars) \<and> inj_on (owned vars) (dom (owned vars)) \<and>
      (if vars = Map.empty then open_fds k = {} else True)"
proof -
  let ?vars = "[1 \<mapsto> Listener_of \<lparr>listener_fd = 4, listener_port = 8080\<rparr>,
      2 \<mapsto> Connection_of \<lparr>connection_fd = - 1\<rparr>, 0 \<mapsto> Connection_of \<lparr>connection_fd = 5\<rparr>] :: nat \<rightharpoonup> socket"
  have run: "socket_run next_fd (Map.empty, \<lparr>open_fds = {}, bad_closes = 0\<rparr>)
      [Connect 0 True 1 0, Listen 1 True 0 (- 1) 0 0, Listen 1 True 0 0 0 8080, Accept 1 2 True,
       Move_assign 0 2] = Some (?vars, \<lparr>open_fds = {5, 4}, bad_closes = 0\<rparr>)"
    by (simp add: connectTo_def TcpListener_create_def TcpListener_accept_def TcpConnection_assign_def
        sys_new_fd_def sys_close_def Let_def next_fd_def fun_eq_iff insert_commute insert_Diff_if)
  show ?thesis
    unfolding Let_def using sockets_are_owned [OF allocates_next_fd run] run by blast
qed

end
