(* ===== verification/Cli_Client.thy ===== *)
theory Cli_Client
  imports Cli_Command Emulator Sockets
begin

text \<open>
  \<open>robot::cli::Client\<close> (\<open>include/robot/cli/client.hpp\<close>, \<open>src/cli/client.cpp\<close>): the request frame of
  a command, the exchange over one connection, and its composition with the server.
\<close>

section \<open>Requests\<close>

fun toCommandType :: "command_kind \<Rightarrow> command_type" where
  "toCommandType Kind_Status = GetStatus"
| "toCommandType Kind_Enable = Enable"
| "toCommandType Kind_Disable = Disable"
| "toCommandType Kind_Home = Home"
| "toCommandType Kind_MoveJoint = MoveJoint"
| "toCommandType Kind_Stop = Stop"
| "toCommandType Kind_EmergencyStop = command_type.EmergencyStop"

definition targetRadians :: "command \<Rightarrow> f64" where
  "targetRadians command = cmd_targetDegrees command * f64_pi / f64_180"

definition buildRequestFrame :: "command \<Rightarrow> frame" where
  "buildRequestFrame command =
     \<lparr>frame_flags = 0, frame_type = toCommandType (cmd_kind command),
      frame_payload =
        (if cmd_kind command = Kind_MoveJoint
         then encodeMoveJointPayload
                \<lparr>mj_jointIndex = cmd_jointIndex command, mj_targetRadians = targetRadians command\<rparr>
         else [])\<rparr>"

section \<open>The exchange\<close>

text \<open>\<open>connect\<close>, over the outcomes of the system calls of \<open>connectTo\<close>.\<close>

definition Client_connect ::
    "(int set \<Rightarrow> int) \<Rightarrow> bool \<Rightarrow> int \<Rightarrow> int \<Rightarrow> kernel \<Rightarrow> (cli_error, tcp_connection) expected \<times> kernel" where
  "Client_connect fresh socket_ok inet_pton_result connect_result k =
     (let (connection, k) = connectTo fresh socket_ok inet_pton_result connect_result k
      in case connection of
           Inl _ \<Rightarrow> (Unexpected TransportFailure, k)
         | Inr c \<Rightarrow> (Ok c, k))"

text \<open>The status is the response's first byte as it is: the enum has a fixed underlying type.\<close>

record outcome =
  out_status :: u8
  out_statusPayload :: "status_payload option"

text \<open>The receive loop: the frame or the error, and the receives left.\<close>

fun receiveResponse :: "receives \<Rightarrow> bytes \<Rightarrow> (cli_error, decode_result) expected \<times> receives" where
  "receiveResponse [] received =
     (case decode received of
        Inr decoded \<Rightarrow> (Ok decoded, [])
      | Inl e \<Rightarrow> (Unexpected (if e = Incomplete then TransportFailure else ProtocolFailure), []))"
| "receiveResponse (n # incoming) received =
     (case decode received of
        Inr decoded \<Rightarrow> (Ok decoded, n # incoming)
      | Inl e \<Rightarrow>
          if e \<noteq> Incomplete then (Unexpected ProtocolFailure, n # incoming)
          else case n of
            Inl _ \<Rightarrow> (Unexpected TransportFailure, incoming)
          | Inr chunk \<Rightarrow> receiveResponse incoming (received @ chunk))"

definition checkResponse :: "command \<Rightarrow> frame \<Rightarrow> frame \<Rightarrow> (cli_error, outcome) expected" where
  "checkResponse command request response =
     (if frame_type response \<noteq> frame_type request then Unexpected UnexpectedResponseType
      else if frame_payload response = [] then Unexpected ProtocolFailure
      else
        let status = hd (frame_payload response)
        in if status = response_code Status_Error then Unexpected ServerReportedError
           else if cmd_kind command = Kind_Status
             then and_then (decodeStatusPayload (drop 1 (frame_payload response)))
                    (\<lambda>st. Ok \<lparr>out_status = status, out_statusPayload = Some st\<rparr>)
             else Ok \<lparr>out_status = status, out_statusPayload = None\<rparr>)"

text \<open>
  \<open>execute\<close>, with the calls of \<open>::send\<close> and the results of the receives: the outcome, the
  bytes sent and the receives left (\<open>None\<close> if \<open>send\<close> does not return).
\<close>

definition Client_execute ::
    "command \<Rightarrow> send_call list \<Rightarrow> receives \<Rightarrow> ((cli_error, outcome) expected \<times> bytes \<times> receives) option" where
  "Client_execute command results incoming =
     (let request = buildRequestFrame command;
          encoded = encode request
      in case TcpConnection_send encoded results of
           None \<Rightarrow> None
         | Some (Inl _, wire) \<Rightarrow> Some (Unexpected TransportFailure, wire, incoming)
         | Some (Inr _, wire) \<Rightarrow>
             let (decoded, incoming) = receiveResponse incoming []
             in Some (and_then decoded (\<lambda>decoded. checkResponse command request (res_frame decoded)), wire, incoming))"

section \<open>Lemmas\<close>

text \<open>The client's receive loop is the server's, with the errors told apart.\<close>

lemma receiveResponse_receiveOneFrame:
  "receiveOneFrame incoming received = Some (decoded, received', incoming') \<Longrightarrow>
     receiveResponse incoming received = (Ok decoded, incoming')"
  by (induction incoming received rule: receiveResponse.induct) (auto split: sum.splits if_splits)

lemma receiveResponse_stream:
  assumes "sendable_frame fr" and "concat chunks = encode fr"
  shows "\<exists>incoming'. receiveResponse (map Inr chunks) [] =
    (Ok \<lparr>res_frame = fr, bytesConsumed = length (encode fr)\<rparr>, incoming')"
  using receive_frame [OF assms(1), of "[]" chunks "[]"] assms(2) receiveResponse_receiveOneFrame
  by fastforce

lemma buildRequest_sendable: "sendable_frame (buildRequestFrame command)"
  using move_codec.write_length
  by (simp add: sendable_frame_def buildRequestFrame_def maxPayloadSize_def)

section \<open>What a command means\<close>

text \<open>Whether the dispatcher accepts the move of a command.\<close>

definition move_accepted :: "command \<Rightarrow> plant \<Rightarrow> bool" where
  "move_accepted command pl \<longleftrightarrow>
     (let i = unat (cmd_jointIndex command); j = Robot_joint (pl_robot pl) i; x = targetRadians command
      in i < Robot_jointCount (pl_robot pl) \<and> enabled j \<and>
         \<not> x < min_position (limits j) \<and> \<not> max_position (limits j) < x)"

definition command_outcome :: "command \<Rightarrow> plant \<Rightarrow> (cli_error, outcome) expected" where
  "command_outcome command pl =
     (if cmd_kind command = Kind_Status then Ok \<lparr>out_status = 0, out_statusPayload = Some (status_of pl)\<rparr>
      else if cmd_kind command = Kind_MoveJoint \<and> \<not> move_accepted command pl
        then Unexpected ServerReportedError
      else Ok \<lparr>out_status = 0, out_statusPayload = None\<rparr>)"

lemma move_target_request:
  assumes "cmd_kind command = Kind_MoveJoint"
  shows "move_target (buildRequestFrame command) pl =
    (if move_accepted command pl then Some (unat (cmd_jointIndex command), targetRadians command) else None)"
  using assms by (simp add: move_target_def buildRequestFrame_def decode_move_payload move_accepted_def Let_def)

lemma checkResponse_dispatch:
  assumes "Robot_jointCount (pl_robot pl) < 65535"
  shows "checkResponse command (buildRequestFrame command) (fst (dispatch (buildRequestFrame command) pl)) =
    command_outcome command pl"
proof (cases "cmd_kind command")
  case Kind_Status
  then show ?thesis
    by (simp add: checkResponse_def dispatch_def buildRequestFrame_def handleGetStatus_def okResponse_def
        decode_status_of [OF assms] command_outcome_def)
next
  case Kind_MoveJoint
  then have "frame_type (buildRequestFrame command) = MoveJoint" by (simp add: buildRequestFrame_def)
  then show ?thesis
    using Kind_MoveJoint move_target_request [OF Kind_MoveJoint, of pl]
    by (simp add: checkResponse_def dispatch_def handleMoveJoint_result okResponse_def errorResponse_def
        command_outcome_def)
qed (simp_all add: checkResponse_def dispatch_def buildRequestFrame_def handleEnable_def handleDisable_def
    handleHome_def handleStop_def handleEmergencyStop_def okResponse_def command_outcome_def split_beta Let_def)

text \<open>A command through the client, the connection and the server.\<close>

lemma client_exchange:
  assumes "TcpConnection_send (encode (buildRequestFrame command)) results = Some (Ok (), wire)"
    and "takes_at_most (length (encode (buildRequestFrame command))) results"
    and "concat chunks = wire"
    and "serve [(others, Sent)] (map Ok chunks) [] em = Some (em', [reply])"
    and "concat replies = reply"
    and "Robot_jointCount (pl_robot (em_plant (foldl emu_step em others))) < 65535"
  shows "\<exists>rest. Client_execute command results (map Ok replies) =
      Some (command_outcome command (em_plant (foldl emu_step em others)), wire, rest) \<and>
    em' = emu_step (foldl emu_step em others) (Client_request (buildRequestFrame command))"
proof -
  let ?request = "buildRequestFrame command" and ?em = "foldl emu_step em others"
  let ?response = "fst (dispatch ?request (em_plant ?em))"
  have "wire = encode ?request" by (rule send_exact [OF assms(1,2)])
  then have "serve [(others, Sent)] (map Inr chunks) [] em = serve_frames [(others, Sent)] [?request] em"
    using assms(3) by (intro serve_stream) (simp_all add: buildRequest_sendable)
  then have s: "em' = emu_step ?em (Client_request ?request)" "reply = encode ?response"
    using assms(4) by (simp_all add: Let_def)
  have "sendable_frame ?response"
    using dispatch_sendable [OF assms(6)] by (simp add: sendable_frame_def maxPayloadSize_def)
  then obtain incoming' where "receiveResponse (map Inr replies) [] =
      (Ok \<lparr>res_frame = ?response, bytesConsumed = length (encode ?response)\<rparr>, incoming')"
    using receiveResponse_stream [of ?response replies] s(2) assms(5) by auto
  then show ?thesis
    using s(1) assms(1) checkResponse_dispatch [OF assms(6), of command]
    by (simp add: Client_execute_def Let_def)
qed

section \<open>Properties\<close>

text \<open>C23. A command end to end, through the client, the connection and the server.  If the client's
  request has reached the server, in any pieces and while the other threads act, and the one
  reply the server sends has reached the client, in any pieces, then the client returns the
  outcome of the command on the plant as it was: the status of every joint bit for bit, success,
  or \<open>ServerReportedError\<close> exactly for a move that the joint does not accept; and the server's
  state has changed by that one request.\<close>

theorem client_end_to_end:
  assumes "TcpConnection_send (encode (buildRequestFrame command)) results = Some (Ok (), wire)"
    and "takes_at_most (length (encode (buildRequestFrame command))) results"
    and "concat chunks = wire"
    and "serve [(others, Sent)] (map Ok chunks) [] em = Some (em', [reply])"
    and "concat replies = reply"
    and "Robot_jointCount (pl_robot (em_plant (foldl emu_step em others))) < 65535"
  shows "\<exists>rest. Client_execute command results (map Ok replies) =
      Some (command_outcome command (em_plant (foldl emu_step em others)), wire, rest) \<and>
    em' = emu_step (foldl emu_step em others) (Client_request (buildRequestFrame command))"
  by (rule client_exchange [OF assms])

theorem client_end_to_end_witness:
  "\<exists>rest. Client_execute (plain_command Kind_Enable) [Returned 5, Returned 7]
     (map Ok [take 5 (encode (okResponse Enable [])), drop 5 (encode (okResponse Enable []))]) =
     Some (Ok \<lparr>out_status = 0, out_statusPayload = None\<rparr>, encode (plain_request Enable), rest)"
proof -
  let ?cmd = "plain_command Kind_Enable" and ?em = "demo_emulator Idle"
  have q: "buildRequestFrame ?cmd = plain_request Enable"
    by (simp add: buildRequestFrame_def plain_command_def)
  have len: "length (encode (plain_request Enable)) = 12"
    by (simp add: encode_length headerSize_def)
  have send: "TcpConnection_send (encode (buildRequestFrame ?cmd)) [Returned 5, Returned 7] = Some (Ok (), encode (plain_request Enable))"
    "takes_at_most (length (encode (buildRequestFrame ?cmd))) [Returned 5, Returned 7]"
    unfolding q by (simp_all add: len TcpConnection_send_def send_loop.simps drop_drop flip: take_add)
  have "serve [([], Sent)] (map Inr [encode (plain_request Enable)]) [] ?em =
      serve_frames [([], Sent)] [plain_request Enable] ?em"
    by (rule serve_stream) (simp_all add: sendable_frame_def)
  then have served: "serve [([], Sent)] (map Inr [encode (plain_request Enable)]) [] ?em =
      Some (emu_step ?em (Client_request (plain_request Enable)), [encode (okResponse Enable [])])"
    by (simp add: Let_def dispatch_def handleEnable_def)
  have "Robot_jointCount (pl_robot (em_plant ?em)) < 65535"
    by (simp add: demo_emulator_def started_def Robot_jointCount_def kJointCount_def)
  then show ?thesis
    using client_end_to_end [OF send _ served, of "[take 5 (encode (okResponse Enable [])), drop 5 (encode (okResponse Enable []))]"]
    by (simp add: command_outcome_def plain_command_def)
qed

section \<open>The receive loops end\<close>

text \<open>The longest frame that \<open>decode\<close> waits for.\<close>

definition frame_limit :: nat where
  "frame_limit = headerSize + unat maxPayloadSize"

lemma decode_complete:
  assumes "frame_limit \<le> length bs"
  shows "decode bs \<noteq> Unexpected Incomplete"
  using assms by (auto simp: decode_def frame_limit_def Let_def not_less word_le_nat_alt)

text \<open>What \<open>TcpConnection::receive\<close> delivers into the loops' buffer: an error, or 1 to 4096 bytes.\<close>

definition delivered :: "(transport_error, bytes) expected \<Rightarrow> bool" where
  "delivered n = (case n of Inl _ \<Rightarrow> True | Inr chunk \<Rightarrow> chunk \<noteq> [] \<and> length chunk \<le> 4096)"

lemma delivered_grows: "delivered (Inr chunk) \<Longrightarrow> Suc (length received) \<le> length (received @ chunk)"
  by (cases chunk) (simp_all add: delivered_def)

text \<open>The bytes that a list of receives puts into the buffer.\<close>

fun bytes_received :: "receives \<Rightarrow> bytes" where
  "bytes_received [] = []"
| "bytes_received (Inl e # incoming) = bytes_received incoming"
| "bytes_received (Inr chunk # incoming) = chunk @ bytes_received incoming"

text \<open>
  A loop has used some of its receives when its result is decided: whatever comes later is left
  as it is.  The results are those of the server's and of the client's loop.
\<close>

definition decided_by ::
    "receives \<Rightarrow> bytes \<Rightarrow> (decode_result \<times> bytes) option \<Rightarrow> (cli_error, decode_result) expected \<Rightarrow> bool" where
  "decided_by used received one response \<longleftrightarrow>
     (\<forall>later. receiveOneFrame (used @ later) received =
          map_option (\<lambda>(decoded, buffer). (decoded, buffer, later)) one \<and>
        receiveResponse (used @ later) received = (response, later)) \<and>
     (case one of None \<Rightarrow> True | Some (decoded, buffer) \<Rightarrow> buffer = received @ bytes_received used)"

lemma decided_at_once:
  assumes "decode received \<noteq> Unexpected Incomplete"
  shows "\<exists>one response. decided_by [] received one response"
proof (cases "decode received")
  case (Inl e)
  have "receiveOneFrame later received = None \<and>
      receiveResponse later received = (Unexpected ProtocolFailure, later)" for later
    using Inl assms by (cases later) simp_all
  then have "decided_by [] received None (Unexpected ProtocolFailure)" by (simp add: decided_by_def)
  then show ?thesis by blast
next
  case (Inr r)
  have "receiveOneFrame later received = Some (r, received, later) \<and> receiveResponse later received = (Ok r, later)" for later
    using Inr by (cases later) simp_all
  then have "decided_by [] received (Some (r, received)) (Ok r)" by (simp add: decided_by_def)
  then show ?thesis by blast
qed

lemma decided_next:
  assumes "decode received = Unexpected Incomplete" "decided_by used (received @ chunk) one response"
  shows "decided_by (Inr chunk # used) received one response"
  using assms by (auto simp: decided_by_def split: option.splits)

lemma decided_error:
  assumes "decode received = Unexpected Incomplete"
  shows "decided_by [Inl e] received None (Unexpected TransportFailure)"
  using assms by (simp add: decided_by_def)

lemma receives_decide:
  assumes "list_all delivered incoming" "frame_limit \<le> length received + length incoming"
    and "length received < frame_limit + 4096"
  shows "\<exists>used left one response. incoming = used @ left \<and> decided_by used received one response \<and>
    length used \<le> frame_limit - length received \<and>
    length received + length (bytes_received used) < frame_limit + 4096"
  using assms
proof (induction incoming arbitrary: received)
  case Nil
  then have "decode received \<noteq> Unexpected Incomplete" by (intro decode_complete) simp
  from decided_at_once [OF this] obtain one response where "decided_by [] received one response" by blast
  then show ?case using Nil.prems(3) by (intro exI [of _ "[]"] exI [of _ one] exI [of _ response]) simp
next
  case (Cons n incoming)
  show ?case
  proof (cases "decode received = Unexpected Incomplete")
    case False
    from decided_at_once [OF this] obtain one response where "decided_by [] received one response" by blast
    then show ?thesis using Cons.prems(3)
      by (intro exI [of _ "[]"] exI [of _ "n # incoming"] exI [of _ one] exI [of _ response]) simp
  next
    case True
    then have short: "length received < frame_limit" using decode_complete by (meson not_le)
    show ?thesis
    proof (cases n)
      case (Inl e)
      then show ?thesis
        using decided_error [OF True, of e] short
        by (intro exI [of _ "[n]"] exI [of _ incoming] exI [of _ "None :: (decode_result \<times> bytes) option"]
            exI [of _ "Unexpected TransportFailure"]) auto
    next
      case (Inr chunk)
      then have c: "chunk \<noteq> []" "length chunk \<le> 4096" using Cons.prems(1) by (simp_all add: delivered_def)
      then have "0 < length chunk" by simp
      then have goals: "list_all delivered incoming" "length (received @ chunk) < frame_limit + 4096"
        "frame_limit \<le> length (received @ chunk) + length incoming"
        using Cons.prems c(2) short \<open>0 < length chunk\<close> by (simp_all del: length_greater_0_conv)
      then obtain used left one response where u: "incoming = used @ left"
        "decided_by used (received @ chunk) one response"
        "length used \<le> frame_limit - length (received @ chunk)"
        "length (received @ chunk) + length (bytes_received used) < frame_limit + 4096"
        using Cons.IH [of "received @ chunk"] goals by blast
      show ?thesis
      proof -
        have "n # incoming = (n # used) @ left \<and> decided_by (n # used) received one response"
          using decided_next [OF True u(2)] Inr u(1) by simp
        moreover have "length (n # used) \<le> frame_limit - length received"
          using u(3) short \<open>0 < length chunk\<close> by (simp del: length_greater_0_conv)
        moreover have "length received + length (bytes_received (n # used)) < frame_limit + 4096"
          using u(4) Inr by simp
        ultimately show ?thesis by blast
      qed
    qed
  qed
qed

text \<open>C25. The receive loops of the server and of the client end on their own, whatever the peer sends and
  also where a receive fails: of any receives that each deliver an error or 1 to 4096 bytes, at
  most 1048588 decide the result (\<open>None\<close> is the server's \<open>false\<close>), those that follow are not looked
  at, and all the bytes that the two loops have put into their buffers by then are fewer than the
  longest frame and one chunk have.\<close>

theorem receive_loops_end:
  assumes "list_all delivered incoming" "1048588 \<le> length incoming"
  shows "\<exists>used left one response. incoming = used @ left \<and> length used \<le> 1048588 \<and>
    length (bytes_received used) < 1048588 + 4096 \<and>
    (\<forall>later. receiveOneFrame (used @ later) [] =
          map_option (\<lambda>(decoded, buffer). (decoded, buffer, later)) one \<and>
       receiveResponse (used @ later) [] = (response, later)) \<and>
    (case one of None \<Rightarrow> True | Some (decoded, buffer) \<Rightarrow> buffer = bytes_received used)"
proof -
  have l: "frame_limit = 1048588" by (simp add: frame_limit_def headerSize_def maxPayloadSize_def)
  obtain used left one response where "incoming = used @ left" "decided_by used [] one response"
    "length used \<le> 1048588" "length (bytes_received used) < 1048588 + 4096"
    using receives_decide [OF assms(1), of "[]"] assms(2) unfolding l by auto
  then show ?thesis unfolding decided_by_def append_Nil by blast
qed

theorem receive_loops_end_witness:
  "\<exists>used left. replicate 1048588 (Ok [82]) = used @ left \<and>
     (\<exists>response. \<forall>later. receiveResponse (used @ later) [] = (response, later))"
  using receive_loops_end [of "replicate 1048588 (Ok [82])"]
  by (auto simp: list_all_iff delivered_def)

end
