(* ===== verification/Float_Text.thy ===== *)
theory Float_Text
  imports Charconv Float64_Arith
begin

text \<open>
  The text of a \<open>double\<close>, digit by digit: with a fixed number of decimals (\<open>std::format\<close>, \<open>printf\<close>)
  and as a stream prints it, \<open>%g\<close> with six significant digits.
\<close>

section \<open>A fixed number of decimals\<close>

text \<open>\<open>{:.2f}\<close> and \<open>%.1f\<close>: the multiple of a hundredth or a tenth nearest to the value, ties to
  even.\<close>

definition hundredths :: "f64 \<Rightarrow> nat" where
  "hundredths x = rne (100 * scm (f64_mag x)) unit_scale"

definition fixed2 :: "f64 \<Rightarrow> string" where
  "fixed2 x =
     (if f64_neg x then ''-'' else []) @
     (if is_nan x then ''nan''
      else if is_inf x then ''inf''
      else let n = hundredths x
           in string_of_nat (n div 100) @ ''.'' @ string_of_nat (n div 10 mod 10) @ string_of_nat (n mod 10))"

definition tenths :: "f64 \<Rightarrow> nat" where
  "tenths x = rne (10 * scm (f64_mag x)) unit_scale"

definition fixed1 :: "f64 \<Rightarrow> string" where
  "fixed1 x =
     (if f64_neg x then ''-'' else []) @
     (if is_nan x then ''nan''
      else if is_inf x then ''inf''
      else let n = tenths x in string_of_nat (n div 10) @ ''.'' @ string_of_nat (n mod 10))"

lemma hundredths_error: "2 * \<bar>100 * int (scm (f64_mag x)) - int (hundredths x) * int unit_scale\<bar> \<le> int unit_scale"
proof -
  let ?a = "100 * scm (f64_mag x)" and ?n = "hundredths x"
  have "2 * ?a \<le> (2 * ?n + 1) * unit_scale" "2 * ?n * unit_scale \<le> 2 * ?a + unit_scale"
    unfolding hundredths_def by (rule rne_bounds; simp)+
  then have "int (2 * ?a) \<le> int ((2 * ?n + 1) * unit_scale)" "int (2 * ?n * unit_scale) \<le> int (2 * ?a + unit_scale)"
    by (simp_all only: of_nat_le_iff)
  then show ?thesis by (simp add: algebra_simps abs_if)
qed

section \<open>\<open>std::ostream << double\<close>\<close>

text \<open>The exponent of the first decimal digit of \<open>s\<close> units of \<open>2 ^ -1074\<close>.\<close>

definition decimal_exponent :: "nat \<Rightarrow> int" where
  "decimal_exponent s =
     (if unit_scale \<le> s then int (length (string_of_nat (s div unit_scale))) - 1
      else - int (length (string_of_nat ((unit_scale - 1) div s))))"

text \<open>Six significant digits, ties to even, and the exponent.\<close>

definition significant6 :: "nat \<Rightarrow> nat \<times> int" where
  "significant6 s =
     (let e = decimal_exponent s;
          n = (if e \<le> 5 then rne (s * 10 ^ nat (5 - e)) unit_scale else rne s (unit_scale * 10 ^ nat (e - 5)))
      in if n = 10 ^ 6 then (10 ^ 5, e + 1) else (n, e))"

definition with_fraction :: "string \<Rightarrow> string \<Rightarrow> string" where
  "with_fraction ip fp =
     (let fp = rev (dropWhile (\<lambda>c. c = CHR ''0'') (rev fp)) in if fp = [] then ip else ip @ ''.'' @ fp)"

definition two_digits :: "nat \<Rightarrow> string" where
  "two_digits n = (if n < 10 then ''0'' @ string_of_nat n else string_of_nat n)"

text \<open>Fixed notation for exponents from -4 to 5, scientific notation otherwise; no trailing zeros.\<close>

definition layout :: "string \<Rightarrow> int \<Rightarrow> string" where
  "layout ds e =
     (if 0 \<le> e \<and> e < 6 then with_fraction (take (nat e + 1) ds) (drop (nat e + 1) ds)
      else if - 4 \<le> e \<and> e < 0 then with_fraction ''0'' (replicate (nat (- e) - 1) CHR ''0'' @ ds)
      else with_fraction (take 1 ds) (drop 1 ds) @ ''e'' @ (if e < 0 then ''-'' else ''+'') @
        two_digits (nat \<bar>e\<bar>))"

definition general6 :: "f64 \<Rightarrow> string" where
  "general6 x =
     (if f64_neg x then ''-'' else []) @
     (if is_nan x then ''nan''
      else if is_inf x then ''inf''
      else if f64_mag x = 0 then ''0''
      else let (n, e) = significant6 (scm (f64_mag x)) in layout (string_of_nat n) e)"

end
