(* ===== verification/Robotctl.thy ===== *)
theory Robotctl
  imports Cli_Client Float_Text
begin

text \<open>
  The program \<open>robotctl\<close> (\<open>apps/robotctl/main.cpp\<close>) and its status table
  (\<open>src/cli/format.cpp\<close>): the exit code and the text written, from the arguments and the
  environment.
\<close>

section \<open>\<open>std::format\<close>\<close>

definition pad_left :: "nat \<Rightarrow> string \<Rightarrow> string" where
  "pad_left width s = replicate (width - length s) CHR '' '' @ s"

definition pad_right :: "nat \<Rightarrow> string \<Rightarrow> string" where
  "pad_right width s = s @ replicate (width - length s) CHR '' ''"

section \<open>The status table\<close>

definition toDegrees :: "f64 \<Rightarrow> f64" where
  "toDegrees radians = radians * f64_180 / f64_pi"

text \<open>One line, with the degree sign in UTF-8.\<close>

definition joint_line :: "nat \<Rightarrow> joint_status \<Rightarrow> string" where
  "joint_line i joint =
     ''J'' @ pad_right 6 (string_of_nat (i + 1)) @ '' '' @
     pad_left 7 (fixed2 (toDegrees (js_positionRadians joint))) @ [CHR 0xC2, CHR 0xB0] @ ''  '' @
     pad_left 7 (fixed2 (toDegrees (js_velocityRadiansPerSecond joint))) @ newline"

definition formatStatusTable :: "status_payload \<Rightarrow> string" where
  "formatStatusTable status =
     ''Robot: '' @ sp_robotName status @ newline @
     ''State: '' @ sp_controllerStateName status @ newline @ newline @
     ''Joint   Position   Velocity'' @ newline @
     ''----------------------------'' @ newline @
     concat (map (\<lambda>i. joint_line i (sp_joints status ! i)) [0..<length (sp_joints status)])"

section \<open>The program\<close>

record terminated =
  exit_code :: int
  std_out :: string
  std_err :: string

definition usage :: string where
  "usage = ''Usage: robotctl <host>:<port> <command> [args...]'' @ newline @
     ''Commands: status | enable | disable | home | move-joint <joint> <degrees> | stop | estop'' @ newline"

definition output_of :: "command_kind \<Rightarrow> outcome \<Rightarrow> string" where
  "output_of kind outcome =
     (case out_statusPayload outcome of
        Some st \<Rightarrow> if kind = Kind_Status then formatStatusTable st else ''OK'' @ newline
      | None \<Rightarrow> ''OK'' @ newline)"

text \<open>
  \<open>connect\<close> says of a host and a port whether the connection can be made; \<open>results\<close> and
  \<open>incoming\<close> are the calls of \<open>::send\<close> and the results of \<open>receive\<close>.  \<open>None\<close>: \<open>SIGPIPE\<close> ends the
  program before its exit, or the calls listed do not suffice.
\<close>

definition robotctl ::
    "(string \<Rightarrow> u16 \<Rightarrow> bool) \<Rightarrow> send_call list \<Rightarrow> receives \<Rightarrow> string list \<Rightarrow> terminated option" where
  "robotctl connect results incoming args =
     (case parseArgs args of
        Inl _ \<Rightarrow> Some \<lparr>exit_code = 1, std_out = [], std_err = usage\<rparr>
      | Inr parsed \<Rightarrow>
          if \<not> connect (inv_host parsed) (inv_port parsed)
          then Some \<lparr>exit_code = 1, std_out = [], std_err =
                 ''robotctl: failed to connect to '' @ inv_host parsed @ '':'' @
                 string_of_nat (unat (inv_port parsed)) @ newline\<rparr>
          else
            (case Client_execute (inv_command parsed) results incoming of
               None \<Rightarrow> None
             | Some (Inl _, _) \<Rightarrow>
                 Some \<lparr>exit_code = 1, std_out = [], std_err = ''robotctl: command failed'' @ newline\<rparr>
             | Some (Inr outcome, _) \<Rightarrow>
                 Some \<lparr>exit_code = 0, std_out = output_of (cmd_kind (inv_command parsed)) outcome, std_err = []\<rparr>))"

text \<open>The exit code says whether the command was executed; the text goes to the matching stream.\<close>

lemma robotctl_result:
  assumes "robotctl connect results incoming args = Some r"
  shows "exit_code r = 0 \<longleftrightarrow> (\<exists>parsed outcome rest. parseArgs args = Ok parsed \<and>
      connect (inv_host parsed) (inv_port parsed) \<and>
      Client_execute (inv_command parsed) results incoming = Some (Ok outcome, rest))"
    and "exit_code r = 0 \<longleftrightarrow> std_err r = []" and "exit_code r \<noteq> 0 \<longleftrightarrow> exit_code r = 1 \<and> std_out r = []"
  using assms
  by (auto simp: robotctl_def output_of_def formatStatusTable_def usage_def split: sum.splits option.splits if_splits)

section \<open>Reading the table back\<close>

lemma one_digit: "d < 10 \<Longrightarrow> string_of_nat d = [char_of (48 + d)]" for d :: nat
  by (simp add: string_of_nat.simps)

lemma digit_not_sign:
  assumes "is_digit c"
  shows "c \<noteq> CHR ''-''" "c \<noteq> CHR ''.''" "c \<noteq> CHR ''e''" "c \<noteq> CHR ''E''"
  using assms by (auto simp: is_digit_def)

lemma digits_value_two:
  assumes "a < 10" "b < 10"
  shows "digits_value (string_of_nat q @ [char_of (48 + a), char_of (48 + b)]) = 100 * q + 10 * a + b"
proof -
  have "digits_value ((string_of_nat q @ [char_of (48 + a)]) @ [char_of (48 + b)]) = 100 * q + 10 * a + b"
    unfolding digits_value_snoc using string_of_nat_facts [of q] assms by (simp add: of_char_digit)
  then show ?thesis by simp
qed

lemma fixed2_finite:
  assumes "is_finite x"
  shows "fixed2 x = (if f64_neg x then ''-'' else []) @ string_of_nat (hundredths x div 100) @
    CHR ''.'' # [char_of (48 + hundredths x div 10 mod 10), char_of (48 + hundredths x mod 10)]"
  using assms by (simp add: fixed2_def Let_def one_digit)

lemma from_chars_double_decimal:
  assumes "list_all is_digit ip" "ip \<noteq> []" "list_all is_digit fp"
  shows "from_chars_double ((if neg then ''-'' else []) @ ip @ CHR ''.'' # fp) =
    (let m = digits_value (ip @ fp); mag = decimal_mag m (- int (length fp))
     in if mag = inf_mag \<or> (mag = 0 \<and> m \<noteq> 0) then Unexpected result_out_of_range else Ok (mk_f64 neg mag, []))"
proof -
  have h: "is_digit (hd ip)" using assms(1,2) by (cases ip) auto
  have dot: "\<not> is_digit CHR ''.''" by (simp add: is_digit_def)
  have i: "takeWhile is_digit (ip @ CHR ''.'' # fp) = ip" "dropWhile is_digit (ip @ CHR ''.'' # fp) = CHR ''.'' # fp"
    using takeWhile_digits [OF assms(1), of "CHR ''.'' # fp"] dot by simp_all
  have f: "takeWhile is_digit fp = fp" "dropWhile is_digit fp = []"
    using assms(3) by (simp_all only: takeWhile_all_digits)
  have sg: "(case (if neg then ''-'' else []) @ ip @ CHR ''.'' # fp of
      c # t \<Rightarrow> if c = CHR ''-'' then (True, t) else (False, (if neg then ''-'' else []) @ ip @ CHR ''.'' # fp)
    | [] \<Rightarrow> (False, (if neg then ''-'' else []) @ ip @ CHR ''.'' # fp)) = (neg, ip @ CHR ''.'' # fp)"
    using digit_not_sign(1) [OF h] assms(2) by (cases ip) auto
  show ?thesis
    unfolding from_chars_double_def sg Let_def prod.case i
    by (simp add: f i assms(2) exponent_part_def Let_def)
qed

text \<open>A value of \<open>2 ^ 53\<close> or more is an integer, so its hundredths are exact.\<close>

lemma unit_dvd_scm:
  assumes "2 ^ 53 * unit_scale \<le> scm m"
  shows "unit_scale dvd scm m"
proof -
  define e f where "e = m div 2 ^ 52" and "f = m mod 2 ^ 52"
  have f: "f < 2 ^ 52" by (simp add: f_def)
  have s: "scm m = (if e = 0 then f else (2 ^ 52 + f) * 2 ^ (e - 1))" by (simp add: scm_def Let_def e_def f_def)
  have e: "e \<noteq> 0"
  proof
    assume "e = 0"
    then have "scm m < 2 ^ 53" using s f by simp
    moreover have "(2 :: nat) ^ 53 * 1 \<le> 2 ^ 53 * unit_scale" using unit_scale_pos by (intro mult_left_mono) linarith+
    ultimately show False using assms by linarith
  qed
  have "(2 ^ 52 + f) * 2 ^ (e - 1) < 2 ^ 53 * 2 ^ (e - 1)" using f by simp
  with assms have "2 ^ 53 * unit_scale < 2 ^ 53 * 2 ^ (e - 1)" unfolding s if_not_P [OF e] by (rule le_less_trans)
  then have "(2 :: nat) ^ 1074 < 2 ^ (e - 1)" unfolding unit_scale_def by (simp only: nat_mult_less_cancel1 zero_less_power)
  then have "1074 \<le> e - 1" by (simp only: power_strict_increasing_iff)
  then have "unit_scale dvd 2 ^ (e - 1)" unfolding unit_scale_def by (rule le_imp_power_dvd)
  then show ?thesis using s e by simp
qed

lemma hundredths_mag_finite:
  assumes "is_finite x"
  shows "rnd_mag (hundredths x * unit_scale) 100 < inf_mag"
proof (cases "2 ^ 53 * unit_scale \<le> scm (f64_mag x)")
  case True
  then obtain c where c: "scm (f64_mag x) = c * unit_scale"
    using unit_dvd_scm by (metis dvd_def mult.commute)
  have "hundredths x = rne ((100 * c) * unit_scale) unit_scale" by (simp add: hundredths_def c mult.assoc)
  also have "\<dots> = 100 * c" by (rule rne_exact) simp
  finally have "hundredths x * unit_scale = scm (f64_mag x) * 100" by (simp add: c)
  then have "rnd_mag (hundredths x * unit_scale) 100 = rnd_mag (scm (f64_mag x) * 100) (1 * 100)" by simp
  also have "\<dots> = f64_mag x"
    using assms by (subst rnd_mag_scale) (simp_all add: is_finite_def)
  finally show ?thesis using assms by (simp add: is_finite_def)
next
  case False
  have "2 * hundredths x * unit_scale \<le> 2 * (100 * scm (f64_mag x)) + unit_scale"
    unfolding hundredths_def by (rule rne_bounds) simp
  then have "hundredths x * unit_scale \<le> 100 * scm (f64_mag x) + unit_scale" by linarith
  also have "\<dots> \<le> 100 * (2 ^ 53 * unit_scale) + 100 * unit_scale" using False by linarith
  also have "\<dots> \<le> 2 ^ 54 * unit_scale * 100" by simp
  also have "2 ^ 54 * unit_scale = scm (1077 * 2 ^ 52)"
    unfolding unit_scale_def by (subst scm_pow2) (simp_all only: power_add [symmetric], simp_all)
  finally have "rnd_mag (hundredths x * unit_scale) 100 \<le> 1077 * 2 ^ 52"
    by (intro rnd_mag_le) (simp_all add: inf_mag_def)
  then show ?thesis by (simp add: inf_mag_def)
qed

lemma hundredths_mag_zero:
  assumes "rnd_mag (hundredths x * unit_scale) 100 = 0"
  shows "hundredths x = 0"
proof (rule ccontr)
  assume "hundredths x \<noteq> 0"
  then have "1 * unit_scale \<le> hundredths x * unit_scale" by (intro mult_right_mono) auto
  moreover have "100 \<le> unit_scale"
  proof -
    have "(2 :: nat) ^ 7 \<le> 2 ^ 1074" by (rule power_increasing) simp_all
    then show ?thesis by (simp add: unit_scale_def)
  qed
  moreover have "scm 1 = 1" by (simp add: scm_def)
  ultimately have "scm 1 * 100 \<le> hundredths x * unit_scale" by (simp only: mult_1)
  then have "1 \<le> rnd_mag (hundredths x * unit_scale) 100" by (intro rnd_mag_ge) (simp_all add: inf_mag_def)
  with assms show False by simp
qed

section \<open>Properties\<close>

text \<open>The status table shows every finite position and velocity to the nearest hundredth: what is
  printed, read back, is a double with the same sign, the one nearest to a decimal number of two
  places that is at most half a hundredth away.\<close>

theorem status_value_reads_back:
  assumes "is_finite x"
  shows "from_chars_double (fixed2 x) =
      Ok (mk_f64 (f64_neg x) (rnd_mag (hundredths x * unit_scale) 100), []) \<and>
    2 * \<bar>100 * int (scm (f64_mag x)) - int (hundredths x) * int unit_scale\<bar> \<le> int unit_scale"
proof -
  let ?n = "hundredths x"
  let ?fp = "[char_of (48 + ?n div 10 mod 10), char_of (48 + ?n mod 10)] :: string"
  have d: "list_all is_digit ?fp" by (simp add: is_digit_char)
  have "100 * (?n div 100) + 10 * (?n div 10 mod 10) + ?n mod 10 = ?n"
  proof -
    have dm: "10 * (k div 10) + k mod 10 = k" for k :: nat by simp
    have "?n div 100 = ?n div 10 div 10" by (simp flip: div_mult2_eq)
    then show ?thesis using dm [of ?n] dm [of "?n div 10"] by linarith
  qed
  then have v: "digits_value (string_of_nat (?n div 100) @ ?fp) = ?n"
    by (simp only: digits_value_two mod_less_divisor zero_less_numeral)
  have mag: "decimal_mag ?n (- int (length ?fp)) = rnd_mag (?n * unit_scale) 100" by (simp add: decimal_mag_def)
  have ip: "list_all is_digit (string_of_nat (?n div 100))" "string_of_nat (?n div 100) \<noteq> []"
    using string_of_nat_facts by blast+
  have ok: "\<not> (rnd_mag (?n * unit_scale) 100 = inf_mag \<or> (rnd_mag (?n * unit_scale) 100 = 0 \<and> ?n \<noteq> 0))"
    using hundredths_mag_finite [OF assms] hundredths_mag_zero [of x] by (metis less_irrefl)
  show ?thesis
    unfolding fixed2_finite [OF assms] from_chars_double_decimal [OF ip d] Let_def v mag if_not_P [OF ok]
    using hundredths_error [of x] by (rule conjI [OF refl])
qed

theorem status_value_reads_back_witness:
  "from_chars_double (fixed2 f64_half) = Ok (mk_f64 False (rnd_mag (hundredths f64_half * unit_scale) 100), [])"
  using status_value_reads_back [of f64_half] by (simp add: f64_literals)

text \<open>A NaN typed at the command line reaches the joint: \<open>robotctl host:port move-joint j nan\<close> is
  accepted by the parser, the request carries a NaN, and the server accepts it for every enabled
  joint, whose target is then a NaN.\<close>

theorem nan_from_the_command_line:
  assumes "host_port_text host port hp" and "numeral_of j (unat (i :: u8))"
    and "unat i < Robot_jointCount (pl_robot pl)" and "enabled (Robot_joint (pl_robot pl) (unat i))"
  shows "case parseArgs [hp, ''move-joint'', j, ''nan''] of
      Inl _ \<Rightarrow> False
    | Inr parsed \<Rightarrow>
        (let (response, pl') = dispatch (buildRequestFrame (inv_command parsed)) pl in
         response = okResponse MoveJoint [] \<and>
         is_nan (target_position (Robot_joint (pl_robot pl') (unat i))))"
proof -
  have n: "from_chars_double ''nan'' = Ok (quiet_nan, [])"
    by (simp add: from_chars_double_def special_value_def after_word_def ascii_lower_def after_nan_def
        is_digit_def quiet_nan_def)
  define cmd where "cmd = \<lparr>cmd_kind = Kind_MoveJoint, cmd_jointIndex = i, cmd_targetDegrees = quiet_nan\<rparr>"
  have "command_text cmd ''move-joint'' [j, ''nan'']"
    using assms(2) n by (simp add: command_text_move cmd_def)
  then have p: "parseArgs [hp, ''move-joint'', j, ''nan''] = Ok \<lparr>inv_host = host, inv_port = port, inv_command = cmd\<rparr>"
    using assms(1) by (simp add: parseArgs_def splitHostPort_Ok [symmetric] parseCommand_Ok [symmetric])
  have k: "cmd_kind cmd = Kind_MoveJoint" "cmd_jointIndex cmd = i" by (simp_all add: cmd_def)
  have nan: "is_nan (targetRadians cmd)"
    unfolding targetRadians_def cmd_def by (simp add: is_nan_mult_iff is_nan_div_iff)
  then have "move_accepted cmd pl" using assms(3,4) by (simp add: move_accepted_def k)
  then have t: "move_target (buildRequestFrame cmd) pl = Some (unat i, targetRadians cmd)"
    by (simp add: move_target_request [OF k(1)] k(2))
  have "frame_type (buildRequestFrame cmd) = MoveJoint" by (simp add: buildRequestFrame_def k)
  then show ?thesis
    using t nan assms(3)
    by (simp add: p dispatch_def handleMoveJoint_result Robot_joint_def Robot_jointCount_def)
qed

theorem nan_from_the_command_line_witness:
  "\<exists>parsed. parseArgs [''h:1'', ''move-joint'', ''0'', ''nan''] = Ok parsed \<and>
     fst (dispatch (buildRequestFrame (inv_command parsed)) demo_plant) = okResponse MoveJoint []"
proof -
  have "host_port_text ''h'' 1 ''h:1''" unfolding host_port_text_def
    by (intro exI [of _ "''1''"]) (simp add: numeral_of_def is_digit_def digits_value_def)
  moreover have "numeral_of ''0'' (unat (0 :: u8))"
    by (simp add: numeral_of_def is_digit_def digits_value_def)
  ultimately show ?thesis
    using nan_from_the_command_line [of "''h''" 1 "''h:1''" "''0''" 0 demo_plant]
    by (auto simp: demo_plant_def Robot_jointCount_def Robot_joint_def Joint_enable_def split: sum.splits)
qed

end
