(* ===== verification/Float64_Conv.thy ===== *)
theory Float64_Conv
  imports Float64_Arith
begin

text \<open>
  The functions of \<open><cmath>\<close> and \<open><chrono>\<close> on \<open>double\<close> that the motion and hardware
  components use: the square root, the conversions to integers, and the rounding of a duration.
  A conversion whose result does not fit is undefined (or unspecified) in C++ and is \<open>None\<close> here.
\<close>

section \<open>Square root\<close>

text \<open>The integer square root, bit by bit.\<close>

fun isqrt :: "nat \<Rightarrow> nat" where
  "isqrt n =
     (if n = 0 then 0
      else let s = 2 * isqrt (n div 4) in if (s + 1) * (s + 1) \<le> n then s + 1 else s)"

declare isqrt.simps [simp del]

text \<open>
  The square root of \<open>s * 2 ^ -1074\<close> in units of \<open>2 ^ -1074\<close> is that of \<open>s * 2 ^ 1074\<close>.  It is rounded
  through its integer part and a half that stands for a remainder.
\<close>

definition sqrt_mag :: "nat \<Rightarrow> nat" where
  "sqrt_mag s =
     (let n = s * unit_scale; q = isqrt n in rnd_mag (2 * q + (if q * q = n then 0 else 1)) 2)"

definition f64_sqrt :: "f64 \<Rightarrow> f64" where
  "f64_sqrt x =
     (if is_nan x then quiet_nan
      else if f64_mag x = 0 then x
      else if f64_neg x then quiet_nan
      else if is_inf x then x
      else mk_f64 False (sqrt_mag (scm (f64_mag x))))"

section \<open>Integers\<close>

text \<open>The integer part, towards zero.\<close>

definition f64_trunc :: "f64 \<Rightarrow> int" where
  "f64_trunc x = (let n = int (scm (f64_mag x) div unit_scale) in if f64_neg x then - n else n)"

definition in_i64 :: "int \<Rightarrow> bool" where
  "in_i64 i \<longleftrightarrow> - (2 ^ 63) \<le> i \<and> i < 2 ^ 63"

text \<open>\<open>static_cast<std::int64_t>(x)\<close>.\<close>

definition to_i64 :: "f64 \<Rightarrow> i64 option" where
  "to_i64 x = (if is_finite x \<and> in_i64 (f64_trunc x) then Some (word_of_int (f64_trunc x)) else None)"

text \<open>\<open>std::llround(x)\<close>: to nearest, halves away from zero.\<close>

definition round_away :: "f64 \<Rightarrow> int" where
  "round_away x =
     (let n = int ((2 * scm (f64_mag x) + unit_scale) div (2 * unit_scale)) in if f64_neg x then - n else n)"

definition std_llround :: "f64 \<Rightarrow> i64 option" where
  "std_llround x = (if is_finite x \<and> in_i64 (round_away x) then Some (word_of_int (round_away x)) else None)"

section \<open>Durations\<close>

text \<open>\<open>std::chrono::floor<nanoseconds>\<close> and \<open>round<nanoseconds>\<close> of a duration in seconds.\<close>

definition chrono_floor_ns :: "f64 \<Rightarrow> i64 option" where
  "chrono_floor_ns d =
     (let x = d * f64_1e9
      in map_option (\<lambda>t. if x < f64_of_int (sint t) then t - 1 else t) (to_i64 x))"

definition chrono_round_ns :: "f64 \<Rightarrow> i64 option" where
  "chrono_round_ns d =
     (let x = d * f64_1e9
      in map_option (\<lambda>t0.
           let t1 = t0 + 1;
               diff0 = x - f64_of_int (sint t0);
               diff1 = f64_of_int (sint t1) - x
           in if feq diff0 diff1 then (if odd t0 then t1 else t0)
              else if diff0 < diff1 then t0
              else t1) (chrono_floor_ns d))"

section \<open>Lemmas on the square root\<close>

lemma isqrt_bounds: "isqrt n * isqrt n \<le> n \<and> n < Suc (isqrt n) * Suc (isqrt n)"
proof (induction n rule: isqrt.induct)
  case (1 n)
  define q where "q = isqrt (n div 4)"
  show ?case
  proof (cases "n = 0")
    case False
    then have ih: "q * q \<le> n div 4" "n div 4 < Suc q * Suc q" using 1 by (simp_all add: q_def)
    have "n div 4 * 4 \<le> n" "n < n div 4 * 4 + 4" by simp_all
    with ih have b: "(2 * q) * (2 * q) \<le> n" "n < (2 * q + 2) * (2 * q + 2)"
      by (simp_all add: algebra_simps)
    have e: "isqrt n = (if (2 * q + 1) * (2 * q + 1) \<le> n then 2 * q + 1 else 2 * q)"
      using False by (subst isqrt.simps) (simp add: Let_def q_def)
    show ?thesis
    proof (cases "(2 * q + 1) * (2 * q + 1) \<le> n")
      case True
      then show ?thesis using b(2) unfolding e by (simp add: algebra_simps)
    next
      case F: False
      then show ?thesis using b(1) unfolding e if_not_P [OF F] by (simp add: algebra_simps)
    qed
  qed (simp add: isqrt.simps)
qed

lemma isqrt_mono:
  assumes "m \<le> n"
  shows "isqrt m \<le> isqrt n"
proof (rule ccontr)
  assume "\<not> isqrt m \<le> isqrt n"
  then have "Suc (isqrt n) * Suc (isqrt n) \<le> isqrt m * isqrt m" by (intro mult_le_mono) simp_all
  then show False using isqrt_bounds [of m] isqrt_bounds [of n] assms by linarith
qed

text \<open>The rounded square root is monotone.\<close>

lemma sqrt_mag_mono:
  assumes "s \<le> t"
  shows "sqrt_mag s \<le> sqrt_mag t"
proof -
  let ?n = "s * unit_scale" and ?m = "t * unit_scale"
  have nm: "?n \<le> ?m" using assms by simp
  have "2 * isqrt ?n + (if isqrt ?n * isqrt ?n = ?n then 0 else 1) \<le>
      2 * isqrt ?m + (if isqrt ?m * isqrt ?m = ?m then 0 else 1)"
  proof (cases "isqrt ?n = isqrt ?m")
    case True
    then show ?thesis using isqrt_bounds [of ?n] nm by auto
  next
    case False
    then have "Suc (isqrt ?n) \<le> isqrt ?m" using isqrt_mono [OF nm] by simp
    then show ?thesis by simp
  qed
  then show ?thesis unfolding sqrt_mag_def Let_def by (intro rnd_mag_mono) simp_all
qed

section \<open>The rounding error\<close>

lemma scm_rnd_mag:
  assumes "0 < b" and "rnd_mag a b < inf_mag"
  defines "k \<equiv> nbits (a div b) - 53"
  shows "scm (rnd_mag a b) = rne a (b * 2 ^ k) * 2 ^ k"
proof -
  define r where "r = rne a (b * 2 ^ k)"
  have m: "rnd_mag a b = k * 2 ^ 52 + r"
    using assms(2) unfolding rnd_mag_def Let_def k_def [symmetric] r_def by (simp add: min_def split: if_splits)
  have up: "r \<le> 2 ^ 53" unfolding r_def by (rule rne_upper [OF assms(1)]) (simp add: k_def)
  have lo: "2 ^ 52 \<le> r" if "0 < k" unfolding r_def by (rule rne_lower [OF assms(1)]) (use that in \<open>simp add: k_def\<close>)
  consider (sub) "k = 0" "r < 2 ^ 52" | (norm) "2 ^ 52 \<le> r" "r < 2 ^ 53" | (top) "r = 2 ^ 53"
    using up lo by linarith
  then have "scm (k * 2 ^ 52 + r) = r * 2 ^ k"
  proof cases
    case sub
    then show ?thesis by (simp add: scm_def)
  next
    case norm
    then have "scm (k * 2 ^ 52 + r) = (2 ^ 52 + (r - 2 ^ 52)) * 2 ^ k" by (intro scm_normal) simp_all
    then show ?thesis using norm by simp
  next
    case top
    have "scm (k * 2 ^ 52 + r) = (2 ^ 52 + 0) * 2 ^ Suc k" using top by (intro scm_normal) simp_all
    then show ?thesis using top by simp
  qed
  then show ?thesis by (simp only: m r_def)
qed

text \<open>A half unit in the last place: relative in the normal range, absolute below it.\<close>

lemma rnd_mag_error:
  assumes "0 < b" and "rnd_mag a b < inf_mag"
  shows "2 ^ 53 * \<bar>int a - int (scm (rnd_mag a b)) * int b\<bar> \<le> int a + 2 ^ 52 * int b"
proof -
  define k r where "k = nbits (a div b) - 53" and "r = rne a (b * 2 ^ k)"
  have s: "scm (rnd_mag a b) = r * 2 ^ k" using scm_rnd_mag [OF assms] by (simp add: k_def r_def)
  have b: "0 < b * 2 ^ k" using assms(1) by simp
  have "2 * a \<le> (2 * r + 1) * (b * 2 ^ k)" "2 * r * (b * 2 ^ k) \<le> 2 * a + b * 2 ^ k"
    unfolding r_def by (rule rne_bounds(1) [OF b] rne_bounds(2) [OF b])+
  then have "int (2 * a) \<le> int ((2 * r + 1) * (b * 2 ^ k))" "int (2 * r * (b * 2 ^ k)) \<le> int (2 * a + b * 2 ^ k)"
    by (simp_all only: of_nat_le_iff)
  then have e: "2 * \<bar>int a - int (r * 2 ^ k) * int b\<bar> \<le> int (b * 2 ^ k)"
    by (simp add: algebra_simps abs_if)
  have "2 ^ 52 * (b * 2 ^ k) \<le> a + 2 ^ 52 * b"
  proof (cases "k = 0")
    case False
    then have "2 ^ (52 + k) \<le> a div b" by (intro nbits_lower) (simp add: k_def)
    then have "2 ^ (52 + k) * b \<le> a" using assms(1) by (simp add: less_eq_div_iff_mult_less_eq)
    then show ?thesis by (simp add: power_add ac_simps)
  qed simp
  then have "int (2 ^ 52 * (b * 2 ^ k)) \<le> int (a + 2 ^ 52 * b)" by (simp only: of_nat_le_iff)
  then show ?thesis using e unfolding s by simp
qed

lemma rnd_mag_below:
  assumes "0 < b" "a \<le> 2 ^ e * b" "52 \<le> e" "e \<le> 1500"
  shows "rnd_mag a b < inf_mag" "scm (rnd_mag a b) \<le> 2 ^ e"
proof -
  have m: "(e - 51) * 2 ^ 52 \<le> 1449 * 2 ^ 52" using assms(4) by (intro mult_le_mono1) simp
  have e: "scm ((e - 51) * 2 ^ 52) = 2 ^ e" using assms(3) by (subst scm_pow2) simp_all
  have le: "rnd_mag a b \<le> (e - 51) * 2 ^ 52"
    by (rule rnd_mag_le [OF assms(1)]) (use m assms(2) e in \<open>simp_all add: inf_mag_def\<close>)
  moreover have "scm (rnd_mag a b) \<le> scm ((e - 51) * 2 ^ 52)"
    using le m by (subst scm_le_iff) (simp_all add: inf_mag_def)
  ultimately show "rnd_mag a b < inf_mag" "scm (rnd_mag a b) \<le> 2 ^ e"
    using m e by (simp_all add: inf_mag_def)
qed

lemma fsc_minus [simp]: "fsc (- x) = - fsc x"
  by (simp add: fsc_def)

section \<open>Seconds and nanoseconds\<close>

text \<open>Integers below \<open>2 ^ 53\<close> are doubles.\<close>

lemma f64_of_int_exact:
  assumes "\<bar>i\<bar> < 2 ^ 53"
  shows "fsc (f64_of_int i) = i * int unit_scale" and "is_finite (f64_of_int i)"
proof -
  have b: "\<bar>i\<bar> \<le> 2 ^ 63" using assms by simp
  show fin: "is_finite (f64_of_int i)"
    using f64_of_int_bounds(1) [OF b] by (simp add: is_finite_def inf_mag_def)
  let ?n = "nat \<bar>i\<bar> * unit_scale"
  define k where "k = nbits (?n div 1) - 53"
  have n: "nat \<bar>i\<bar> < 2 ^ 53" using assms by (simp add: nat_less_iff)
  have "?n < 2 ^ 53 * unit_scale" using n by (intro mult_strict_right_mono) simp_all
  also have "\<dots> = 2 ^ (53 + 1074)" by (simp only: unit_scale_def power_add)
  finally have "nbits ?n \<le> 53 + 1074" by (simp only: nbits_le_iff)
  then have "k \<le> 1074" by (simp add: k_def)
  then have u: "unit_scale = 2 ^ (1074 - k) * 2 ^ k" unfolding unit_scale_def by (simp only: flip: power_add) simp
  have "rne ?n (1 * 2 ^ k) = rne (nat \<bar>i\<bar> * 2 ^ (1074 - k) * 2 ^ k) (2 ^ k)"
    by (simp only: u mult.assoc mult_1)
  also have "\<dots> = nat \<bar>i\<bar> * 2 ^ (1074 - k)" by (rule rne_exact) simp
  finally have r: "rne ?n (1 * 2 ^ k) * 2 ^ k = ?n" by (simp only: u mult.assoc)
  have "rnd_mag ?n 1 < inf_mag" using fin by (simp add: is_finite_def f64_of_int_fields)
  then have "scm (f64_mag (f64_of_int i)) = ?n"
    using scm_rnd_mag [of 1 ?n] r by (simp add: f64_of_int_fields k_def)
  then show "fsc (f64_of_int i) = i * int unit_scale" by (simp add: fsc_def f64_of_int_fields(1))
qed

lemma seconds_of_mono:
  assumes "sint s \<le> sint t"
  shows "seconds_of s \<le> seconds_of t"
proof -
  have fin: "is_finite (f64_of_int (sint w))" for w :: i64
    using f64_of_int_bounds(1) [OF sint_bound_64 [of w]] by (simp add: is_finite_def inf_mag_def)
  have "rkey (sint s * int unit_scale) 1 \<le> rkey (sint t * int unit_scale) 1"
    using assms by (intro rkey_mono) (simp_all add: mult_right_mono)
  moreover have "f64_key (f64_of_int i) = rkey (i * int unit_scale) 1" for i
    using nat_mult_distrib [of "- i" "int unit_scale"] nat_mult_distrib [of i "int unit_scale"]
    by (auto simp: f64_key_def f64_of_int_fields rkey_def abs_if mult_less_0_iff)
  ultimately have "f64_of_int (sint s) \<le> f64_of_int (sint t)"
    using fin [of s] fin [of t] by (simp add: f64_order)
  moreover have "0 < f64_1e9" by (simp add: f64_order f64_key_def)
  ultimately show ?thesis unfolding seconds_of_def by (intro div_right_mono_f64 fin) simp_all
qed

lemma seconds_of_zero: "seconds_of 0 = 0"
  by (simp add: seconds_of_def f64_of_int_def divide_f64_def zero_f64_def is_nan_def is_inf_def inf_mag_def)

text \<open>The integer part of a double that is not negative, and the double nearest to it.\<close>

lemma f64_trunc_nonneg:
  assumes "0 \<le> x" "is_finite x"
  shows "f64_trunc x = int (scm (f64_mag x) div unit_scale)"
proof (cases "f64_neg x")
  case True
  then have "f64_mag x = 0" using assms by (simp add: f64_order f64_key_def)
  then show ?thesis by (simp add: f64_trunc_def)
qed (simp add: f64_trunc_def)

lemma trunc_not_above:
  assumes "0 \<le> x" "is_finite x" "f64_trunc x < 2 ^ 53"
  shows "\<not> x < f64_of_int (f64_trunc x)"
proof -
  have t: "f64_trunc x = int (scm (f64_mag x) div unit_scale)" by (rule f64_trunc_nonneg [OF assms(1,2)])
  have fx: "fsc x = int (scm (f64_mag x))"
    using assms(1) by (auto simp: fsc_def f64_order f64_key_def split: if_splits)
  have e: "fsc (f64_of_int (f64_trunc x)) = f64_trunc x * int unit_scale" "is_finite (f64_of_int (f64_trunc x))"
    by (rule f64_of_int_exact; use t assms(3) in simp)+
  have "scm (f64_mag x) div unit_scale * unit_scale \<le> scm (f64_mag x)" by simp
  then have "int (scm (f64_mag x) div unit_scale * unit_scale) \<le> int (scm (f64_mag x))" by (simp only: of_nat_le_iff)
  then have "fsc (f64_of_int (f64_trunc x)) \<le> fsc x" unfolding e(1) fx unfolding t by simp
  then have "f64_of_int (f64_trunc x) \<le> x" using assms(2) e(2) by (simp add: f64_le_finite_key)
  then show ?thesis by (simp add: f64_order)
qed

text \<open>The nanoseconds of a duration: the integer part of the product with \<open>1e9\<close>, or one more.\<close>

lemma chrono_round_near:
  assumes "0 \<le> d * f64_1e9" "is_finite (d * f64_1e9)" "f64_trunc (d * f64_1e9) < 2 ^ 53"
  shows "\<exists>n. chrono_round_ns d = Some n \<and>
    f64_trunc (d * f64_1e9) \<le> sint n \<and> sint n \<le> f64_trunc (d * f64_1e9) + 1"
proof -
  let ?t = "f64_trunc (d * f64_1e9)"
  have t: "0 \<le> ?t" unfolding f64_trunc_nonneg [OF assms(1,2)] by simp
  have s: "sint (word_of_int i :: i64) = i" if "0 \<le> i" "i < 2 ^ 63" for i
    using that by (simp add: signed_of_int signed_take_bit_int_eq_self)
  define w :: i64 where "w = word_of_int ?t"
  have w: "sint w = ?t" unfolding w_def by (rule s) (use t assms(3) in simp_all)
  have "to_i64 (d * f64_1e9) = Some w" using assms(2,3) t by (simp add: to_i64_def in_i64_def w_def)
  then have "chrono_floor_ns d = Some w"
    using trunc_not_above [OF assms] by (simp add: chrono_floor_ns_def Let_def w)
  then have "chrono_round_ns d \<in> {Some w, Some (w + 1)}"
    unfolding chrono_round_ns_def Let_def by simp
  moreover have e: "w + 1 = word_of_int (?t + 1)" by (simp add: w_def)
  have "sint (w + 1) = ?t + 1" unfolding e by (rule s; use t assms(3) in simp)
  ultimately show ?thesis using w by auto
qed

section \<open>Scaling, and degrees\<close>

lemma zero_scaled:
  assumes "is_finite c" "\<not> f64_neg c" "f64_mag c \<noteq> 0"
  shows "0 * c = 0" "0 / c = 0"
  using assms by (auto intro!: f64_eqI simp: times_f64_def divide_f64_def Let_def)

text \<open>Scaling by a positive constant keeps a symmetric range.\<close>

lemma scale_range:
  assumes "- a \<le> x" "x \<le> a" "is_finite a" "is_finite c" "0 \<le> c"
  shows "- (a * c) \<le> x * c" "x * c \<le> a * c"
proof -
  have na: "is_finite (- a)" using assms(3) by (simp add: is_finite_def)
  have x: "is_finite x" by (rule finite_between [OF assms(1,2) na assms(3)])
  show "x * c \<le> a * c"
    unfolding mult_commute_f64 [of _ c] by (rule mult_left_mono_f64) (use assms x in simp_all)
  have "(- a) * c \<le> x * c"
    unfolding mult_commute_f64 [of _ c] by (rule mult_left_mono_f64) (use assms x na in simp_all)
  then show "- (a * c) \<le> x * c" by (simp add: times_uminus_left assms(3,4))
qed

lemma div_range:
  assumes "- a \<le> x" "x \<le> a" "is_finite a" "is_finite c" "0 < c"
  shows "- (a / c) \<le> x / c" "x / c \<le> a / c"
proof -
  have na: "is_finite (- a)" using assms(3) by (simp add: is_finite_def)
  have x: "is_finite x" by (rule finite_between [OF assms(1,2) na assms(3)])
  have c: "f64_mag c \<noteq> 0" using assms(5) by (auto simp: f64_order f64_key_def split: if_splits)
  show "x / c \<le> a / c" by (rule div_right_mono_f64) (use assms x in simp_all)
  have "(- a) / c \<le> x / c" by (rule div_right_mono_f64) (use assms x na in simp_all)
  then show "- (a / c) \<le> x / c" by (simp add: div_uminus_left assms(3,4) c)
qed

lemma pi_in_degrees: "F64 0x4081abe4b73fefb5 / f64_pi = f64_180"
proof -
  have "F64 0x4081abe4b73fefb5 / f64_pi = mk_f64 (f64_neg (F64 0x4081abe4b73fefb5) \<noteq> f64_neg f64_pi)
     (min (1029 * 2 ^ 52 + rne ((2 ^ 52 + 0x1abe4b73fefb5) * 2 ^ 53) (2 ^ 52 + 0x921FB54442D18)) inf_mag)"
    by (rule div_normal_mag [where ex = 1031 and ey = 1023]) (simp_all add: f64_literals)
  also have "\<dots> = f64_180"
    by (rule f64_eqI) (simp_all add: f64_literals rne_def)
  finally show ?thesis .
qed

text \<open>A half turn either way, in degrees.\<close>

lemma in_degrees_range:
  assumes "- f64_pi \<le> x" "x \<le> f64_pi"
  shows "- f64_180 \<le> x * f64_180 / f64_pi" "x * f64_180 / f64_pi \<le> f64_180"
proof -
  have lit: "is_finite f64_pi" "is_finite f64_180" "0 \<le> f64_180" "0 < f64_pi" "is_finite (F64 0x4081abe4b73fefb5)"
    by (simp_all add: f64_literals)
  have k: "f64_pi * f64_180 = F64 0x4081abe4b73fefb5"
    using times_180_pi by (simp add: mult_commute_f64)
  note a = scale_range [OF assms lit(1,2,3), unfolded k]
  show "- f64_180 \<le> x * f64_180 / f64_pi" "x * f64_180 / f64_pi \<le> f64_180"
    using div_range [OF a lit(5,1,4), unfolded pi_in_degrees] .
qed

end
