(* ===== verification/Trajectory.thy ===== *)
theory Trajectory
  imports Complex_Main Joint Float64_Conv
begin

text \<open>
  \<open>robot::motion::TrapezoidalTrajectory\<close> (\<open>include/robot/motion/\<close>,
  \<open>src/motion/trapezoidal_trajectory.cpp\<close>).  The formulas are stated once, over the operations of
  a type of numbers: the program is their instance on \<open>double\<close>, and the motion profile it
  approximates is their instance on the reals.
\<close>

section \<open>Numbers\<close>

record 'n number_ops =
  op_eq :: "'n \<Rightarrow> 'n \<Rightarrow> bool"
  op_sqrt :: "'n \<Rightarrow> 'n"
  lit_half :: 'n
  lit_two :: 'n
  kEndpointEpsilonS :: 'n

definition f64_ops :: "f64 number_ops" where
  "f64_ops = \<lparr>op_eq = feq, op_sqrt = f64_sqrt, lit_half = f64_half, lit_two = f64_two,
     kEndpointEpsilonS = F64 0x3E7AD7F29ABCAF48\<rparr>"

definition real_ops :: "real \<Rightarrow> real number_ops" where
  "real_ops eps = \<lparr>op_eq = (=), op_sqrt = sqrt, lit_half = 1 / 2, lit_two = 2, kEndpointEpsilonS = eps\<rparr>"

section \<open>The trajectory\<close>

record 'n trajectory =
  start_position :: 'n
  tr_target_position :: 'n
  tr_sign :: 'n
  tr_max_acceleration :: 'n
  accel_duration_s :: 'n
  cruise_duration_s :: 'n
  cruise_velocity :: 'n
  accel_distance :: 'n

record 'n trajectory_sample =
  sample_position :: 'n
  sample_velocity :: 'n
  sample_acceleration :: 'n

text \<open>The part of \<open>create\<close> after the checks.\<close>

definition plan_profile ::
    "('n::{zero, one, plus, minus, uminus, times, inverse, abs, ord}) number_ops \<Rightarrow> 'n \<Rightarrow> 'n \<Rightarrow> 'n \<Rightarrow> 'n \<Rightarrow> 'n trajectory" where
  "plan_profile ops start_pos target_pos v a =
     (let distance = target_pos - start_pos;
          absDistance = \<bar>distance\<bar>;
          sign = (if 0 < absDistance then (if 0 < distance then 1 else - 1) else 0)
      in if op_eq ops absDistance 0 then
           \<lparr>start_position = start_pos, tr_target_position = target_pos, tr_sign = sign,
            tr_max_acceleration = a, accel_duration_s = 0, cruise_duration_s = 0,
            cruise_velocity = 0, accel_distance = 0\<rparr>
         else
           let accelDistanceAtMaxV = (v * v) / (lit_two ops * a)
           in if lit_two ops * accelDistanceAtMaxV \<le> absDistance then
                let accelDurationS = v / a;
                    cruiseDistance = absDistance - lit_two ops * accelDistanceAtMaxV;
                    cruiseDurationS = cruiseDistance / v
                in \<lparr>start_position = start_pos, tr_target_position = target_pos, tr_sign = sign,
                    tr_max_acceleration = a, accel_duration_s = accelDurationS,
                    cruise_duration_s = cruiseDurationS, cruise_velocity = v,
                    accel_distance = accelDistanceAtMaxV\<rparr>
              else
                let peakVelocity = op_sqrt ops (absDistance * a);
                    accelDurationS = peakVelocity / a;
                    accelDistance = lit_half ops * a * accelDurationS * accelDurationS
                in \<lparr>start_position = start_pos, tr_target_position = target_pos, tr_sign = sign,
                    tr_max_acceleration = a, accel_duration_s = accelDurationS,
                    cruise_duration_s = 0, cruise_velocity = peakVelocity,
                    accel_distance = accelDistance\<rparr>)"

definition TrapezoidalTrajectory_create ::
    "f64 \<Rightarrow> f64 \<Rightarrow> joint_limits \<Rightarrow> (joint_error, f64 trajectory) expected" where
  "TrapezoidalTrajectory_create start_pos target_pos l =
     and_then (JointLimits_validate l) (\<lambda>_.
       if start_pos < min_position l \<or> max_position l < start_pos \<or>
          target_pos < min_position l \<or> max_position l < target_pos
       then Unexpected PositionOutOfRange
       else Ok (plan_profile f64_ops start_pos target_pos (max_velocity l) (max_acceleration l)))"

definition total_duration ::
    "('n::{zero, one, plus, minus, uminus, times, inverse, abs, ord}) number_ops \<Rightarrow> 'n trajectory \<Rightarrow> 'n" where
  "total_duration ops tr = lit_two ops * accel_duration_s tr + cruise_duration_s tr"

text \<open>\<open>duration\<close>: \<open>None\<close> if the conversion to nanoseconds is undefined.\<close>

definition duration :: "f64 trajectory \<Rightarrow> i64 option" where
  "duration tr = chrono_round_ns (total_duration f64_ops tr)"

text \<open>The state \<open>tau\<close> seconds after the start.\<close>

definition sample_at ::
    "('n::{zero, one, plus, minus, uminus, times, inverse, abs, ord}) number_ops \<Rightarrow> 'n trajectory \<Rightarrow> 'n \<Rightarrow> 'n trajectory_sample" where
  "sample_at ops tr tau =
     (if op_eq ops (tr_sign tr) 0
      then \<lparr>sample_position = start_position tr, sample_velocity = 0, sample_acceleration = 0\<rparr>
      else
        let totalDurationS = total_duration ops tr;
            tau = (if tau < 0 then 0 else if totalDurationS < tau then totalDurationS else tau)
        in if totalDurationS - kEndpointEpsilonS ops \<le> tau
           then \<lparr>sample_position = tr_target_position tr, sample_velocity = 0, sample_acceleration = 0\<rparr>
           else
             let a = tr_max_acceleration tr; sign = tr_sign tr
             in if tau \<le> accel_duration_s tr then
                  let vel = a * tau;
                      pos = lit_half ops * a * tau * tau
                  in \<lparr>sample_position = start_position tr + sign * pos, sample_velocity = sign * vel,
                      sample_acceleration = sign * a\<rparr>
                else if tau \<le> accel_duration_s tr + cruise_duration_s tr then
                  let tIntoCruise = tau - accel_duration_s tr;
                      pos = accel_distance tr + cruise_velocity tr * tIntoCruise
                  in \<lparr>sample_position = start_position tr + sign * pos,
                      sample_velocity = sign * cruise_velocity tr, sample_acceleration = 0\<rparr>
                else
                  let tIntoDec = tau - accel_duration_s tr - cruise_duration_s tr;
                      cruiseDistance = cruise_velocity tr * cruise_duration_s tr;
                      vel = cruise_velocity tr - a * tIntoDec;
                      pos = accel_distance tr + cruiseDistance + cruise_velocity tr * tIntoDec -
                        lit_half ops * a * tIntoDec * tIntoDec
                  in \<lparr>sample_position = start_position tr + sign * pos, sample_velocity = sign * vel,
                      sample_acceleration = - sign * a\<rparr>)"

definition sample :: "f64 trajectory \<Rightarrow> i64 \<Rightarrow> f64 trajectory_sample" where
  "sample tr t = sample_at f64_ops tr (seconds_of t)"

section \<open>The profile over the reals\<close>

text \<open>A plan for positive bounds: the durations and distances fit together.\<close>

definition profile_ok :: "real trajectory \<Rightarrow> bool" where
  "profile_ok tr \<longleftrightarrow>
     0 < tr_max_acceleration tr \<and> 0 \<le> accel_duration_s tr \<and> 0 \<le> cruise_duration_s tr \<and>
     cruise_velocity tr = tr_max_acceleration tr * accel_duration_s tr \<and>
     accel_distance tr = tr_max_acceleration tr * (accel_duration_s tr)\<^sup>2 / 2 \<and>
     tr_sign tr * (2 * accel_distance tr + cruise_velocity tr * cruise_duration_s tr) =
       tr_target_position tr - start_position tr \<and>
     (tr_sign tr = 1 \<or> tr_sign tr = - 1)"

lemma plan_profile_ok:
  fixes eps :: real
  assumes "0 < v" "0 < a" "start_pos \<noteq> target_pos"
  defines "tr \<equiv> plan_profile (real_ops eps) start_pos target_pos v a"
  shows "profile_ok tr" "start_position tr = start_pos" "tr_target_position tr = target_pos"
    "tr_max_acceleration tr = a" "cruise_velocity tr \<le> v" "0 < accel_duration_s tr"
proof -
  define d where "d = \<bar>target_pos - start_pos\<bar>"
  have d: "0 < d" using assms(3) by (simp add: d_def)
  show "start_position tr = start_pos" "tr_target_position tr = target_pos" "tr_max_acceleration tr = a"
    by (simp_all add: tr_def plan_profile_def Let_def)
  have sg: "(if 0 < target_pos - start_pos then 1 else - 1) * d = target_pos - start_pos"
    by (simp add: d_def)
  have "profile_ok tr \<and> cruise_velocity tr \<le> v \<and> 0 < accel_duration_s tr"
  proof (cases "v * v / a \<le> d")
    case True
    then have tr: "tr = \<lparr>start_position = start_pos, tr_target_position = target_pos,
        tr_sign = (if 0 < target_pos - start_pos then 1 else - 1), tr_max_acceleration = a,
        accel_duration_s = v / a, cruise_duration_s = (d - v * v / a) / v, cruise_velocity = v,
        accel_distance = (v * v) / (2 * a)\<rparr>"
      using d assms(3) [symmetric] by (simp add: tr_def plan_profile_def real_ops_def Let_def d_def [symmetric])
    have "2 * (v * v / (2 * a)) + v * ((d - v * v / a) / v) = d" using assms(1,2) by (simp add: field_simps)
    then show ?thesis using True assms(1,2) sg unfolding tr profile_ok_def
      by (simp add: power2_eq_square field_simps)
  next
    case False
    define p where "p = sqrt (d * a)"
    have p: "p * p = d * a" "0 < p" using d assms(2) by (simp_all add: p_def)
    have tr: "tr = \<lparr>start_position = start_pos, tr_target_position = target_pos,
        tr_sign = (if 0 < target_pos - start_pos then 1 else - 1), tr_max_acceleration = a,
        accel_duration_s = p / a, cruise_duration_s = 0, cruise_velocity = p,
        accel_distance = 1 / 2 * a * (p / a) * (p / a)\<rparr>"
      using d False assms(3) [symmetric] by (simp add: tr_def plan_profile_def real_ops_def Let_def d_def [symmetric] p_def)
    have "d * a < v * v" using False assms(2) by (simp add: field_simps)
    then have "p * p < v * v" using p(1) by simp
    then have "p < v" using p(2) assms(1) by (metis less_imp_le mult_mono not_less)
    moreover have "2 * (1 / 2 * a * (p / a) * (p / a)) = d" using p assms(2) by (simp add: field_simps)
    ultimately show ?thesis using p assms(2) sg unfolding tr profile_ok_def
      by (simp add: power2_eq_square field_simps)
  qed
  then show "profile_ok tr" "cruise_velocity tr \<le> v" "0 < accel_duration_s tr" by simp_all
qed

lemma signed_distance:
  assumes "profile_ok tr"
  shows "tr_sign tr * \<bar>tr_target_position tr - start_position tr\<bar> = tr_target_position tr - start_position tr"
proof -
  have ok: "0 \<le> accel_duration_s tr" "0 \<le> cruise_duration_s tr" "0 < tr_max_acceleration tr"
    "cruise_velocity tr = tr_max_acceleration tr * accel_duration_s tr"
    "accel_distance tr = tr_max_acceleration tr * (accel_duration_s tr)\<^sup>2 / 2"
    and g: "tr_sign tr * (2 * accel_distance tr + cruise_velocity tr * cruise_duration_s tr) =
      tr_target_position tr - start_position tr" "tr_sign tr = 1 \<or> tr_sign tr = - 1"
    using assms(1) unfolding profile_ok_def by blast+
  have "0 \<le> 2 * accel_distance tr + cruise_velocity tr * cruise_duration_s tr"
    unfolding ok(4,5) using ok(1-3) by simp
  then show ?thesis unfolding g(1) [symmetric] using g(2) by auto
qed

text \<open>Distance covered, speed and its change as functions of the time.\<close>

definition progress :: "real trajectory \<Rightarrow> real \<Rightarrow> real" where
  "progress tr t =
     (let A = accel_duration_s tr; B = A + cruise_duration_s tr; a = tr_max_acceleration tr
      in if t \<le> A then a / 2 * t\<^sup>2
         else if t \<le> B then a / 2 * A\<^sup>2 + a * A * (t - A)
         else a / 2 * A\<^sup>2 + a * A * (t - A) - a / 2 * (t - B)\<^sup>2)"

definition speed :: "real trajectory \<Rightarrow> real \<Rightarrow> real" where
  "speed tr t =
     (let A = accel_duration_s tr; B = A + cruise_duration_s tr; a = tr_max_acceleration tr
      in if t \<le> A then a * t else if t \<le> B then a * A else a * A - a * (t - B))"

lemma sample_at_real:
  assumes "profile_ok tr" "0 \<le> eps" "0 \<le> t" "t < total_duration (real_ops eps) tr - eps"
  shows "sample_position (sample_at (real_ops eps) tr t) = start_position tr + tr_sign tr * progress tr t"
    and "sample_velocity (sample_at (real_ops eps) tr t) = tr_sign tr * speed tr t"
    and "\<bar>sample_acceleration (sample_at (real_ops eps) tr t)\<bar> \<le> tr_max_acceleration tr"
proof -
  have T: "t < total_duration (real_ops eps) tr" using assms(2,4) by linarith
  have ok: "cruise_velocity tr = tr_max_acceleration tr * accel_duration_s tr"
    "accel_distance tr = tr_max_acceleration tr / 2 * (accel_duration_s tr)\<^sup>2" "0 < tr_max_acceleration tr"
    "tr_sign tr \<noteq> 0" "\<bar>tr_sign tr\<bar> = 1"
    using assms(1) by (auto simp: profile_ok_def)
  show "sample_position (sample_at (real_ops eps) tr t) = start_position tr + tr_sign tr * progress tr t"
    "sample_velocity (sample_at (real_ops eps) tr t) = tr_sign tr * speed tr t"
    "\<bar>sample_acceleration (sample_at (real_ops eps) tr t)\<bar> \<le> tr_max_acceleration tr"
    using assms(2-4) T ok(3-5) unfolding sample_at_def Let_def progress_def speed_def ok(1,2)
    by (simp_all add: real_ops_def total_duration_def abs_mult power2_eq_square diff_diff_eq)
      (simp add: algebra_simps)
qed

text \<open>Each phase takes a parabola off the first one, of which the profile has one branch.\<close>

lemma progress_parabolas:
  assumes "profile_ok tr"
  defines "x \<equiv> \<lambda>t. t - accel_duration_s tr" and "a \<equiv> tr_max_acceleration tr"
  defines "y \<equiv> \<lambda>t. x t - cruise_duration_s tr"
  shows "progress tr t = a / 2 * (t\<^sup>2 - (max 0 (x t))\<^sup>2 - (max 0 (y t))\<^sup>2)"
    and "speed tr t = a * (t - max 0 (x t) - max 0 (y t))"
proof -
  have ok: "0 \<le> cruise_duration_s tr" using assms(1) by (simp add: profile_ok_def)
  show "progress tr t = a / 2 * (t\<^sup>2 - (max 0 (x t))\<^sup>2 - (max 0 (y t))\<^sup>2)"
    using ok by (simp add: progress_def Let_def max_def x_def y_def a_def [symmetric]) (simp add: power2_eq_square field_simps)
  show "speed tr t = a * (t - max 0 (x t) - max 0 (y t))"
    using ok by (simp add: speed_def Let_def max_def x_def y_def a_def [symmetric]) (simp add: field_simps)
qed

text \<open>
  The speed changes by at most the acceleration, so the position follows the velocity to the
  second order.
\<close>

lemma branch_tangent:
  fixes p q :: real
  defines "g \<equiv> (max 0 p)\<^sup>2 - (max 0 q)\<^sup>2 - 2 * max 0 q * (p - q)"
  shows "0 \<le> g" "g \<le> (p - q)\<^sup>2"
proof -
  have "g = (max 0 p - max 0 q)\<^sup>2 + 2 * (max 0 q * max 0 (- p))"
    by (simp add: g_def max_def power2_eq_square algebra_simps)
  moreover have "0 \<le> max 0 q * max 0 (- p)" by simp
  ultimately show "0 \<le> g" by (metis add_nonneg_nonneg mult_nonneg_nonneg zero_le_numeral zero_le_power2)
  have "(p - q)\<^sup>2 - g = (max 0 (- p) - max 0 (- q))\<^sup>2 + 2 * (max 0 (- q) * max 0 p)"
    by (simp add: g_def max_def power2_eq_square algebra_simps)
  moreover have "0 \<le> max 0 (- q) * max 0 p" by simp
  ultimately show "g \<le> (p - q)\<^sup>2"
    by (metis add_nonneg_nonneg diff_ge_0_iff_ge mult_nonneg_nonneg zero_le_numeral zero_le_power2)
qed

lemma progress_follows_speed:
  assumes "profile_ok tr"
  shows "\<bar>progress tr u - progress tr t - speed tr t * (u - t)\<bar> \<le> tr_max_acceleration tr / 2 * (u - t)\<^sup>2"
proof -
  define a A B where "a = tr_max_acceleration tr" and "A = accel_duration_s tr" and "B = A + cruise_duration_s tr"
  define g where "g C = (max 0 (u - C))\<^sup>2 - (max 0 (t - C))\<^sup>2 - 2 * max 0 (t - C) * (u - t)" for C
  have g: "0 \<le> g C" "g C \<le> (u - t)\<^sup>2" for C
    using branch_tangent [of "u - C" "t - C"] by (simp_all add: g_def)
  note p = progress_parabolas [OF assms, folded a_def A_def, unfolded diff_diff_eq, folded B_def]
  have e: "progress tr u - progress tr t - speed tr t * (u - t) = a / 2 * ((u - t)\<^sup>2 - g A - g B)"
    unfolding p by (simp add: g_def power2_eq_square field_simps)
  have "\<bar>(u - t)\<^sup>2 - g A - g B\<bar> \<le> (u - t)\<^sup>2" using g [of A] g [of B] by linarith
  moreover have "0 < a" using assms by (simp add: profile_ok_def a_def)
  ultimately show ?thesis unfolding e abs_mult a_def [symmetric] by (intro mult_mono) simp_all
qed

text \<open>The end of the profile: what remains is covered at constant deceleration.\<close>

lemma progress_end:
  assumes "profile_ok tr" and "accel_duration_s tr + cruise_duration_s tr \<le> t"
  defines "T \<equiv> 2 * accel_duration_s tr + cruise_duration_s tr"
  shows "progress tr t = \<bar>tr_target_position tr - start_position tr\<bar> - tr_max_acceleration tr / 2 * (T - t)\<^sup>2"
    and "speed tr t = tr_max_acceleration tr * (T - t)"
proof -
  have g: "tr_sign tr * (2 * accel_distance tr + cruise_velocity tr * cruise_duration_s tr) =
      tr_target_position tr - start_position tr"
    "accel_distance tr = tr_max_acceleration tr * (accel_duration_s tr)\<^sup>2 / 2"
    "cruise_velocity tr = tr_max_acceleration tr * accel_duration_s tr" "\<bar>tr_sign tr\<bar> = 1"
    and nn: "0 \<le> accel_duration_s tr" "0 \<le> cruise_duration_s tr" "0 < tr_max_acceleration tr"
    using assms(1) by (auto simp: profile_ok_def)
  have "\<bar>tr_target_position tr - start_position tr\<bar> = 2 * accel_distance tr + cruise_velocity tr * cruise_duration_s tr"
    unfolding g(1) [symmetric] abs_mult g(4) using nn by (simp add: g(2,3))
  then show "progress tr t = \<bar>tr_target_position tr - start_position tr\<bar> - tr_max_acceleration tr / 2 * (T - t)\<^sup>2"
    using assms(2) nn unfolding T_def g(2,3)
    by (auto simp: progress_def Let_def power2_eq_square field_simps)
  show "speed tr t = tr_max_acceleration tr * (T - t)"
    using assms(2) nn unfolding T_def by (auto simp: speed_def Let_def field_simps)
qed

lemma profile_distance:
  assumes "profile_ok tr"
  defines "A \<equiv> accel_duration_s tr" and "a \<equiv> tr_max_acceleration tr" and "C \<equiv> cruise_duration_s tr"
  shows "\<bar>tr_target_position tr - start_position tr\<bar> = a * A\<^sup>2 + a * A * C"
proof -
  have "0 \<le> A" "0 \<le> C" using assms(1) by (simp_all add: profile_ok_def A_def C_def)
  then have "progress tr (A + C) = a / 2 * A\<^sup>2 + a * A * C"
    by (simp add: progress_def Let_def A_def [symmetric] a_def [symmetric] C_def [symmetric])
  moreover have "progress tr (A + C) = \<bar>tr_target_position tr - start_position tr\<bar> - a / 2 * A\<^sup>2"
    using progress_end(1) [OF assms(1), of "A + C"] by (simp add: A_def a_def C_def)
  ultimately show ?thesis by simp
qed

lemma progress_bounds:
  assumes "profile_ok tr" "0 \<le> t" "t \<le> 2 * accel_duration_s tr + cruise_duration_s tr"
  shows "0 \<le> progress tr t" "progress tr t \<le> \<bar>tr_target_position tr - start_position tr\<bar>"
    and "0 \<le> speed tr t" "speed tr t \<le> cruise_velocity tr"
proof -
  define A a C where "A = accel_duration_s tr" and "a = tr_max_acceleration tr" and "C = cruise_duration_s tr"
  have nn: "0 \<le> A" "0 \<le> C" "0 < a" and v: "cruise_velocity tr = a * A"
    using assms(1) by (simp_all add: profile_ok_def A_def a_def C_def)
  have sqA: "x\<^sup>2 \<le> A\<^sup>2" if "0 \<le> x" "x \<le> A" for x using that by (intro power_mono)
  note D = profile_distance [OF assms(1), folded A_def a_def C_def]
  consider "t \<le> A" | "A < t" "t \<le> A + C" | "A + C < t" by linarith
  then have "0 \<le> progress tr t \<and> progress tr t \<le> a * A\<^sup>2 + a * A * C \<and> 0 \<le> speed tr t \<and> speed tr t \<le> a * A"
  proof cases
    case 1
    then have e: "progress tr t = a / 2 * t\<^sup>2" "speed tr t = a * t"
      by (simp_all add: progress_def speed_def Let_def A_def a_def)
    have "a / 2 * t\<^sup>2 \<le> a * A\<^sup>2 + a * A * C"
    proof -
      have "a / 2 * t\<^sup>2 \<le> a / 2 * A\<^sup>2" using nn sqA [OF assms(2) 1] by (intro mult_left_mono) simp_all
      also have "\<dots> \<le> a * A\<^sup>2 + a * A * C" using nn by simp
      finally show ?thesis .
    qed
    moreover have "0 \<le> a / 2 * t\<^sup>2" using nn by simp
    ultimately show ?thesis using 1 nn assms(2) unfolding e by simp
  next
    case 2
    then have e: "progress tr t = a / 2 * A\<^sup>2 + a * A * (t - A)" "speed tr t = a * A"
      by (simp_all add: progress_def speed_def Let_def A_def a_def C_def)
    have "a * A * (t - A) \<le> a * A * C" using 2 nn by (intro mult_left_mono) simp_all
    moreover have "0 \<le> a * A * (t - A)" "0 \<le> a * A\<^sup>2" "0 \<le> a * A" using 2 nn by simp_all
    ultimately show ?thesis unfolding e by linarith
  next
    case 3
    let ?r = "2 * A + C - t"
    have r: "0 \<le> ?r" "?r \<le> A" using 3 assms(3) by (simp_all add: A_def C_def)
    have e: "progress tr t = a * A\<^sup>2 + a * A * C - a / 2 * ?r\<^sup>2" "speed tr t = a * ?r"
      using progress_end [OF assms(1), of t] 3 D by (simp_all add: A_def a_def C_def)
    have "a / 2 * ?r\<^sup>2 \<le> a / 2 * A\<^sup>2" using nn sqA [OF r] by (intro mult_left_mono) simp_all
    moreover have "0 \<le> a * A\<^sup>2" "0 \<le> a * A * C" "0 \<le> a / 2 * ?r\<^sup>2" using nn by simp_all
    moreover have "a * ?r \<le> a * A" "0 \<le> a * ?r" using r nn by (simp_all add: mult_left_mono)
    ultimately show ?thesis unfolding e by linarith
  qed
  then show "0 \<le> progress tr t" "progress tr t \<le> \<bar>tr_target_position tr - start_position tr\<bar>"
    "0 \<le> speed tr t" "speed tr t \<le> cruise_velocity tr"
    by (simp_all add: D v)
qed

text \<open>Any two samples before the final snap.\<close>

lemma sample_motion:
  assumes "profile_ok tr" "0 \<le> eps"
    and "0 \<le> t" "t < total_duration (real_ops eps) tr - eps" "0 \<le> u" "u < total_duration (real_ops eps) tr - eps"
  defines "x \<equiv> \<lambda>t. sample_position (sample_at (real_ops eps) tr t)"
    and "w \<equiv> \<lambda>t. sample_velocity (sample_at (real_ops eps) tr t)"
  shows "min (start_position tr) (tr_target_position tr) \<le> x t \<and> x t \<le> max (start_position tr) (tr_target_position tr) \<and>
      \<bar>w t\<bar> \<le> cruise_velocity tr \<and> 0 \<le> w t * (tr_target_position tr - start_position tr) \<and>
      \<bar>sample_acceleration (sample_at (real_ops eps) tr t)\<bar> \<le> tr_max_acceleration tr \<and>
      \<bar>x u - x t - w t * (u - t)\<bar> \<le> tr_max_acceleration tr / 2 * (u - t)\<^sup>2 \<and>
      (accel_duration_s tr + cruise_duration_s tr \<le> t \<longrightarrow>
        \<bar>tr_target_position tr - x t\<bar> = tr_max_acceleration tr / 2 * (total_duration (real_ops eps) tr - t)\<^sup>2)"
proof -
  note st = sample_at_real [OF assms(1-4)] and su = sample_at_real [OF assms(1,2,5,6)]
  have T: "total_duration (real_ops eps) tr = 2 * accel_duration_s tr + cruise_duration_s tr"
    by (simp add: total_duration_def real_ops_def)
  have le: "t \<le> 2 * accel_duration_s tr + cruise_duration_s tr" using assms(2,4) by (simp add: T)
  note b = progress_bounds [OF assms(1,3) le] and f = progress_follows_speed [OF assms(1), of u t]
    and e = progress_end(1) [OF assms(1), of t] and g = signed_distance [OF assms(1)]
  have diff: "x u - x t - w t * (u - t) =
      tr_sign tr * (progress tr u - progress tr t - speed tr t * (u - t))"
    by (simp add: x_def w_def st su algebra_simps)
  have f': "\<bar>speed tr t * (u - t) - (progress tr u - progress tr t)\<bar> \<le> tr_max_acceleration tr / 2 * (u - t)\<^sup>2"
    using f by (simp only: abs_minus_commute)
  have "tr_sign tr = 1 \<or> tr_sign tr = - 1" using assms(1) by (simp add: profile_ok_def)
  then show ?thesis
  proof
    assume s: "tr_sign tr = 1"
    then have "start_position tr \<le> tr_target_position tr" using g by simp
    then show ?thesis using b f e st(3) unfolding diff by (auto simp: x_def w_def st s T)
  next
    assume s: "tr_sign tr = - 1"
    then have "tr_target_position tr \<le> start_position tr" using g by simp
    then show ?thesis using b f' e st(3) unfolding diff by (auto simp: x_def w_def st s T mult_nonneg_nonpos)
  qed
qed

section \<open>The end of the profile in doubles\<close>

lemma eps_fields:
  "fsc (F64 0x3E7AD7F29ABCAF48) = int (7555786372591432 * 2 ^ 998)"
  "is_finite (F64 0x3E7AD7F29ABCAF48)"
proof -
  have m: "f64_mag (F64 0x3E7AD7F29ABCAF48) = 0x3E7AD7F29ABCAF48" "\<not> f64_neg (F64 0x3E7AD7F29ABCAF48)"
    by (simp_all add: F64_fields sgn_bit_def)
  have "scm 0x3E7AD7F29ABCAF48 = (2 ^ 52 + 3052186745220936) * 2 ^ 998"
    by (rule scm_normal) simp_all
  then show "fsc (F64 0x3E7AD7F29ABCAF48) = int (7555786372591432 * 2 ^ 998)" by (simp add: fsc_def m)
  show "is_finite (F64 0x3E7AD7F29ABCAF48)" by (simp add: is_finite_def m inf_mag_def)
qed

text \<open>A duration of up to 97 days, and its product with a billion, which is rounded once.\<close>

lemma seconds_range:
  assumes "0 \<le> T" and "T \<le> F64 0x4160000000000000"
  shows "is_finite T" "fsc T = int (scm (f64_mag T))" "scm (f64_mag T) \<le> 2 ^ 23 * unit_scale"
proof -
  have big: "f64_mag (F64 0x4160000000000000) = 0x4160000000000000" "\<not> f64_neg (F64 0x4160000000000000)"
    by (simp_all add: F64_fields sgn_bit_def)
  have "scm 0x4160000000000000 = (2 ^ 52 + 0) * 2 ^ 1045" by (rule scm_normal) simp_all
  then have scmb: "scm 0x4160000000000000 = 2 ^ 23 * unit_scale"
    unfolding unit_scale_def by (simp only: add_0_right flip: power_add) simp
  show finT: "is_finite T" using assms by (rule finite_between) (simp_all add: is_finite_def big inf_mag_def)
  have "fsc T \<le> fsc (F64 0x4160000000000000)"
    using assms(2) finT f64_le_finite_key [of T "F64 0x4160000000000000"]
    by (simp add: is_finite_def big inf_mag_def)
  then show "fsc T = int (scm (f64_mag T))" "scm (f64_mag T) \<le> 2 ^ 23 * unit_scale"
    using assms(1) finT fsc_nonneg_iff [of T] by (auto simp: fsc_def big scmb f64_order split: if_splits)
qed

lemma nanosecond_product:
  assumes "0 \<le> T" and "T \<le> F64 0x4160000000000000"
  obtains m where "0 \<le> T * f64_1e9" "is_finite (T * f64_1e9)"
    and "f64_trunc (T * f64_1e9) = int (scm m div unit_scale)"
    and "\<bar>fsc T * 1000000000 - int (scm m)\<bar> \<le> int unit_scale + 1"
proof -
  define s where "s = scm (f64_mag T)"
  note r = seconds_range [OF assms, folded s_def]
  define m where "m = rnd_mag (s * 1000000000) 1"
  have x: "T * f64_1e9 = mk_f64 (f64_neg T) m"
  proof -
    have "T * f64_1e9 = mk_f64 (f64_neg T) (rnd_mag (s * 1000000000 * unit_scale) (1 * unit_scale))"
      using r(1) by (simp add: times_f64_def Let_def scm_1e9 s_def mult.assoc)
    also have "\<dots> = mk_f64 (f64_neg T) m" unfolding m_def by (subst rnd_mag_scale) simp_all
    finally show ?thesis .
  qed
  have s53: "s * 1000000000 \<le> 2 ^ 53 * unit_scale"
  proof -
    have "s * 1000000000 \<le> 2 ^ 23 * unit_scale * 1000000000" using r(3) by (rule mult_right_mono) simp
    also have "\<dots> \<le> 2 ^ 53 * unit_scale" by simp
    finally show ?thesis .
  qed
  have "2 ^ 53 * unit_scale = scm (1076 * 2 ^ 52)"
    unfolding unit_scale_def by (subst scm_pow2) (simp_all only: power_add [symmetric], simp_all)
  then have "m \<le> 1076 * 2 ^ 52" unfolding m_def using s53 by (intro rnd_mag_le) (simp_all add: inf_mag_def)
  then have m: "m < inf_mag" by (simp add: inf_mag_def)
  then have ms [simp]: "m < sgn_bit" using inf_mag_less by (rule less_trans)
  have "2 ^ 53 * \<bar>int (s * 1000000000) - int (scm m) * int 1\<bar> \<le> int (s * 1000000000) + 2 ^ 52 * int 1"
    unfolding m_def by (rule rnd_mag_error) (use m in \<open>simp_all add: m_def\<close>)
  moreover have "int (s * 1000000000) \<le> int (2 ^ 53 * unit_scale)" using s53 by (simp only: of_nat_le_iff)
  ultimately have err: "\<bar>int (s * 1000000000) - int (scm m)\<bar> \<le> int unit_scale + 1" by simp
  have fx: "is_finite (T * f64_1e9)" unfolding x using m by simp
  have nx: "0 \<le> T * f64_1e9"
  proof (cases "f64_neg T")
    case True
    then have "s = 0" using assms(1) by (simp add: s_def f64_order f64_key_def)
    then show ?thesis unfolding x m_def by (simp add: f64_order)
  next
    case False
    then show ?thesis unfolding x using m by (simp add: f64_order)
  qed
  have "f64_trunc (T * f64_1e9) = int (scm m div unit_scale)"
    unfolding f64_trunc_nonneg [OF nx fx] unfolding x using m by simp
  moreover have "\<bar>fsc T * 1000000000 - int (scm m)\<bar> \<le> int unit_scale + 1" using err by (simp add: r(2))
  ultimately show ?thesis by (rule that [OF nx fx])
qed

text \<open>The tolerance, a hundred nanoseconds up to rounding, and a comparison across it.\<close>

lemma within_tolerance:
  assumes "is_finite T" "\<bar>sint d\<bar> < 2 ^ 53" "fsc T * 1000000000 \<le> (sint d + 99) * int unit_scale"
  shows "T - F64 0x3E7AD7F29ABCAF48 \<le> seconds_of d"
proof -
  define E where "E = int (7555786372591432 * 2 ^ 998)"
  have E: "99 * int unit_scale \<le> E * 1000000000"
  proof -
    have "99 * unit_scale = 99 * 2 ^ 76 * 2 ^ 998" unfolding unit_scale_def by (simp only: mult.assoc flip: power_add) simp
    also have "\<dots> \<le> 7555786372591432 * 1000000000 * 2 ^ 998" by (rule mult_right_mono) simp_all
    finally have "99 * unit_scale \<le> 7555786372591432 * 2 ^ 998 * 1000000000" by (simp only: ac_simps)
    then have "int (99 * unit_scale) \<le> int (7555786372591432 * 2 ^ 998 * 1000000000)" by (simp only: of_nat_le_iff)
    then show ?thesis by (simp only: E_def of_nat_mult of_nat_numeral)
  qed
  have main: "(fsc T - E) * 1000000000 \<le> sint d * int unit_scale"
    using assms(3) E unfolding left_diff_distrib distrib_right by linarith
  note ex = f64_of_int_exact [OF assms(2)]
  have k1: "f64_key (seconds_of d) = rkey (sint d * int unit_scale * int unit_scale) (1000000000 * unit_scale)"
  proof -
    have "fsc f64_1e9 = int (1000000000 * unit_scale)" by (simp add: fsc_def scm_1e9)
    then show ?thesis unfolding seconds_of_def using div_finite(1) [OF ex(2) f64_1e9_fields(3)] ex(1)
      by (simp add: nat_mult_distrib)
  qed
  have k2: "f64_key (T - F64 0x3E7AD7F29ABCAF48) = rkey (fsc T - E) 1" "\<not> is_nan (T - F64 0x3E7AD7F29ABCAF48)"
    unfolding minus_f64_def using add_finite [OF assms(1), of "- F64 0x3E7AD7F29ABCAF48"] eps_fields by (simp_all add: E_def)
  have "rkey (fsc T - E) 1 \<le> rkey (sint d * int unit_scale * int unit_scale) (1000000000 * unit_scale)"
  proof (rule rkey_mono)
    have "(fsc T - E) * 1000000000 * int unit_scale \<le> sint d * int unit_scale * int unit_scale"
      using main by (rule mult_right_mono) simp
    then show "(fsc T - E) * int (1000000000 * unit_scale) \<le> sint d * int unit_scale * int unit_scale * int 1"
      by simp
  qed simp_all
  then show ?thesis using k2 by (simp add: f64_order k1)
qed

text \<open>
  \<open>duration\<close> loses at most two nanoseconds to the rounding of the count and two to that of the
  product; the tolerance covers them.
\<close>

lemma duration_covers:
  assumes "0 \<le> T" and "T \<le> F64 0x4160000000000000"
  shows "\<exists>d. chrono_round_ns T = Some d \<and> 0 \<le> sint d \<and> T - F64 0x3E7AD7F29ABCAF48 \<le> seconds_of d"
proof -
  note s = seconds_range [OF assms]
  obtain m where x: "0 \<le> T * f64_1e9" "is_finite (T * f64_1e9)"
    and t: "f64_trunc (T * f64_1e9) = int (scm m div unit_scale)"
    and err: "\<bar>fsc T * 1000000000 - int (scm m)\<bar> \<le> int unit_scale + 1"
    using nanosecond_product [OF assms] by blast
  define q where "q = scm m div unit_scale"
  have q: "int q * int unit_scale \<le> int (scm m)" "int (scm m) < (int q + 1) * int unit_scale"
  proof -
    have "q * unit_scale \<le> scm m" "scm m < (q + 1) * unit_scale"
      unfolding q_def by (simp_all add: dividend_less_div_times)
    then have "int (q * unit_scale) \<le> int (scm m)" "int (scm m) < int ((q + 1) * unit_scale)"
      by (simp_all only: of_nat_le_iff of_nat_less_iff)
    then show "int q * int unit_scale \<le> int (scm m)" "int (scm m) < (int q + 1) * int unit_scale"
      by (simp_all add: algebra_simps)
  qed
  have u1: "1 \<le> int unit_scale" using unit_scale_pos by linarith
  have "int (scm (f64_mag T)) \<le> int (2 ^ 23 * unit_scale)" using s(3) by (simp only: of_nat_le_iff)
  then have "fsc T \<le> 8388608 * int unit_scale" by (simp add: s(2))
  then have "int q * int unit_scale \<le> 8388608000000002 * int unit_scale" using err q(1) u1 by linarith
  then have q53: "int q \<le> 8388608000000002" using u1 by (simp only: mult_le_cancel_right)
  then obtain d where d: "chrono_round_ns T = Some d" "int q \<le> sint d" "sint d \<le> int q + 1"
    using chrono_round_near [OF x] unfolding t q_def by auto
  have "int q * int unit_scale \<le> sint d * int unit_scale" using d(2) by (rule mult_right_mono) simp
  then have "fsc T * 1000000000 \<le> (sint d + 99) * int unit_scale"
    using err q(2) u1 unfolding distrib_right by linarith
  then have "T - F64 0x3E7AD7F29ABCAF48 \<le> seconds_of d"
    using d(2,3) q53 by (intro within_tolerance s(1)) simp_all
  then show ?thesis using d by auto
qed

section \<open>Signs in doubles\<close>

lemma diff_key_zero_iff:
  assumes "is_finite x" "is_finite y"
  shows "f64_mag (x - y) = 0 \<longleftrightarrow> f64_key x = f64_key y"
proof
  assume z: "f64_mag (x - y) = 0"
  have k: "rkey (fsc x - fsc y) (Suc 0) = 0"
    using z assms add_finite [of x "- y"] by (simp add: minus_f64_def f64_key_def split: if_splits)
  have one: "rkey 1 (Suc 0) = 1" using rkey_fsc [of "F64 1"]
    by (simp add: fsc_def scm_def F64_fields f64_key_def is_nan_def sgn_bit_def inf_mag_def)
  have "\<not> 1 \<le> fsc x - fsc y" using rkey_mono [of "Suc 0" "Suc 0" 1 "fsc x - fsc y"] k one by auto
  moreover have "\<not> fsc x - fsc y \<le> - 1"
    using rkey_mono [of "Suc 0" "Suc 0" "fsc x - fsc y" "- 1"] k one rkey_uminus [of 1 "Suc 0"] by auto
  ultimately have "fsc x = fsc y" by linarith
  then show "f64_key x = f64_key y"
    using assms fsc_le_iff [of x y] fsc_le_iff [of y x] finite_not_nan by (intro antisym) auto
qed (rule diff_feq_zero(1) [OF assms])

lemma diff_nonneg_not_nan:
  assumes "\<not> is_nan (y - x)" "x \<le> y"
  shows "0 \<le> y - x"
proof (cases "is_finite x \<and> is_finite y")
  case True
  then show ?thesis using diff_nonneg_f64(1) assms(2) by blast
next
  case False
  then show ?thesis
    using assms finite_or_inf [of x] finite_or_inf [of y] f64_le_not_nan [OF assms(2)]
    by (auto simp: minus_f64_def plus_f64_def is_inf_def is_finite_def f64_order f64_key_def split: if_splits)
qed

lemma add_nonneg_not_nan:
  assumes "\<not> is_nan (x + y)" "0 \<le> x" "0 \<le> y"
  shows "0 \<le> x + y"
proof (cases "is_finite x")
  case True
  then show ?thesis using add_nonneg_ge [OF True assms(3)] assms(2) f64_le_trans by blast
next
  case False
  then have "is_inf x" using finite_or_inf [of x] f64_le_not_nan(2) [OF assms(2)] by blast
  then have "x + y = x" using assms(1) by (auto simp: plus_f64_def is_nan_def split: if_splits)
  then show ?thesis using assms(2) by simp
qed

lemma div_nonneg_not_nan:
  assumes "\<not> is_nan (x / y)" "0 \<le> x" "0 < y"
  shows "0 \<le> x / y"
proof -
  have inf_not_zero: "inf_mag \<noteq> 0" by (simp add: inf_mag_def)
  have "f64_neg (x / y) = (f64_neg x \<noteq> f64_neg y)" "f64_mag x = 0 \<Longrightarrow> f64_mag (x / y) = 0"
    using assms(1) inf_not_zero by (auto simp: divide_f64_def Let_def is_inf_def split: if_splits)
  moreover have "\<not> f64_neg y" using assms(3) by (auto simp: f64_order f64_key_def split: if_splits)
  ultimately show ?thesis
    using assms(1,2) f64_le_not_nan(2) [OF assms(2)] by (auto simp: key_nonneg_iff)
qed

lemma sqrt_nonneg_not_nan: "\<not> is_nan (f64_sqrt x) \<Longrightarrow> 0 \<le> f64_sqrt x"
  by (auto simp: f64_sqrt_def key_nonneg_iff sqrt_mag_def Let_def split: if_splits)

text \<open>The total time of a plan is not negative, unless it is not a number.\<close>

lemma plan_total_nonneg:
  fixes start_pos target_pos v a :: f64
  assumes "\<not> v \<le> 0" "\<not> a \<le> 0"
  defines "tr \<equiv> plan_profile f64_ops start_pos target_pos v a"
  assumes "\<not> is_nan (total_duration f64_ops tr)"
  shows "0 \<le> total_duration f64_ops tr"
proof -
  let ?D = "\<bar>target_pos - start_pos\<bar>"
  have lit: "0 \<le> f64_two" "(0 :: f64) \<le> 0" by (simp_all add: f64_literals)
  have parts: "\<not> is_nan (f64_two * accel_duration_s tr)" "\<not> is_nan (accel_duration_s tr)"
    "\<not> is_nan (cruise_duration_s tr)"
    using assms(4) by (auto simp: total_duration_def f64_ops_def is_nan_add_iff is_nan_mult_iff)
  have "0 \<le> accel_duration_s tr \<and> 0 \<le> cruise_duration_s tr"
  proof (cases "feq ?D 0")
    case True
    then show ?thesis by (simp add: tr_def plan_profile_def Let_def f64_ops_def lit)
  next
    case False
    let ?d = "f64_two * ((v * v) / (f64_two * a))"
    show ?thesis
    proof (cases "?d \<le> ?D")
      case True
      then have "\<not> is_nan ?d" by (rule f64_le_not_nan(1))
      then have "\<not> is_nan v" "\<not> is_nan a" by (auto simp: is_nan_mult_iff is_nan_div_iff)
      then have "0 < v" "0 < a" using assms(1,2) by (simp_all add: f64_order)
      moreover have e: "accel_duration_s tr = v / a" "cruise_duration_s tr = (?D - ?d) / v"
        using False True by (simp_all add: tr_def plan_profile_def Let_def f64_ops_def)
      moreover have "0 \<le> v" using \<open>0 < v\<close> by (simp add: f64_order)
      moreover have "0 \<le> ?D - ?d"
        using parts(3) True unfolding e by (intro diff_nonneg_not_nan) (auto simp: is_nan_div_iff)
      ultimately show ?thesis using parts(2,3) div_nonneg_not_nan by simp
    next
      case no: False
      have e: "accel_duration_s tr = f64_sqrt (?D * a) / a" "cruise_duration_s tr = 0"
        using False no by (simp_all add: tr_def plan_profile_def Let_def f64_ops_def)
      then have n: "\<not> is_nan (f64_sqrt (?D * a))" "\<not> is_nan a" using parts(2) by (auto simp: is_nan_div_iff)
      then have "0 < a" using assms(2) by (simp add: f64_order)
      then show ?thesis
        using parts(2) sqrt_nonneg_not_nan [OF n(1)] div_nonneg_not_nan unfolding e by (simp add: lit)
    qed
  qed
  then show ?thesis
    using parts assms(4) lit(1) mult_nonneg_not_nan add_nonneg_not_nan
    by (simp add: total_duration_def f64_ops_def)
qed

lemma plan_sign:
  fixes start_pos target_pos v a :: f64
  assumes "is_finite start_pos" "is_finite target_pos"
  defines "tr \<equiv> plan_profile f64_ops start_pos target_pos v a"
  shows "feq (tr_sign tr) 0 \<longleftrightarrow> feq start_pos target_pos"
    and "start_position tr = start_pos" "tr_target_position tr = target_pos"
proof -
  have n: "\<not> is_nan (target_pos - start_pos)"
    using assms(1,2) by (simp add: is_nan_diff_iff finite_not_nan is_inf_def is_finite_def)
  have z: "f64_mag (target_pos - start_pos) = 0 \<longleftrightarrow> f64_key start_pos = f64_key target_pos"
    using diff_key_zero_iff [OF assms(2,1)] by auto
  have s: "tr_sign tr = (if 0 < \<bar>target_pos - start_pos\<bar> then (if 0 < target_pos - start_pos then 1 else - 1) else 0)"
    by (simp add: tr_def plan_profile_def Let_def)
  have "0 < \<bar>target_pos - start_pos\<bar> \<longleftrightarrow> f64_mag (target_pos - start_pos) \<noteq> 0"
    using n by (simp add: f64_order abs_f64_def f64_key_def) (simp add: is_nan_def)
  moreover have "\<not> feq (1 :: f64) 0" "\<not> feq (- 1 :: f64) 0" "feq (0 :: f64) 0"
    by (simp_all add: feq_def f64_key_def is_nan_def)
  ultimately have "feq (tr_sign tr) 0 \<longleftrightarrow> f64_mag (target_pos - start_pos) = 0" by (simp add: s)
  then show "feq (tr_sign tr) 0 \<longleftrightarrow> feq start_pos target_pos"
    using z assms(1,2) by (simp add: feq_def finite_not_nan)
  show "start_position tr = start_pos" "tr_target_position tr = target_pos"
    by (simp_all add: tr_def plan_profile_def Let_def)
qed

lemma ends_at_target:
  assumes "\<not> feq (tr_sign tr) 0"
    and "0 \<le> total_duration f64_ops tr" and "total_duration f64_ops tr \<le> F64 0x4160000000000000"
  shows "\<exists>d. duration tr = Some d \<and> 0 \<le> sint d \<and>
    (\<forall>t. sint d \<le> sint t \<longrightarrow>
      sample tr t = \<lparr>sample_position = tr_target_position tr, sample_velocity = 0, sample_acceleration = 0\<rparr>)"
proof -
  let ?T = "total_duration f64_ops tr"
  obtain d where d: "duration tr = Some d" "0 \<le> sint d" "?T - kEndpointEpsilonS f64_ops \<le> seconds_of d"
    using duration_covers [OF assms(2,3)] by (auto simp: duration_def f64_ops_def)
  have fin: "is_finite ?T" using assms(2,3) by (rule finite_between) (simp_all add: f64_literals)
  have eps: "?T - kEndpointEpsilonS f64_ops \<le> ?T"
    unfolding minus_f64_def using fin by (intro add_nonpos_le) (simp_all add: f64_ops_def f64_literals)
  have "?T - kEndpointEpsilonS f64_ops \<le> (if seconds_of t < 0 then 0 else if ?T < seconds_of t then ?T else seconds_of t)"
    if "sint d \<le> sint t" for t
  proof -
    have "seconds_of d \<le> seconds_of t" by (rule seconds_of_mono [OF that])
    moreover have "0 \<le> seconds_of d" using d(2) seconds_of_mono [of 0 d] by (simp add: seconds_of_zero)
    ultimately show ?thesis using d(3) eps by (auto simp: f64_order)
  qed
  then have "sample tr t = \<lparr>sample_position = tr_target_position tr, sample_velocity = 0, sample_acceleration = 0\<rparr>"
    if "sint d \<le> sint t" for t
    using assms(1) that by (simp add: sample_def sample_at_def Let_def) (simp add: f64_ops_def)
  then show ?thesis using d(1,2) by blast
qed

section \<open>Properties\<close>

text \<open>C27. The motion profile, computed without rounding: for every start, another target and positive
  limits, the motion begins at the start at rest (unless the end tolerance covers the whole move),
  and at all times before the final snap, the position lies between start and target, the speed
  points at the target and is at most the limit, and the acceleration is at most its limit; the
  position follows the velocity to the second order at every pair of times (so velocity is its
  derivative, across the phase boundaries too); after the acceleration and cruise phases exactly
  \<open>a / 2 (T - t)^2\<close> remains, which bounds the jump that the end tolerance introduces; and from
  the end on the sample is the target at rest.\<close>

theorem trajectory_profile_exact:
  fixes start_pos target_pos v a eps :: real
  assumes "0 < v" "0 < a" "start_pos \<noteq> target_pos" "0 \<le> eps"
  shows "let tr = plan_profile (real_ops eps) start_pos target_pos v a;
      T = total_duration (real_ops eps) tr;
      x = (\<lambda>t. sample_position (sample_at (real_ops eps) tr t));
      w = (\<lambda>t. sample_velocity (sample_at (real_ops eps) tr t)) in
    (0 < T - eps \<longrightarrow> x 0 = start_pos \<and> w 0 = 0) \<and>
    (\<forall>t u. 0 \<le> t \<and> t < T - eps \<and> 0 \<le> u \<and> u < T - eps \<longrightarrow>
      min start_pos target_pos \<le> x t \<and> x t \<le> max start_pos target_pos \<and>
      \<bar>w t\<bar> \<le> v \<and> 0 \<le> w t * (target_pos - start_pos) \<and>
      \<bar>sample_acceleration (sample_at (real_ops eps) tr t)\<bar> \<le> a \<and>
      \<bar>x u - x t - w t * (u - t)\<bar> \<le> a / 2 * (u - t)\<^sup>2 \<and>
      (accel_duration_s tr + cruise_duration_s tr \<le> t \<longrightarrow> \<bar>target_pos - x t\<bar> = a / 2 * (T - t)\<^sup>2)) \<and>
    (\<forall>t \<ge> T - eps. 0 \<le> t \<longrightarrow> sample_at (real_ops eps) tr t =
      \<lparr>sample_position = target_pos, sample_velocity = 0, sample_acceleration = 0\<rparr>)"
proof -
  define tr T where "tr = plan_profile (real_ops eps) start_pos target_pos v a"
    and "T = total_duration (real_ops eps) tr"
  note tr = plan_profile_ok [OF assms(1-3), of eps, folded tr_def]
  have T: "T = 2 * accel_duration_s tr + cruise_duration_s tr"
    by (simp add: T_def total_duration_def real_ops_def)
  have "tr_sign tr \<noteq> 0" using tr(1) by (auto simp: profile_ok_def)
  then have fin: "sample_at (real_ops eps) tr t =
      \<lparr>sample_position = target_pos, sample_velocity = 0, sample_acceleration = 0\<rparr>"
    if "T - eps \<le> t" "0 \<le> t" for t
    using that assms(4) tr(3) unfolding sample_at_def Let_def T_def [symmetric]
    by (auto simp: real_ops_def)
  have start: "sample_position (sample_at (real_ops eps) tr 0) = start_pos \<and>
      sample_velocity (sample_at (real_ops eps) tr 0) = 0" if "0 < T - eps"
    using sample_at_real(1,2) [OF tr(1) assms(4), of 0] that tr(1,2)
    by (simp add: T_def progress_def speed_def profile_ok_def Let_def)
  show ?thesis
    unfolding Let_def tr_def [symmetric] T_def [symmetric]
    using start sample_motion [OF tr(1) assms(4) _ _ _ _, folded T_def, unfolded tr(2-4)] tr(5) fin
    by (meson order_trans)
qed

theorem trajectory_profile_exact_witness:
  "let tr = plan_profile (real_ops 0) 0 2 1 1 in
     sample_position (sample_at (real_ops 0) tr (1 / 2)) \<le> 2 \<and>
     \<bar>sample_velocity (sample_at (real_ops 0) tr (5 / 2))\<bar> \<le> 1"
proof -
  have "total_duration (real_ops 0) (plan_profile (real_ops 0) 0 2 1 1) = 3"
    by (simp add: total_duration_def plan_profile_def real_ops_def Let_def)
  moreover from trajectory_profile_exact [of 1 1 0 2 0]
  have "\<forall>t. 0 \<le> t \<and> t < total_duration (real_ops 0) (plan_profile (real_ops 0) 0 2 1 1) \<longrightarrow>
      sample_position (sample_at (real_ops 0) (plan_profile (real_ops 0) 0 2 1 1) t) \<le> 2 \<and>
      \<bar>sample_velocity (sample_at (real_ops 0) (plan_profile (real_ops 0) 0 2 1 1) t)\<bar> \<le> 1"
    unfolding Let_def by fastforce
  ultimately show ?thesis by (simp add: Let_def)
qed

text \<open>A NaN target passes the range check of \<open>create\<close>: the trajectory is built, but it stays at its
  start for ever, and \<open>duration()\<close> converts a NaN to an integer, which is undefined.\<close>

theorem trajectory_accepts_nan_target:
  assumes "JointLimits_validate l = Ok ()" and "\<not> start_pos < min_position l" "\<not> max_position l < start_pos"
    and "is_nan target_pos"
  shows "\<exists>tr. TrapezoidalTrajectory_create start_pos target_pos l = Ok tr \<and> duration tr = None \<and>
    (\<forall>t. sample tr t = \<lparr>sample_position = start_pos, sample_velocity = 0, sample_acceleration = 0\<rparr>)"
proof -
  let ?d = "\<bar>target_pos - start_pos\<bar>"
  define a where "a = max_acceleration l"
  have n: "is_nan ?d" using assms(4) by (simp add: is_nan_diff_iff)
  have q: "is_nan (f64_sqrt (?d * a))" using n by (simp add: f64_sqrt_def is_nan_mult_iff)
  then have q': "is_nan (f64_sqrt (?d * a) / a)" by (simp add: is_nan_div_iff)
  define tr where "tr = plan_profile f64_ops start_pos target_pos (max_velocity l) a"
  have tr: "tr = \<lparr>start_position = start_pos, tr_target_position = target_pos, tr_sign = 0,
      tr_max_acceleration = a, accel_duration_s = f64_sqrt (?d * a) / a, cruise_duration_s = 0,
      cruise_velocity = f64_sqrt (?d * a),
      accel_distance = f64_half * a * (f64_sqrt (?d * a) / a) * (f64_sqrt (?d * a) / a)\<rparr>"
    using n by (simp add: tr_def plan_profile_def Let_def f64_ops_def feq_def)
  have "is_nan (total_duration f64_ops tr)"
    using q' by (simp add: tr total_duration_def f64_ops_def is_nan_add_iff is_nan_mult_iff)
  then have "is_nan (total_duration f64_ops tr * f64_1e9)" by (simp add: is_nan_mult_iff)
  then have "\<not> is_finite (total_duration f64_ops tr * f64_1e9)" using finite_not_nan by blast
  then have "duration tr = None"
    by (simp add: duration_def chrono_round_ns_def chrono_floor_ns_def to_i64_def Let_def)
  moreover have "sample tr t = \<lparr>sample_position = start_pos, sample_velocity = 0, sample_acceleration = 0\<rparr>" for t
    by (simp add: sample_def sample_at_def f64_ops_def tr feq_def)
  moreover have "TrapezoidalTrajectory_create start_pos target_pos l = Ok tr"
    using assms by (simp add: TrapezoidalTrajectory_create_def tr_def a_def)
  ultimately show ?thesis by blast
qed

theorem trajectory_accepts_nan_target_witness:
  "\<exists>tr. TrapezoidalTrajectory_create 0 quiet_nan unit_limits = Ok tr \<and> duration tr = None"
proof -
  have "JointLimits_validate unit_limits = Ok ()" using unit_limits_ok by (simp add: limits_ok_def)
  moreover have "\<not> 0 < min_position unit_limits" "\<not> max_position unit_limits < 0"
    by (simp_all add: unit_limits_def f64_literals)
  ultimately show ?thesis
    using trajectory_accepts_nan_target [OF _ _ _ quiet_nan_is_nan(1)] by blast
qed

end
