(* ===== verification/Actuators.thy ===== *)
theory Actuators
  imports Complex_Main Hardware_IO Float64_Conv
begin

text \<open>
  \<open>VirtualMotor\<close> and \<open>VirtualEncoder\<close> (\<open>include/robot/hardware/\<close>, \<open>src/hardware/\<close>).  The motor
  and the temperature sensor follow their set points with the same first-order lag: its formula is
  stated once, over any type of numbers, and its behaviour on doubles is a locale.  \<open>std::exp\<close> is
  not correctly rounded in any specified way and is the parameter \<open>expf\<close>; what is used of it is
  that it maps arguments that are not positive into the unit interval.
\<close>

section \<open>First-order lag\<close>

definition lag_step :: "('n::{plus, minus, uminus, times, inverse} \<Rightarrow> 'n) \<Rightarrow> 'n \<Rightarrow> 'n \<Rightarrow> 'n \<Rightarrow> 'n \<Rightarrow> 'n" where
  "lag_step expf level goal dtS tau =
     (let alpha = expf (- dtS / tau) in goal + (level - goal) * alpha)"

definition exp_range :: "(f64 \<Rightarrow> f64) \<Rightarrow> bool" where
  "exp_range expf \<longleftrightarrow> (\<forall>x. x \<le> 0 \<longrightarrow> 0 \<le> expf x \<and> expf x \<le> 1)"

text \<open>A bound that sums round back to: a power of two.\<close>

definition pow2 :: "nat \<Rightarrow> f64" where
  "pow2 n = f64_of_int (2 ^ n)"

section \<open>Motor\<close>

record virtual_motor =
  max_torque :: f64
  time_constant_s :: f64
  vm_torque :: f64
  vm_commanded_torque :: f64

definition VirtualMotor_create :: "f64 \<Rightarrow> i64 \<Rightarrow> (hardware_error, virtual_motor) expected" where
  "VirtualMotor_create mt time_constant =
     (if mt \<le> 0 then Unexpected InvalidConfiguration
      else let timeConstantS = seconds_of time_constant
           in if timeConstantS \<le> 0 then Unexpected InvalidConfiguration
              else Ok \<lparr>max_torque = mt, time_constant_s = timeConstantS,
                vm_torque = 0, vm_commanded_torque = 0\<rparr>)"

definition VirtualMotor_torque :: "virtual_motor \<Rightarrow> f64" where
  "VirtualMotor_torque m = vm_torque m"

definition VirtualMotor_commandedTorque :: "virtual_motor \<Rightarrow> f64" where
  "VirtualMotor_commandedTorque m = vm_commanded_torque m"

definition setCommandedTorque :: "virtual_motor \<Rightarrow> f64 \<Rightarrow> virtual_motor \<times> (hardware_error, unit) expected" where
  "setCommandedTorque m t =
     (if t < - max_torque m \<or> max_torque m < t then (m, Unexpected OutOfRange)
      else (m\<lparr>vm_commanded_torque := t\<rparr>, Ok ()))"

definition VirtualMotor_update :: "(f64 \<Rightarrow> f64) \<Rightarrow> virtual_motor \<Rightarrow> i64 \<Rightarrow> virtual_motor" where
  "VirtualMotor_update expf m dt =
     (let dtS = seconds_of dt
      in if dtS \<le> 0 then m
         else m\<lparr>vm_torque := lag_step expf (vm_torque m) (vm_commanded_torque m) dtS (time_constant_s m)\<rparr>)"

datatype motor_call = Set_torque f64 | Motor_update i64

fun VirtualMotor_call :: "(f64 \<Rightarrow> f64) \<Rightarrow> virtual_motor \<Rightarrow> motor_call \<Rightarrow> virtual_motor" where
  "VirtualMotor_call expf m (Set_torque t) = fst (setCommandedTorque m t)"
| "VirtualMotor_call expf m (Motor_update dt) = VirtualMotor_update expf m dt"

section \<open>Encoder\<close>

record virtual_encoder =
  counts_per_revolution :: u32

definition VirtualEncoder_create :: "u32 \<Rightarrow> (hardware_error, virtual_encoder) expected" where
  "VirtualEncoder_create n =
     (if n = 0 then Unexpected InvalidConfiguration else Ok \<lparr>counts_per_revolution = n\<rparr>)"

definition resolutionRadians :: "virtual_encoder \<Rightarrow> f64" where
  "resolutionRadians e = (f64_two * f64_pi) / f64_of_int (uint (counts_per_revolution e))"

text \<open>\<open>None\<close> where the result of \<open>std::llround\<close> is unspecified.\<close>

definition counts :: "virtual_encoder \<Rightarrow> f64 \<Rightarrow> i64 option" where
  "counts e true_position = std_llround (true_position / resolutionRadians e)"

definition VirtualEncoder_sample :: "virtual_encoder \<Rightarrow> f64 \<Rightarrow> f64 option" where
  "VirtualEncoder_sample e true_position =
     map_option (\<lambda>n. f64_of_int (sint n) * resolutionRadians e) (counts e true_position)"

section \<open>Lag: lemmas\<close>

text \<open>Over the reals the step is the solution of the differential equation, whatever its length.\<close>

lemma lag_step_solution:
  fixes x c tau t :: real
  assumes "tau \<noteq> 0"
  shows "lag_step exp x c 0 tau = x"
    and "((\<lambda>t. lag_step exp x c t tau) has_real_derivative (c - lag_step exp x c t tau) / tau) (at t)"
  using assms unfolding lag_step_def Let_def by (auto intro!: derivative_eq_intros)

lemma lag_step_twice:
  "lag_step exp (lag_step exp x c a tau) c b tau = lag_step exp x c (a + b) (tau :: real)"
proof -
  have "exp (- (a + b) / tau) = exp (- a / tau) * exp (- b / tau)"
    by (simp add: exp_add [symmetric] diff_divide_distrib)
  then show ?thesis by (simp add: lag_step_def)
qed

section \<open>Lag on doubles: lemmas\<close>

lemma fsc_of_key: "f64_key x = - f64_key y \<Longrightarrow> fsc x = - fsc y"
  by (cases "f64_mag x = 0"; cases "f64_mag y = 0") (auto simp: f64_key_def fsc_def split: if_splits)

lemma pow2_fields:
  assumes "n \<le> 52"
  shows "is_finite (pow2 n)" "fsc (pow2 n) = 2 ^ (n + 1074)"
proof -
  have "(2::int) ^ n \<le> 2 ^ 52" using assms by (intro power_increasing) simp_all
  then have b: "\<bar>(2::int) ^ n\<bar> < 2 ^ 53" by simp
  show "is_finite (pow2 n)" unfolding pow2_def by (rule f64_of_int_exact(2) [OF b])
  show "fsc (pow2 n) = 2 ^ (n + 1074)"
    unfolding pow2_def f64_of_int_exact(1) [OF b] by (simp add: unit_scale_def power_add)
qed

text \<open>A power of two plus half a unit in its last place rounds back to it.\<close>

lemma rnd_mag_half_above:
  assumes "53 \<le> j"
  shows "rnd_mag (2 ^ j + 2 ^ (j - 53)) 1 = rnd_mag (2 ^ j) 1"
proof -
  obtain i where j: "j = 53 + i" using assms le_Suc_ex by blast
  have e: "(2::nat) ^ j + 2 ^ (j - 53) = (2 ^ 53 + 1) * 2 ^ i" "(2::nat) ^ (Suc i) = 2 * 2 ^ i"
    "(2::nat) ^ j = 2 ^ 52 * 2 ^ Suc i"
    by (simp_all add: j power_add)
  have r: "rne ((2 ^ 53 + 1) * 2 ^ i) (1 * 2 ^ Suc i) = 2 ^ 52"
    unfolding e(2) mult_1 by (subst rne_scale) (simp_all add: rne_def)
  have s: "rne (2 ^ 52 * 2 ^ Suc i) (1 * 2 ^ Suc i) = 2 ^ 52"
    unfolding mult_1 by (rule rne_exact) simp
  have "rnd_mag ((2 ^ 53 + 1) * 2 ^ i) 1 =
      min (Suc i * 2 ^ 52 + rne ((2 ^ 53 + 1) * 2 ^ i) (1 * 2 ^ Suc i)) inf_mag"
    by (rule rnd_mag_eval) (simp_all add: power_add)
  moreover have "rnd_mag (2 ^ 52 * 2 ^ Suc i) 1 =
      min (Suc i * 2 ^ 52 + rne (2 ^ 52 * 2 ^ Suc i) (1 * 2 ^ Suc i)) inf_mag"
    by (rule rnd_mag_eval) (simp_all add: power_add)
  ultimately show ?thesis unfolding e(1) unfolding e(3) r s by simp
qed

lemma rne_near:
  assumes "0 < b"
  shows "2 * (rne a b * b) \<le> 2 * a + b"
  using rne_bounds(2) [OF assms, of a] by (simp add: ac_simps)

lemma scm_rnd_near:
  assumes "53 \<le> j" "a \<le> 2 ^ Suc j" "rnd_mag a 1 < inf_mag"
  shows "scm (rnd_mag a 1) \<le> a + 2 ^ (j - 53)"
proof -
  obtain i where j: "j = 53 + i" using assms(1) le_Suc_ex by blast
  define k where "k = nbits (a div 1) - 53"
  have s: "scm (rnd_mag a 1) = rne a (2 ^ k) * 2 ^ k"
    using scm_rnd_mag [OF _ assms(3)] by (simp add: k_def)
  show ?thesis
  proof (cases "a = 2 ^ Suc j")
    case True
    then have k: "k = 2 + i" by (simp add: k_def nbits_eqI [of "Suc j"] j)
    have e: "(2::nat) ^ Suc j = 2 ^ 52 * 2 ^ k" by (simp add: k j power_add)
    have "rne a (2 ^ k) = 2 ^ 52" unfolding True e by (rule rne_exact) simp
    then have "scm (rnd_mag a 1) = a" using s by (simp only: True e)
    then show ?thesis by simp
  next
    case False
    then have "nbits a \<le> Suc j" using assms(2) by (simp add: nbits_le_iff)
    then have "(2::nat) ^ k \<le> 2 ^ Suc i" by (intro power_increasing) (simp_all add: k_def j)
    moreover have "2 * (rne a (2 ^ k) * 2 ^ k) \<le> 2 * a + 2 ^ k" by (rule rne_near) simp
    ultimately show ?thesis unfolding s by (simp add: j)
  qed
qed

text \<open>The rounded distance to a power of two, added back, does not exceed it.\<close>

lemma add_back_pow2:
  assumes "n \<le> 52" "is_finite c" "- pow2 n \<le> c" "c \<le> pow2 n"
  shows "is_finite (pow2 n - c)" "c + (pow2 n - c) \<le> pow2 n"
proof -
  let ?B = "pow2 n"
  define j P p where "j = n + 1074" and "P = (2::int) ^ j" and "p = fsc c"
  have B: "is_finite ?B" "fsc ?B = P" using pow2_fields [OF assms(1)] by (simp_all add: P_def j_def)
  have p: "- P \<le> p" "p \<le> P"
    using assms(2-4) B by (simp_all add: f64_le_finite_key p_def is_finite_def)
  define a where "a = nat (P - p)"
  have a: "int a = P - p" "a \<le> 2 ^ Suc j" using p by (simp_all add: a_def P_def nat_le_iff)
  have neg: "\<not> f64_neg (?B - c) \<or> f64_mag (?B - c) = 0"
    and mag: "f64_mag (?B - c) = rnd_mag a 1"
    using B assms(2) p by (auto simp: minus_f64_def plus_f64_def Let_def a_def p_def)
  have top: "rnd_mag a 1 \<le> (j - 50) * 2 ^ 52"
  proof (rule rnd_mag_le)
    show "a \<le> scm ((j - 50) * 2 ^ 52) * 1" using a(2) by (subst scm_pow2) (simp_all add: j_def)
    have "j \<le> 1126" using assms(1) by (simp add: j_def)
    then have "(j - 50) * 2 ^ 52 \<le> 1076 * 2 ^ 52" by (intro mult_le_mono1) simp
    then show "(j - 50) * 2 ^ 52 \<le> inf_mag" by (simp add: inf_mag_def)
  qed simp
  have j: "53 \<le> j" "j \<le> 1126" using assms(1) by (simp_all add: j_def)
  have "(j - 50) * 2 ^ 52 \<le> 1076 * 2 ^ 52" using j by (intro mult_le_mono1) simp
  with top have fin: "rnd_mag a 1 < inf_mag" by (simp add: inf_mag_def)
  then show finB: "is_finite (?B - c)" by (simp add: is_finite_def mag)
  have near: "scm (rnd_mag a 1) \<le> a + 2 ^ (j - 53)" by (rule scm_rnd_near [OF j(1) a(2) fin])
  have d: "fsc (?B - c) = int (scm (rnd_mag a 1))" using neg mag by (auto simp: fsc_def)
  have "fsc c + fsc (?B - c) \<le> P + 2 ^ (j - 53)"
  proof -
    have "int (scm (rnd_mag a 1)) \<le> int (a + 2 ^ (j - 53))" using near by (simp only: of_nat_le_iff)
    then show ?thesis using a(1) unfolding d by (simp add: p_def)
  qed
  then have "rkey (fsc c + fsc (?B - c)) (Suc 0) \<le> rkey (P + 2 ^ (j - 53)) (Suc 0)"
    by (intro rkey_mono) simp_all
  also have "rkey (P + 2 ^ (j - 53)) (Suc 0) = int (rnd_mag (2 ^ j + 2 ^ (j - 53)) 1)"
  proof -
    have "nat (P + 2 ^ (j - 53)) = 2 ^ j + 2 ^ (j - 53)" by (simp add: P_def nat_add_distrib nat_power_eq)
    moreover have "0 \<le> P + 2 ^ (j - 53)" by (simp add: P_def)
    ultimately show ?thesis by (simp add: rkey_def)
  qed
  also have "\<dots> = int (rnd_mag (2 ^ j) 1)" by (simp only: rnd_mag_half_above [OF j(1)])
  also have "\<dots> = rkey (fsc ?B) (Suc 0)" by (simp add: rkey_def B(2) P_def nat_power_eq)
  also have "\<dots> = f64_key ?B" using B(1) by simp
  finally show "c + (?B - c) \<le> ?B" using add_finite [OF assms(2) finB] B(1) by (simp add: f64_order)
qed

lemma add_uminus_key:
  assumes "is_finite u" "is_finite v" "f64_key u' = - f64_key u" "f64_key v' = - f64_key v"
  shows "f64_key (u' + v') = - f64_key (u + v)" "\<not> is_nan (u' + v')"
proof -
  have f: "is_finite u'" "is_finite v'" using assms by (simp_all add: is_finite_key)
  have "fsc u' + fsc v' = - (fsc u + fsc v)" using assms(3,4) by (simp add: fsc_of_key)
  then show "f64_key (u' + v') = - f64_key (u + v)"
    unfolding add_finite(1) [OF f] add_finite(1) [OF assms(1,2)] by (simp only: rkey_uminus)
  show "\<not> is_nan (u' + v')" by (rule add_finite(2) [OF f])
qed

lemma lag_exponent:
  assumes "is_finite d" "0 < d" "is_finite tau" "0 < tau"
  shows "- d / tau \<le> 0"
proof -
  have m: "f64_mag tau \<noteq> 0" using assms(4) by (auto simp: f64_order f64_key_def split: if_splits)
  have "- d \<le> 0" using assms(1,2) by (simp add: f64_order)
  then have "- d / tau \<le> 0 / tau" using assms by (intro div_right_mono_f64) simp_all
  moreover have "f64_key (0 / tau) = 0" using assms(3) m by (simp add: div_finite fsc_def)
  ultimately show ?thesis by (simp add: f64_order)
qed

lemma lag_step_above:
  assumes "exp_range expf" "n \<le> 52" "is_finite d" "0 < d" "is_finite tau" "0 < tau"
    and "c \<le> x" "- pow2 n \<le> c" "x \<le> pow2 n"
  shows "c \<le> lag_step expf x c d tau" "lag_step expf x c d tau \<le> pow2 n"
    and "is_finite (x - c)" "is_finite ((x - c) * expf (- d / tau))"
proof -
  let ?B = "pow2 n" and ?a = "expf (- d / tau)"
  have a: "0 \<le> ?a" "?a \<le> 1"
    using assms(1) lag_exponent [OF assms(3-6)] by (simp_all add: exp_range_def)
  have fa: "is_finite ?a" by (rule finite_between [OF a]) simp_all
  have B: "is_finite ?B" "is_finite (- ?B)"
    using pow2_fields(1) [OF assms(2)] by (simp_all add: is_finite_def)
  have c: "c \<le> ?B" and x: "- ?B \<le> x" using assms(7-9) f64_le_trans by blast+
  have fin: "is_finite c" "is_finite x"
    using finite_between [OF assms(8) c B(2,1)] finite_between [OF x assms(9) B(2,1)] .
  have "x - c \<le> ?B - c"
    unfolding minus_f64_def add_commute_f64 [of _ "- c"]
    by (rule add_left_mono_f64) (use fin assms(9) in \<open>simp_all add: is_finite_def\<close>)
  note e = diff_nonneg_f64(1) [OF fin assms(7)] this
  show fe: "is_finite (x - c)"
    by (rule finite_between [OF e]) (use add_back_pow2(1) [OF assms(2) fin(1) assms(8) c] in simp_all)
  have p: "0 \<le> (x - c) * ?a" by (rule mult_nonneg_f64 [OF fe e(1) fa a(1)])
  have q: "(x - c) * ?a \<le> x - c"
    unfolding mult_commute_f64 [of "x - c"] by (rule mult_le_self_f64 [OF fa a fe e(1)])
  show "is_finite ((x - c) * ?a)" by (rule finite_between [OF p q _ fe]) simp
  show "c \<le> lag_step expf x c d tau"
    unfolding lag_step_def Let_def by (rule add_nonneg_ge [OF fin(1) p])
  have "c + (x - c) * ?a \<le> c + (?B - c)"
    by (rule add_left_mono_f64 [OF fin(1) f64_le_trans [OF q e(2)]])
  then show "lag_step expf x c d tau \<le> ?B"
    unfolding lag_step_def Let_def using add_back_pow2(2) [OF assms(2) fin(1) assms(8) c]
    by (rule f64_le_trans)
qed

lemma f64_uminus_swap:
  "\<not> is_nan y \<Longrightarrow> x \<le> y \<Longrightarrow> - y \<le> - x" for x y :: f64
  by (simp add: f64_order)

lemma lag_step_below:
  assumes "exp_range expf" "n \<le> 52" "is_finite d" "0 < d" "is_finite tau" "0 < tau"
    and "x \<le> c" "- pow2 n \<le> x" "c \<le> pow2 n"
  shows "- pow2 n \<le> lag_step expf x c d tau" "lag_step expf x c d tau \<le> c"
proof -
  let ?a = "expf (- d / tau)"
  have le: "- c \<le> - x" "- pow2 n \<le> - c" "- x \<le> pow2 n" using assms(7-9) by (simp_all add: f64_order)
  note up = lag_step_above [OF assms(1-6) le]
  have fin: "is_finite ?a"
    using assms(1) lag_exponent [OF assms(3-6)] finite_between [of 0 ?a 1] by (simp add: exp_range_def)
  have B: "is_finite (pow2 n)" "is_finite (- pow2 n)"
    using pow2_fields(1) [OF assms(2)] by (simp_all add: is_finite_def)
  have fx: "is_finite x" "is_finite c"
    using finite_between [OF assms(8) f64_le_trans [OF assms(7,9)] B(2,1)]
      finite_between [OF f64_le_trans [OF assms(8,7)] assms(9) B(2,1)] .
  have nf: "is_finite (- x)" "is_finite (- c)" "is_finite (- (- c))" using fx by (simp_all add: is_finite_def)
  have k1: "f64_key (x - c) = - f64_key (- x - - c)"
    unfolding minus_f64_def by (rule add_uminus_key(1)) (use nf in simp_all)
  then have f1: "is_finite (x - c)" using up(3) by (simp add: is_finite_key)
  have k2: "f64_key ((x - c) * ?a) = - f64_key ((- x - - c) * ?a)"
    using fsc_of_key [OF k1] by (simp add: mult_finite f1 up(3) fin rkey_uminus)
  have "f64_key (c + (x - c) * ?a) = - f64_key (- c + (- x - - c) * ?a)" "\<not> is_nan (c + (x - c) * ?a)"
    by (rule add_uminus_key [where u = "- c" and v = "(- x - - c) * ?a"]; use nf(2) up(4) k2 in simp)+
  then show "- pow2 n \<le> lag_step expf x c d tau" "lag_step expf x c d tau \<le> c"
    using up(1,2) fx(2) unfolding lag_step_def Let_def by (simp_all add: f64_order)
qed

section \<open>The contract of a lagging quantity\<close>

text \<open>
  A component whose level follows its goal: a step moves the level by \<open>lag_step\<close>, or not at all
  if the time step is not positive, and changes nothing else.
\<close>

locale lagging =
  fixes level :: "'s \<Rightarrow> f64" and goal :: "'s \<Rightarrow> f64" and tau :: "'s \<Rightarrow> f64"
    and advance :: "'s \<Rightarrow> i64 \<Rightarrow> 's" and expf :: "f64 \<Rightarrow> f64"
  assumes level_step: "level (advance s dt) =
      (if seconds_of dt \<le> 0 then level s
       else lag_step expf (level s) (goal s) (seconds_of dt) (tau s))"
    and goal_step: "goal (advance s dt) = goal s"
    and tau_step: "tau (advance s dt) = tau s"
begin

lemma goal_steps: "goal (foldl advance s dts) = goal s"
  by (induction dts arbitrary: s) (simp_all add: goal_step)

lemma tau_steps: "tau (foldl advance s dts) = tau s"
  by (induction dts arbitrary: s) (simp_all add: tau_step)

text \<open>Between its goal and a bound on the side of the level, the level stays.\<close>

lemma steps_above:
  assumes "exp_range expf" "n \<le> 52" "is_finite (tau s)" "0 < tau s" "- pow2 n \<le> goal s"
    and "goal s \<le> level s" "level s \<le> pow2 n"
  shows "goal s \<le> level (foldl advance s dts) \<and> level (foldl advance s dts) \<le> pow2 n"
  using assms(3-7)
proof (induction dts arbitrary: s)
  case (Cons dt dts)
  have "goal s \<le> level (advance s dt) \<and> level (advance s dt) \<le> pow2 n"
  proof (cases "seconds_of dt \<le> 0")
    case False
    then have "0 < seconds_of dt" by (simp add: f64_not_le)
    then show ?thesis
      using lag_step_above(1,2) [OF assms(1,2) seconds_of_finite _ Cons.prems(1,2,4,3,5)] False
      by (simp add: level_step)
  qed (use Cons.prems in \<open>simp add: level_step\<close>)
  then show ?case using Cons.IH [of "advance s dt"] Cons.prems by (simp add: goal_step tau_step)
qed simp

lemma steps_below:
  assumes "exp_range expf" "n \<le> 52" "is_finite (tau s)" "0 < tau s" "goal s \<le> pow2 n"
    and "level s \<le> goal s" "- pow2 n \<le> level s"
  shows "- pow2 n \<le> level (foldl advance s dts) \<and> level (foldl advance s dts) \<le> goal s"
  using assms(3-7)
proof (induction dts arbitrary: s)
  case (Cons dt dts)
  have "- pow2 n \<le> level (advance s dt) \<and> level (advance s dt) \<le> goal s"
  proof (cases "seconds_of dt \<le> 0")
    case False
    then have "0 < seconds_of dt" by (simp add: f64_not_le)
    then show ?thesis
      using lag_step_below [OF assms(1,2) seconds_of_finite _ Cons.prems(1,2,4,5,3)] False
      by (simp add: level_step)
  qed (use Cons.prems in \<open>simp add: level_step\<close>)
  then show ?case using Cons.IH [of "advance s dt"] Cons.prems by (simp add: goal_step tau_step)
qed simp

lemma steps_within:
  assumes "exp_range expf" "n \<le> 52" "is_finite (tau s)" "0 < tau s"
    and "- pow2 n \<le> goal s" "goal s \<le> pow2 n" "- pow2 n \<le> level s" "level s \<le> pow2 n"
  shows "- pow2 n \<le> level (foldl advance s dts)" "level (foldl advance s dts) \<le> pow2 n"
proof -
  have "\<not> is_nan (goal s)" "\<not> is_nan (level s)" using assms(5,7) by (simp_all add: f64_order)
  then consider "goal s \<le> level s" | "level s \<le> goal s"
    by (meson f64_not_le less_f64_def less_eq_f64_def linorder_le_cases)
  then have "- pow2 n \<le> level (foldl advance s dts) \<and> level (foldl advance s dts) \<le> pow2 n"
  proof cases
    case 1
    then show ?thesis using steps_above [OF assms(1-5) 1 assms(8)] assms(5) f64_le_trans by blast
  next
    case 2
    then show ?thesis using steps_below [OF assms(1-4,6) 2 assms(7)] assms(6) f64_le_trans by blast
  qed
  then show "- pow2 n \<le> level (foldl advance s dts)" "level (foldl advance s dts) \<le> pow2 n" by simp_all
qed

text \<open>A level that is not a number stays so.\<close>

lemma steps_nan:
  assumes "is_nan (level s)"
  shows "is_nan (level (foldl advance s dts))"
  using assms
proof (induction dts arbitrary: s)
  case (Cons dt dts)
  have "is_nan (level (advance s dt))"
    using Cons.prems
    by (simp add: level_step lag_step_def Let_def is_nan_add_iff is_nan_mult_iff is_nan_diff_iff)
  then show ?case using Cons.IH by simp
qed simp

end

interpretation motor: lagging vm_torque vm_commanded_torque time_constant_s
  "VirtualMotor_update expf" expf for expf
  by unfold_locales (simp_all add: VirtualMotor_update_def Let_def)

section \<open>Motor: lemmas\<close>

definition motor_ok :: "nat \<Rightarrow> virtual_motor \<Rightarrow> bool" where
  "motor_ok n m \<longleftrightarrow>
     max_torque m \<le> pow2 n \<and> is_finite (time_constant_s m) \<and> 0 < time_constant_s m \<and>
     - pow2 n \<le> vm_commanded_torque m \<and> vm_commanded_torque m \<le> pow2 n \<and>
     - pow2 n \<le> vm_torque m \<and> vm_torque m \<le> pow2 n"

lemma VirtualMotor_create_ok:
  assumes "VirtualMotor_create mt tc = Ok m" "n \<le> 52" "mt \<le> pow2 n"
  shows "motor_ok n m"
proof -
  have "0 \<le> pow2 n" "- pow2 n \<le> 0"
    using pow2_fields [OF assms(2)] by (simp_all add: f64_le_finite_key is_finite_def)
  moreover have "0 < seconds_of tc" if "\<not> seconds_of tc \<le> 0" using that by (simp add: f64_not_le)
  ultimately show ?thesis
    using assms(1,3) by (auto simp: VirtualMotor_create_def motor_ok_def Let_def split: if_splits)
qed

lemma VirtualMotor_call_ok:
  assumes "motor_ok n m" "exp_range expf" "n \<le> 52" "\<And>t. c = Set_torque t \<Longrightarrow> \<not> is_nan t"
  shows "motor_ok n (VirtualMotor_call expf m c)"
proof (cases c)
  case (Set_torque t)
  have "- pow2 n \<le> t \<and> t \<le> pow2 n" if "\<not> t < - max_torque m" "\<not> max_torque m < t"
  proof -
    have nn: "\<not> is_nan (max_torque m)" "\<not> is_nan t" and m: "max_torque m \<le> pow2 n"
      using assms(1) assms(4) [OF Set_torque] by (auto simp: motor_ok_def f64_order)
    then have "- max_torque m \<le> t" "t \<le> max_torque m" using that by (simp_all add: f64_order)
    moreover have "- pow2 n \<le> - max_torque m" using m by (simp add: f64_order)
    ultimately show ?thesis using m f64_le_trans by blast
  qed
  then show ?thesis using assms(1) by (simp add: Set_torque setCommandedTorque_def motor_ok_def)
next
  case (Motor_update dt)
  have "- pow2 n \<le> vm_torque (foldl (VirtualMotor_update expf) m [dt])"
    "vm_torque (foldl (VirtualMotor_update expf) m [dt]) \<le> pow2 n"
    using assms(1) by (intro motor.steps_within [OF assms(2,3)]; simp add: motor_ok_def)+
  then show ?thesis using assms(1)
    by (simp add: Motor_update motor_ok_def VirtualMotor_update_def Let_def)
qed

lemma VirtualMotor_calls_ok:
  assumes "motor_ok n m" "exp_range expf" "n \<le> 52" "\<And>t. Set_torque t \<in> set calls \<Longrightarrow> \<not> is_nan t"
  shows "motor_ok n (foldl (VirtualMotor_call expf) m calls)"
  using assms(1,4)
proof (induction calls arbitrary: m)
  case (Cons c calls)
  then show ?case using VirtualMotor_call_ok [OF Cons.prems(1) assms(2,3), of c] by simp
qed simp

lemma VirtualMotor_calls_nan:
  assumes "is_nan (vm_torque m)"
  shows "is_nan (vm_torque (foldl (VirtualMotor_call expf) m calls))"
  using assms
proof (induction calls arbitrary: m)
  case (Cons c calls)
  have "is_nan (vm_torque (VirtualMotor_call expf m c))"
    using Cons.prems motor.steps_nan [of m expf "[dt]" for dt] by (cases c) (simp_all add: setCommandedTorque_def)
  then show ?case using Cons.IH by simp
qed simp

section \<open>Encoder: lemmas\<close>

lemma two_pi: "f64_two * f64_pi = F64 0x401921FB54442D18"
  by (subst mult_normal_mag [where ex = 1023 and fx = 0 and ey = 1023 and fy = "0x921FB54442D18" and s = 52 and k = 1024])
    (simp_all add: f64_two_def f64_pi_def F64_fields sgn_bit_def is_finite_def inf_mag_def rne_def mk_f64_def)

lemma u32_to_double:
  fixes c :: u32
  shows "is_finite (f64_of_int (uint c))" "\<not> f64_neg (f64_of_int (uint c))"
    "scm (f64_mag (f64_of_int (uint c))) = unat c * unit_scale"
proof -
  have c: "uint c = int (unat c)" by simp
  have "\<bar>uint c\<bar> < 2 ^ 53" using uint_lt2p [of c] by simp
  note d = f64_of_int_exact [OF this]
  show "is_finite (f64_of_int (uint c))" by (rule d(2))
  show n: "\<not> f64_neg (f64_of_int (uint c))" by (simp add: f64_of_int_fields)
  have "int (scm (f64_mag (f64_of_int (uint c)))) = int (unat c * unit_scale)"
    using d(1) n by (simp add: fsc_def)
  then show "scm (f64_mag (f64_of_int (uint c))) = unat c * unit_scale" by (simp only: of_nat_eq_iff)
qed

text \<open>The resolution of every encoder lies between \<open>2 ^ -30\<close> and \<open>8\<close>.\<close>

lemma resolution_bounds:
  assumes "counts_per_revolution e \<noteq> 0"
  defines "r \<equiv> scm (f64_mag (resolutionRadians e))"
  shows "is_finite (resolutionRadians e)" "\<not> f64_neg (resolutionRadians e)" "2 ^ 1044 \<le> r" "r \<le> 2 ^ 1077"
proof -
  let ?tp = "f64_two * f64_pi"
  define n where "n = unat (counts_per_revolution e)"
  have n: "0 < n" "n < 2 ^ 32"
    using assms(1) unsigned_less [of "counts_per_revolution e", where ?'a = nat] by (simp_all add: n_def unat_gt_0)
  note d = u32_to_double [of "counts_per_revolution e", folded n_def]
  have dz: "f64_mag (f64_of_int (uint (counts_per_revolution e))) \<noteq> 0"
    using d(3) n by (metis mult_eq_0_iff neq0_conv scm_zero unit_scale_pos)
  have tp: "is_finite ?tp" "\<not> f64_neg ?tp" "2 ^ 1076 \<le> scm (f64_mag ?tp)" "scm (f64_mag ?tp) \<le> 2 ^ 1077"
    unfolding two_pi by (simp_all add: F64_fields sgn_bit_def is_finite_def inf_mag_def scm_def Let_def)
  have res: "resolutionRadians e = mk_f64 False (rnd_mag (scm (f64_mag ?tp) * unit_scale) (n * unit_scale))"
    using tp(1,2) d dz by (simp add: resolutionRadians_def divide_f64_def)
  then have m: "f64_mag (resolutionRadians e) = rnd_mag (scm (f64_mag ?tp)) n"
    using n by (simp add: rnd_mag_scale)
  show "\<not> f64_neg (resolutionRadians e)" by (simp add: res)
  have "scm (993 * 2 ^ 52) * n \<le> 2 ^ 1044 * 2 ^ 32"
    by (subst scm_pow2) (simp, rule mult_le_mono, use n in simp_all)
  also have "\<dots> \<le> scm (f64_mag ?tp)" using tp(3) by (simp flip: power_add)
  finally have lo: "993 * 2 ^ 52 \<le> f64_mag (resolutionRadians e)"
    unfolding m by (intro rnd_mag_ge [OF n(1)]) (simp_all add: inf_mag_def)
  have "scm (f64_mag ?tp) \<le> 2 ^ 1077 * 1" using tp(4) by (simp only: mult_1_right)
  also have "\<dots> \<le> scm (1026 * 2 ^ 52) * n" by (subst scm_pow2) (use n in \<open>simp_all del: power_numeral\<close>)
  finally have hi: "f64_mag (resolutionRadians e) \<le> 1026 * 2 ^ 52"
    unfolding m by (intro rnd_mag_le [OF n(1)]) (simp_all add: inf_mag_def)
  show "is_finite (resolutionRadians e)" using hi by (simp add: is_finite_def inf_mag_def)
  have "scm (993 * 2 ^ 52) \<le> r" "r \<le> scm (1026 * 2 ^ 52)"
    unfolding r_def using lo hi by (simp_all add: scm_le_iff inf_mag_def)
  moreover have "scm (993 * 2 ^ 52) = 2 ^ 1044" "scm (1026 * 2 ^ 52) = 2 ^ 1077"
    by (subst scm_pow2; simp)+
  ultimately show "2 ^ 1044 \<le> r" "r \<le> 2 ^ 1077" by simp_all
qed

text \<open>Rounding an integer number of counts, given up to a quarter of a count.\<close>

lemma round_away_near:
  assumes "2 * \<bar>int (scm (f64_mag z)) - \<bar>n\<bar> * int unit_scale\<bar> < int unit_scale" "f64_neg z = (n < 0)"
  shows "round_away z = n"
proof -
  let ?Z = "scm (f64_mag z)" and ?N = "nat \<bar>n\<bar>"
  define W where "W = \<bar>n\<bar> * int unit_scale"
  have "2 * \<bar>int ?Z - W\<bar> < int unit_scale" using assms(1) by (simp add: W_def)
  then have "2 * W \<le> 2 * int ?Z + int unit_scale" "2 * int ?Z + int unit_scale < 2 * W + 2 * int unit_scale"
    using abs_ge_self [of "int ?Z - W"] abs_ge_minus_self [of "int ?Z - W"] by simp_all
  then have "int (?N * (2 * unit_scale)) \<le> int (2 * ?Z + unit_scale)"
    "int (2 * ?Z + unit_scale) < int ((?N + 1) * (2 * unit_scale))"
    by (simp_all add: W_def algebra_simps)
  then have "(2 * ?Z + unit_scale) div (2 * unit_scale) = ?N"
    by (intro div_nat_eqI) (simp_all only: of_nat_le_iff of_nat_less_iff ac_simps Suc_eq_plus1)
  then show ?thesis using assms(2) by (simp add: round_away_def Let_def abs_if)
qed

text \<open>
  The arithmetic of \<open>sample\<close> followed by \<open>counts\<close>: \<open>Y\<close> approximates \<open>N * r\<close> and \<open>Z / u\<close> approximates
  \<open>Y / r\<close>, each up to one rounding.
\<close>

lemma grid_arithmetic:
  fixes N r u Y Z :: int
  assumes "0 \<le> N" "N \<le> 2 ^ 49" "2 ^ 60 \<le> r" "2 ^ 60 \<le> u"
    and y: "2 ^ 53 * \<bar>N * u * r - Y * u\<bar> \<le> N * u * r + 2 ^ 52 * u"
    and z: "2 ^ 53 * \<bar>Y * u - Z * r\<bar> \<le> Y * u + 2 ^ 52 * r"
  shows "2 * \<bar>Z - N * u\<bar> < u"
proof -
  define P A B C where "P = u * r" and "A = N * u * r" and "B = Y * u" and "C = Z * r"
  have "u * 2 ^ 60 \<le> u * r" "2 ^ 60 * r \<le> u * r" using assms(3,4) by (auto intro: mult_mono)
  moreover have "N * (u * r) \<le> 2 ^ 49 * (u * r)" using assms(2-4) by (intro mult_right_mono) simp_all
  ultimately have b: "2 ^ 60 * u \<le> P" "2 ^ 60 * r \<le> P" "A \<le> 2 ^ 49 * P" "0 < P"
    using assms(3,4) by (simp_all add: P_def A_def ac_simps)
  have "2 ^ 53 * (A - B) \<le> A + 2 ^ 52 * u" "2 ^ 53 * (B - A) \<le> A + 2 ^ 52 * u"
    "2 ^ 53 * (B - C) \<le> B + 2 ^ 52 * r" "2 ^ 53 * (C - B) \<le> B + 2 ^ 52 * r"
    using y z abs_ge_self [of "A - B"] abs_ge_minus_self [of "A - B"]
      abs_ge_self [of "B - C"] abs_ge_minus_self [of "B - C"]
    unfolding A_def [symmetric] B_def [symmetric] C_def [symmetric] by simp_all
  then have "2 * (C - A) < P" "2 * (A - C) < P" using b by simp_all
  then have "2 * \<bar>C - A\<bar> < P" by (simp add: abs_if)
  then have "2 * \<bar>Z * r - N * u * r\<bar> < u * r" by (simp only: A_def C_def P_def)
  then have "2 * (\<bar>Z - N * u\<bar> * \<bar>r\<bar>) < u * r" by (simp only: abs_mult [symmetric] left_diff_distrib)
  then have "2 * \<bar>Z - N * u\<bar> * r < u * r" using assms(3) by simp
  then show ?thesis using assms(3) by (simp add: mult_less_cancel_right)
qed

lemma int_to_double:
  assumes "\<bar>n\<bar> \<le> 2 ^ 49"
  shows "is_finite (f64_of_int n)" "f64_neg (f64_of_int n) = (n < 0)"
    "scm (f64_mag (f64_of_int n)) = nat \<bar>n\<bar> * unit_scale"
proof -
  have "\<bar>n\<bar> < 2 ^ 53" using assms by simp
  note d = f64_of_int_exact [OF this]
  show "is_finite (f64_of_int n)" by (rule d(2))
  show s: "f64_neg (f64_of_int n) = (n < 0)" by (simp add: f64_of_int_fields)
  have "int (scm (f64_mag (f64_of_int n))) = \<bar>fsc (f64_of_int n)\<bar>" by (simp add: fsc_def)
  also have "\<dots> = int (nat \<bar>n\<bar> * unit_scale)" by (simp add: d(1) abs_mult)
  finally show "scm (f64_mag (f64_of_int n)) = nat \<bar>n\<bar> * unit_scale" by (simp only: of_nat_eq_iff)
qed

lemma grid_rounding:
  assumes "N \<le> 2 ^ 49" "2 ^ 1044 \<le> r" "r \<le> 2 ^ 1077"
  defines "Y \<equiv> rnd_mag (N * unit_scale * r) unit_scale"
  defines "Z \<equiv> rnd_mag (scm Y * unit_scale) r"
  shows "Y < inf_mag" "Z < inf_mag" "2 * \<bar>int (scm Z) - int N * int unit_scale\<bar> < int unit_scale"
proof -
  let ?u = unit_scale
  have u: "(2::nat) ^ 1074 = ?u" "0 < ?u" "2 ^ 60 \<le> int ?u" by (simp_all add: unit_scale_def)
  have r: "0 < r" "2 ^ 60 \<le> int r"
  proof -
    have "(2::nat) ^ 60 \<le> 2 ^ 1044" by (intro power_increasing) simp_all
    then have "2 ^ 60 \<le> r" using assms(2) by (rule order.trans)
    then have "int (2 ^ 60) \<le> int r" by (simp only: of_nat_le_iff)
    then show "0 < r" "2 ^ 60 \<le> int r" by simp_all
  qed
  have "N * ?u * r \<le> 2 ^ 49 * ?u * 2 ^ 1077" using assms(1,3) by (intro mult_le_mono) simp_all
  also have "\<dots> = 2 ^ 1126 * ?u" by simp
  finally have "N * ?u * r \<le> 2 ^ 1126 * ?u" .
  note y = rnd_mag_below [OF u(2) this _ _, folded Y_def, OF _ _]
  have y: "Y < inf_mag" "scm Y \<le> 2 ^ 1126" by (rule y; simp)+
  show "Y < inf_mag" by (rule y(1))
  have "scm Y * ?u \<le> 2 ^ 1126 * ?u" using y(2) by (rule mult_le_mono1)
  also have "\<dots> = 2 ^ 1126 * 2 ^ 1074" by (simp only: u(1))
  also have "\<dots> \<le> 2 ^ 1160 * 2 ^ 1044" by (simp flip: power_add)
  also have "\<dots> \<le> 2 ^ 1160 * r" using assms(2) by (rule mult_le_mono2)
  finally have "scm Y * ?u \<le> 2 ^ 1160 * r" .
  note z = rnd_mag_below(1) [OF r(1) this, folded Z_def]
  show z: "Z < inf_mag" by (rule z; simp)
  have "2 ^ 53 * \<bar>int (N * ?u * r) - int (scm Y) * int ?u\<bar> \<le> int (N * ?u * r) + 2 ^ 52 * int ?u"
    unfolding Y_def by (rule rnd_mag_error) (use u(2) y(1) in \<open>simp_all add: Y_def\<close>)
  then have ey: "2 ^ 53 * \<bar>int N * int ?u * int r - int (scm Y) * int ?u\<bar> \<le> int N * int ?u * int r + 2 ^ 52 * int ?u"
    by (simp only: of_nat_mult)
  have "2 ^ 53 * \<bar>int (scm Y * ?u) - int (scm Z) * int r\<bar> \<le> int (scm Y * ?u) + 2 ^ 52 * int r"
    unfolding Z_def by (rule rnd_mag_error) (use r(1) z in \<open>simp_all add: Z_def\<close>)
  then have ez: "2 ^ 53 * \<bar>int (scm Y) * int ?u - int (scm Z) * int r\<bar> \<le> int (scm Y) * int ?u + 2 ^ 52 * int r"
    by (simp only: of_nat_mult)
  have "int N \<le> 2 ^ 49" using assms(1) by simp
  then show "2 * \<bar>int (scm Z) - int N * int ?u\<bar> < int ?u"
    by (intro grid_arithmetic [OF _ _ r(2) u(3) ey ez]) simp_all
qed

lemma resolution_nonzero:
  assumes "counts_per_revolution e \<noteq> 0"
  shows "f64_mag (resolutionRadians e) \<noteq> 0"
proof
  assume "f64_mag (resolutionRadians e) = 0"
  then have "(2::nat) ^ 1044 \<le> 0" using resolution_bounds(3) [OF assms] by (simp only: scm_zero)
  then show False by simp
qed

text \<open>The grid point of \<open>n\<close> is read back as \<open>n\<close>.\<close>

lemma counts_of_grid_point:
  assumes "counts_per_revolution e \<noteq> 0" "\<bar>n\<bar> \<le> 2 ^ 49"
  shows "counts e (f64_of_int n * resolutionRadians e) = Some (word_of_int n)"
proof -
  let ?R = "resolutionRadians e" and ?X = "f64_of_int n"
  define r N where "r = scm (f64_mag ?R)" and "N = nat \<bar>n\<bar>"
  define Y where "Y = rnd_mag (N * unit_scale * r) unit_scale"
  define Z where "Z = rnd_mag (scm Y * unit_scale) r"
  note R = resolution_bounds [OF assms(1), folded r_def]
  note X = int_to_double [OF assms(2), folded N_def]
  have N: "N \<le> 2 ^ 49" using assms(2) by (simp add: N_def nat_le_iff)
  note g = grid_rounding [OF N R(3,4), folded Y_def, folded Z_def]
  have Rz: "f64_mag ?R \<noteq> 0" by (rule resolution_nonzero [OF assms(1)])
  have "?X * ?R = mk_f64 (n < 0) Y"
    using X R(1,2) by (simp add: times_f64_def Let_def r_def Y_def)
  then have q: "?X * ?R / ?R = mk_f64 (n < 0) Z"
    using R(1,2) Rz g(1) by (simp add: divide_f64_def Let_def Z_def r_def Y_def)
  have "round_away (mk_f64 (n < 0) Z) = n"
    using g(3) by (intro round_away_near) (simp_all add: Z_def N_def)
  moreover have "- (2 ^ 63) \<le> n" "n < 2 ^ 63" using assms(2) by (simp_all add: abs_le_iff)
  ultimately show ?thesis
    using g(2) by (simp add: counts_def q std_llround_def in_i64_def Z_def)
qed

lemma counts_some:
  assumes "counts e x = Some n"
  shows "is_finite (x / resolutionRadians e)" "round_away (x / resolutionRadians e) = sint n"
  using assms by (auto simp: counts_def std_llround_def in_i64_def signed_of_int signed_take_bit_int_eq_self
      split: if_splits)

text \<open>A position within eight radians has a count on every encoder.\<close>

lemma counts_in_reach:
  assumes "counts_per_revolution e \<noteq> 0" "is_finite x" "scm (f64_mag x) \<le> 2 ^ 1077"
  shows "\<exists>n. counts e x = Some n"
proof -
  let ?R = "resolutionRadians e"
  define r where "r = scm (f64_mag ?R)"
  define Z where "Z = rnd_mag (scm (f64_mag x) * unit_scale) r"
  note R = resolution_bounds [OF assms(1), folded r_def]
  have r: "0 < r"
  proof (rule ccontr)
    assume "\<not> 0 < r"
    with R(3) show False by simp
  qed
  have us: "unit_scale = 2 ^ 1074" by (simp add: unit_scale_def)
  have "scm (f64_mag x) * unit_scale \<le> 2 ^ 1077 * 2 ^ 1074"
    unfolding us using assms(3) by (intro mult_le_mono1)
  also have "\<dots> = 2 ^ 1107 * 2 ^ 1044" by (simp flip: power_add)
  also have "\<dots> \<le> 2 ^ 1107 * r" using R(3) by (rule mult_le_mono2)
  finally have le: "scm (f64_mag x) * unit_scale \<le> 2 ^ 1107 * r" .
  have z: "Z < inf_mag" "scm Z \<le> 2 ^ 1107"
    unfolding Z_def by (rule rnd_mag_below [OF r le]; simp)+
  have q: "x / ?R = mk_f64 (f64_neg x) Z"
    using assms(2) R(1,2) resolution_nonzero [OF assms(1)] by (simp add: divide_f64_def Let_def Z_def r_def)
  have "2 * scm Z + unit_scale \<le> 2 * 2 ^ 1107 + unit_scale" using z(2) by simp
  also have "\<dots> \<le> 2 ^ 34 * (2 * unit_scale)" by (simp add: us)
  finally have "(2 * scm Z + unit_scale) div (2 * unit_scale) \<le> 2 ^ 34 * (2 * unit_scale) div (2 * unit_scale)"
    by (rule div_le_mono)
  then have n: "(2 * scm Z + unit_scale) div (2 * unit_scale) \<le> 2 ^ 34" by simp
  then have "int ((2 * scm Z + unit_scale) div (2 * unit_scale)) \<le> int (2 ^ 34)"
    by (simp only: of_nat_le_iff)
  then have "\<bar>round_away (x / ?R)\<bar> \<le> 2 ^ 34"
    by (simp add: q round_away_def Let_def Z_def)
  then have "in_i64 (round_away (x / ?R))" by (simp add: in_i64_def abs_le_iff)
  then show ?thesis using z(1) by (simp add: counts_def q std_llround_def Z_def)
qed

lemma counts_odd:
  assumes "counts_per_revolution e \<noteq> 0" "counts e x = Some n" "- (2 ^ 63) < sint n"
  shows "counts e (- x) = Some (- n)"
proof -
  let ?R = "resolutionRadians e"
  note R = resolution_bounds [OF assms(1)] and q = counts_some [OF assms(2)]
  have Rz: "f64_mag ?R \<noteq> 0" by (rule resolution_nonzero [OF assms(1)])
  have "is_finite x"
    using q(1) R(1) finite_or_inf [of x] finite_not_nan [of quiet_nan] by (auto simp: divide_f64_def Let_def split: if_splits)
  then have u: "- x / ?R = - (x / ?R)" using div_uminus_left R(1) Rz by metis
  have "round_away (- (x / ?R)) = - sint n" using q(2) by (auto simp: round_away_def Let_def split: if_splits)
  moreover have "in_i64 (- sint n)"
    using assms(3) sint_lt [of n] by (simp add: in_i64_def)
  ultimately show ?thesis using q(1) by (simp add: counts_def u std_llround_def is_finite_def)
qed

text \<open>An instance of the exponential for concrete runs.\<close>

definition halving :: "f64 \<Rightarrow> f64" where
  "halving x = (if x < 0 then f64_half else 1)"

lemma exp_range_halving: "exp_range halving"
  unfolding exp_range_def halving_def by (auto simp: f64_literals one_f64_def zero_f64_def)

lemma f64_180_le_pow2: "f64_180 \<le> pow2 8"
proof -
  have "fsc f64_180 \<le> 2 ^ (8 + 1074)"
    by (simp add: fsc_def f64_180_def F64_fields sgn_bit_def scm_def Let_def)
  then have "fsc f64_180 \<le> fsc (pow2 8)" by (subst pow2_fields(2)) simp_all
  moreover have "is_finite f64_180" by (simp add: f64_literals)
  ultimately show ?thesis by (simp add: f64_le_finite_key pow2_fields(1))
qed

section \<open>Properties\<close>

text \<open>The torque follows the exact solution of the first-order lag: over the reals, the formula
  of \<open>update\<close> solves \<open>dT/dt = (commanded - T) / tau\<close> from the present torque, and one long step
  equals any number of short ones.\<close>

theorem lag_is_exact_for_any_step:
  fixes x c tau t :: real
  assumes "tau \<noteq> 0"
  shows "lag_step exp x c 0 tau = x \<and>
    ((\<lambda>t. lag_step exp x c t tau) has_real_derivative (c - lag_step exp x c t tau) / tau) (at t) \<and>
    foldl (\<lambda>x dt. lag_step exp x c dt tau) x dts = lag_step exp x c (sum_list dts) tau"
proof (intro conjI)
  show "foldl (\<lambda>x dt. lag_step exp x c dt tau) x dts = lag_step exp x c (sum_list dts) tau"
    by (induction dts arbitrary: x) (simp_all add: lag_step_solution(1) [OF assms] lag_step_twice)
qed (fact lag_step_solution [OF assms])+

theorem lag_is_exact_for_any_step_witness:
  "lag_step exp 0 1 0 (1/2) = (0::real) \<and>
    ((\<lambda>t. lag_step exp 0 1 t (1/2)) has_real_derivative (1 - lag_step exp 0 1 (3::real) (1/2)) / (1/2)) (at 3) \<and>
    foldl (\<lambda>x dt. lag_step exp x 1 dt (1/2)) 0 [1/4, 3/4::real] = lag_step exp 0 1 (sum_list [1/4, 3/4]) (1/2)"
  by (rule lag_is_exact_for_any_step) simp

text \<open>C29. A motor created with a limit of at most \<open>2 ^ n\<close> (\<open>n \<le> 52\<close>) never leaves that bound and never
  becomes NaN, whatever time steps and whatever commands it gets other than NaN, for an exponential that
  maps what is not positive into the unit interval; and while a command stands, the torque never
  overshoots it, for any number and size of updates.  (A NaN command passes the check:
  \<open>motor_nan_command_is_permanent\<close>.)\<close>

theorem motor_never_overshoots:
  assumes "exp_range expf" "n \<le> 52" "VirtualMotor_create mt tc = Ok m0" "mt \<le> pow2 n"
    and "\<forall>t. Set_torque t \<in> set calls \<longrightarrow> \<not> is_nan t"
  shows "let m = foldl (VirtualMotor_call expf) m0 calls;
             torque_after = \<lambda>dts. VirtualMotor_torque (foldl (VirtualMotor_update expf) m dts);
             command = VirtualMotor_commandedTorque m
         in - pow2 n \<le> VirtualMotor_torque m \<and> VirtualMotor_torque m \<le> pow2 n \<and>
            (if command \<le> VirtualMotor_torque m then \<forall>dts. command \<le> torque_after dts
             else \<forall>dts. torque_after dts \<le> command)"
proof -
  define m where "m = foldl (VirtualMotor_call expf) m0 calls"
  have ok: "motor_ok n m" unfolding m_def
    using VirtualMotor_calls_ok [OF VirtualMotor_create_ok [OF assms(3,2,4)] assms(1,2)] assms(5) by blast
  show ?thesis
    unfolding Let_def m_def [symmetric] VirtualMotor_torque_def VirtualMotor_commandedTorque_def
    using ok motor.steps_above [OF assms(1,2), of m] motor.steps_below [OF assms(1,2), of m]
    by (auto simp: motor_ok_def f64_order)
qed

theorem motor_never_overshoots_witness:
  "let m = foldl (VirtualMotor_call halving)
             \<lparr>max_torque = f64_180, time_constant_s = seconds_of 1000000000, vm_torque = 0, vm_commanded_torque = 0\<rparr>
             [Set_torque f64_five, Motor_update 1000000, Set_torque (- f64_five)];
       torque_after = \<lambda>dts. VirtualMotor_torque
         (foldl (VirtualMotor_update halving) m dts);
       command = VirtualMotor_commandedTorque m
   in - pow2 8 \<le> VirtualMotor_torque m \<and> VirtualMotor_torque m \<le> pow2 8 \<and>
      (if command \<le> VirtualMotor_torque m then \<forall>dts. command \<le> torque_after dts
       else \<forall>dts. torque_after dts \<le> command)"
proof (rule motor_never_overshoots)
  show "exp_range halving" by (rule exp_range_halving)
  show "VirtualMotor_create f64_180 1000000000 = Ok
      \<lparr>max_torque = f64_180, time_constant_s = seconds_of 1000000000, vm_torque = 0, vm_commanded_torque = 0\<rparr>"
  proof -
    have "\<not> f64_180 \<le> 0" by (simp add: f64_literals)
    then show ?thesis by (simp add: VirtualMotor_create_def seconds_of_le_0_iff)
  qed
  show "f64_180 \<le> pow2 8" by (rule f64_180_le_pow2)
qed (auto simp: f64_literals)

text \<open>A NaN command passes the range check; the first update with a positive time step makes the
  torque NaN, and no later call of any kind changes that.\<close>

theorem motor_nan_command_is_permanent:
  assumes "is_nan t" "0 < sint dt"
  shows "setCommandedTorque m t = (m\<lparr>vm_commanded_torque := t\<rparr>, Ok ()) \<and>
    is_nan (VirtualMotor_torque (foldl (VirtualMotor_call expf)
      (VirtualMotor_update expf (fst (setCommandedTorque m t)) dt) calls))"
proof -
  have set: "setCommandedTorque m t = (m\<lparr>vm_commanded_torque := t\<rparr>, Ok ())"
    using assms(1) by (simp add: setCommandedTorque_def)
  have "is_nan (vm_torque (VirtualMotor_update expf (fst (setCommandedTorque m t)) dt))"
    using assms unfolding set
    by (simp add: VirtualMotor_update_def Let_def seconds_of_le_0_iff lag_step_def is_nan_add_iff)
  then have "is_nan (vm_torque (foldl (VirtualMotor_call expf)
      (VirtualMotor_update expf (fst (setCommandedTorque m t)) dt) calls))"
    by (rule VirtualMotor_calls_nan)
  with set show ?thesis by (simp add: VirtualMotor_torque_def)
qed

theorem motor_nan_command_is_permanent_witness:
  "setCommandedTorque \<lparr>max_torque = 1, time_constant_s = 1, vm_torque = 0, vm_commanded_torque = 0\<rparr> quiet_nan =
     (\<lparr>max_torque = 1, time_constant_s = 1, vm_torque = 0, vm_commanded_torque = quiet_nan\<rparr>, Ok ()) \<and>
   is_nan (VirtualMotor_torque (foldl (VirtualMotor_call id)
     (VirtualMotor_update id \<lparr>max_torque = 1, time_constant_s = 1, vm_torque = 0, vm_commanded_torque = quiet_nan\<rparr> 1)
     [Set_torque 0, Motor_update 1]))"
  using motor_nan_command_is_permanent [of quiet_nan 1 "\<lparr>max_torque = 1, time_constant_s = 1, vm_torque = 0, vm_commanded_torque = 0\<rparr>" id
      "[Set_torque 0, Motor_update 1]"]
  by (simp add: setCommandedTorque_def)

text \<open>C30. Positions on the encoder's grid are read back exactly: up to \<open>2 ^ 49\<close> counts either way, the
  count of a sampled position is the count it was sampled with, so that sampling a sample changes
  nothing; and counting is odd, so that both directions of rotation are quantised alike.\<close>

theorem encoder_sample_is_a_fixed_point:
  assumes "VirtualEncoder_create cpr = Ok e" "counts e x = Some n" "\<bar>sint n\<bar> \<le> 2 ^ 49"
  shows "\<exists>y. VirtualEncoder_sample e x = Some y \<and> counts e y = Some n \<and>
    VirtualEncoder_sample e y = Some y \<and> counts e (- x) = Some (- n)"
proof -
  have e: "counts_per_revolution e \<noteq> 0"
    using assms(1) by (auto simp: VirtualEncoder_create_def split: if_splits)
  have "counts e (f64_of_int (sint n) * resolutionRadians e) = Some n"
    using counts_of_grid_point [OF e assms(3)] by simp
  then show ?thesis
    using counts_odd [OF e assms(2)] assms(2,3) by (simp add: VirtualEncoder_sample_def)
qed

theorem encoder_sample_is_a_fixed_point_witness:
  "let e = \<lparr>counts_per_revolution = 4096\<rparr>; x = f64_of_int (- 5) * resolutionRadians e
   in \<exists>y. VirtualEncoder_sample e x = Some y \<and> counts e y = Some (- 5) \<and>
        VirtualEncoder_sample e y = Some y \<and> counts e (- x) = Some (- (- 5))"
  unfolding Let_def
proof (rule encoder_sample_is_a_fixed_point)
  show "VirtualEncoder_create 4096 = Ok \<lparr>counts_per_revolution = 4096\<rparr>"
    by (simp add: VirtualEncoder_create_def)
  show "counts \<lparr>counts_per_revolution = 4096\<rparr>
      (f64_of_int (- 5) * resolutionRadians \<lparr>counts_per_revolution = 4096\<rparr>) = Some (- 5)"
    by (subst counts_of_grid_point) simp_all
qed simp

end
