(* ===== verification/Sensors.thy ===== *)
theory Sensors
  imports Actuators
begin

text \<open>
  \<open>robot::sensors\<close> (\<open>include/robot/sensors/\<close>, \<open>src/sensors/\<close>): the encoder sensor with offset, noise
  and failure modes, the lagging temperature sensor, and the two threshold sensors.  The noise is
  drawn from \<open>std::normal_distribution\<close>, whose algorithm the standard leaves open: the parameter
  \<open>gauss stddev seed k\<close> is the draw number \<open>k\<close> of a distribution and an engine of the same sensor.
  The standard requires a positive standard deviation of the distribution, and the constructor passes
  on any that is not below zero, so also 0 and NaN: the model takes the construction itself to have
  no effect (as without the library's assertions), and leaves the draws to \<open>gauss\<close>.
\<close>

section \<open>Encoder sensor\<close>

datatype encoder_failure_mode = No_failure | Stuck | Disconnected

record encoder_sensor =
  es_encoder :: virtual_encoder
  noiseStdDevRadians :: f64
  offsetRadians :: f64
  rng_seed :: u64
  rng_draws :: nat
  failureMode :: encoder_failure_mode
  lastReading :: f64

definition EncoderSensor_create ::
    "virtual_encoder \<Rightarrow> f64 \<Rightarrow> f64 \<Rightarrow> u64 \<Rightarrow> (hardware_error, encoder_sensor) expected" where
  "EncoderSensor_create enc stddev offset seed =
     (if stddev < 0 then Unexpected InvalidConfiguration
      else Ok \<lparr>es_encoder = enc, noiseStdDevRadians = stddev, offsetRadians = offset,
        rng_seed = seed, rng_draws = 0, failureMode = No_failure, lastReading = 0\<rparr>)"

text \<open>\<open>None\<close> where \<open>std::llround\<close> has no specified result.\<close>

definition EncoderSensor_read ::
    "(f64 \<Rightarrow> u64 \<Rightarrow> nat \<Rightarrow> f64) \<Rightarrow> encoder_sensor \<Rightarrow> f64 \<Rightarrow> (f64 \<times> encoder_sensor) option" where
  "EncoderSensor_read gauss s true_position =
     (if failureMode s = Disconnected then Some (quiet_nan, s)
      else if failureMode s = Stuck then Some (lastReading s, s)
      else
        map_option (\<lambda>quantized.
          let (noise, s) = (if 0 < noiseStdDevRadians s
                then (gauss (noiseStdDevRadians s) (rng_seed s) (rng_draws s), s\<lparr>rng_draws := Suc (rng_draws s)\<rparr>)
                else (0, s));
              reading = quantized + noise
          in (reading, s\<lparr>lastReading := reading\<rparr>))
        (VirtualEncoder_sample (es_encoder s) (true_position + offsetRadians s)))"

definition setFailureMode :: "encoder_sensor \<Rightarrow> encoder_failure_mode \<Rightarrow> encoder_sensor" where
  "setFailureMode s mode = s\<lparr>failureMode := mode\<rparr>"

section \<open>Temperature sensor\<close>

record temperature_sensor =
  ts_celsius :: f64
  timeConstantS :: f64
  maxSafeCelsius :: f64

definition TemperatureSensor_create ::
    "f64 \<Rightarrow> i64 \<Rightarrow> f64 \<Rightarrow> (hardware_error, temperature_sensor) expected" where
  "TemperatureSensor_create ambient timeConstant maxSafe =
     (let tau = seconds_of timeConstant
      in if tau \<le> 0 then Unexpected InvalidConfiguration
         else Ok \<lparr>ts_celsius = ambient, timeConstantS = tau, maxSafeCelsius = maxSafe\<rparr>)"

definition celsius :: "temperature_sensor \<Rightarrow> f64" where
  "celsius s = ts_celsius s"

definition isOverTemperature :: "temperature_sensor \<Rightarrow> bool" where
  "isOverTemperature s \<longleftrightarrow> maxSafeCelsius s < ts_celsius s"

definition TemperatureSensor_update ::
    "(f64 \<Rightarrow> f64) \<Rightarrow> temperature_sensor \<Rightarrow> i64 \<Rightarrow> f64 \<Rightarrow> temperature_sensor" where
  "TemperatureSensor_update expf s dt target =
     (let dtS = seconds_of dt
      in if dtS \<le> 0 then s
         else s\<lparr>ts_celsius := lag_step expf (ts_celsius s) target dtS (timeConstantS s)\<rparr>)"

section \<open>Threshold sensors\<close>

record current_sensor =
  maxSafeAmps :: f64

definition CurrentSensor_create :: "f64 \<Rightarrow> (hardware_error, current_sensor) expected" where
  "CurrentSensor_create a = (if a \<le> 0 then Unexpected InvalidConfiguration else Ok \<lparr>maxSafeAmps = a\<rparr>)"

definition isOverCurrent :: "current_sensor \<Rightarrow> f64 \<Rightarrow> bool" where
  "isOverCurrent s amps \<longleftrightarrow> maxSafeAmps s < \<bar>amps\<bar>"

record proximity_sensor =
  triggerDistance :: f64

definition ProximitySensor_create :: "f64 \<Rightarrow> (hardware_error, proximity_sensor) expected" where
  "ProximitySensor_create d =
     (if d \<le> 0 then Unexpected InvalidConfiguration else Ok \<lparr>triggerDistance = d\<rparr>)"

definition isTriggered :: "proximity_sensor \<Rightarrow> f64 \<Rightarrow> bool" where
  "isTriggered s distance \<longleftrightarrow> distance \<le> triggerDistance s"

section \<open>The encoder sensor against its history\<close>

text \<open>
  What a caller sees: a sequence of reads and mode changes, run on the sensor, against a
  description that knows only the calls made so far, latest first.
\<close>

datatype sensor_call = Read_at f64 | Set_mode encoder_failure_mode

fun EncoderSensor_run ::
    "(f64 \<Rightarrow> u64 \<Rightarrow> nat \<Rightarrow> f64) \<Rightarrow> encoder_sensor \<Rightarrow> sensor_call list \<Rightarrow> (f64 list \<times> encoder_sensor) option" where
  "EncoderSensor_run gauss s [] = Some ([], s)"
| "EncoderSensor_run gauss s (Read_at x # cs) =
     (case EncoderSensor_read gauss s x of
        None \<Rightarrow> None
      | Some (y, s') \<Rightarrow> map_option (\<lambda>(ys, s''). (y # ys, s'')) (EncoderSensor_run gauss s' cs))"
| "EncoderSensor_run gauss s (Set_mode m # cs) = EncoderSensor_run gauss (setFailureMode s m) cs"

fun mode_after :: "sensor_call list \<Rightarrow> encoder_failure_mode" where
  "mode_after [] = No_failure"
| "mode_after (Set_mode m # h) = m"
| "mode_after (Read_at x # h) = mode_after h"

fun normal_reads :: "sensor_call list \<Rightarrow> f64 list" where
  "normal_reads [] = []"
| "normal_reads (Set_mode m # h) = normal_reads h"
| "normal_reads (Read_at x # h) = (if mode_after h = No_failure then x # normal_reads h else normal_reads h)"

text \<open>The value of a normal read that is preceded by \<open>k\<close> others.\<close>

definition measured ::
    "(f64 \<Rightarrow> u64 \<Rightarrow> nat \<Rightarrow> f64) \<Rightarrow> virtual_encoder \<Rightarrow> f64 \<Rightarrow> f64 \<Rightarrow> u64 \<Rightarrow> nat \<Rightarrow> f64 \<Rightarrow> f64 option" where
  "measured gauss enc stddev offset seed k x =
     map_option (\<lambda>q. q + (if 0 < stddev then gauss stddev seed k else 0)) (VirtualEncoder_sample enc (x + offset))"

text \<open>What a read shows after the calls \<open>h\<close>: the failure, the last normal reading, or a measurement.\<close>

definition shown ::
    "(nat \<Rightarrow> f64 \<Rightarrow> f64 option) \<Rightarrow> sensor_call list \<Rightarrow> f64 \<Rightarrow> f64 option" where
  "shown meter h x =
     (case mode_after h of
        Disconnected \<Rightarrow> Some quiet_nan
      | Stuck \<Rightarrow> (case normal_reads h of [] \<Rightarrow> Some 0 | y # ys \<Rightarrow> meter (length ys) y)
      | No_failure \<Rightarrow> meter (length (normal_reads h)) x)"

fun shown_all :: "(nat \<Rightarrow> f64 \<Rightarrow> f64 option) \<Rightarrow> sensor_call list \<Rightarrow> sensor_call list \<Rightarrow> f64 list option" where
  "shown_all meter h [] = Some []"
| "shown_all meter h (Set_mode m # cs) = shown_all meter (Set_mode m # h) cs"
| "shown_all meter h (Read_at x # cs) =
     (case shown meter h x of
        None \<Rightarrow> None
      | Some y \<Rightarrow> map_option ((#) y) (shown_all meter (Read_at x # h) cs))"

definition tracks :: "(nat \<Rightarrow> f64 \<Rightarrow> f64 option) \<Rightarrow> encoder_sensor \<Rightarrow> encoder_sensor \<Rightarrow> sensor_call list \<Rightarrow> bool" where
  "tracks meter s0 s h \<longleftrightarrow>
     es_encoder s = es_encoder s0 \<and> noiseStdDevRadians s = noiseStdDevRadians s0 \<and>
     offsetRadians s = offsetRadians s0 \<and> rng_seed s = rng_seed s0 \<and>
     failureMode s = mode_after h \<and>
     (0 < noiseStdDevRadians s0 \<longrightarrow> rng_draws s = length (normal_reads h)) \<and>
     (case normal_reads h of [] \<Rightarrow> Some 0 | y # ys \<Rightarrow> meter (length ys) y) = Some (lastReading s)"

lemma read_tracks:
  assumes "tracks meter s0 s h"
    and "meter = measured gauss (es_encoder s0) (noiseStdDevRadians s0) (offsetRadians s0) (rng_seed s0)"
  shows "map_option fst (EncoderSensor_read gauss s x) = shown meter h x"
    and "EncoderSensor_read gauss s x = Some (y, s') \<Longrightarrow> tracks meter s0 s' (Read_at x # h)"
  using assms
  by (cases "mode_after h"; auto simp: tracks_def shown_def EncoderSensor_read_def measured_def
      option.map_comp comp_def Let_def split: if_splits; fail)+

lemma run_tracks:
  assumes "tracks meter s0 s h"
    and m: "meter = measured gauss (es_encoder s0) (noiseStdDevRadians s0) (offsetRadians s0) (rng_seed s0)"
  shows "map_option fst (EncoderSensor_run gauss s cs) = shown_all meter h cs"
  using assms(1)
proof (induction cs arbitrary: s h)
  case (Cons c cs)
  show ?case
  proof (cases c)
    case (Read_at x)
    note r = read_tracks [OF Cons.prems m, of x]
    show ?thesis
    proof (cases "EncoderSensor_read gauss s x")
      case None
      then show ?thesis using r(1) by (simp add: Read_at)
    next
      case (Some ys')
      obtain y s' where y: "ys' = (y, s')" by (cases ys')
      have "map_option fst (EncoderSensor_run gauss s' cs) = shown_all meter (Read_at x # h) cs"
        using Some y r(2) by (intro Cons.IH) simp
      moreover have "shown meter h x = Some y" using r(1) Some y by simp
      ultimately show ?thesis
        using Some y by (simp add: Read_at option.map_comp comp_def split_def flip: \<open>_ = shown_all _ _ _\<close>)
    qed
  next
    case (Set_mode md)
    have "tracks meter s0 (setFailureMode s md) (Set_mode md # h)"
      using Cons.prems by (simp add: tracks_def setFailureMode_def)
    then show ?thesis using Cons.IH by (simp add: Set_mode)
  qed
qed simp

section \<open>Temperature: lemmas\<close>

interpretation thermal: lagging ts_celsius "\<lambda>_. target" timeConstantS
  "\<lambda>s dt. TemperatureSensor_update expf s dt target" expf for target expf
  by unfold_locales (simp_all add: TemperatureSensor_update_def Let_def)

lemma TemperatureSensor_create_tau:
  assumes "TemperatureSensor_create ambient tc maxSafe = Ok s"
  shows "is_finite (timeConstantS s)" "0 < timeConstantS s" "ts_celsius s = ambient" "maxSafeCelsius s = maxSafe"
  using assms by (auto simp: TemperatureSensor_create_def Let_def f64_not_le split: if_splits)

lemma updates_keep_threshold:
  "maxSafeCelsius (foldl (\<lambda>s dt. TemperatureSensor_update expf s dt target) s dts) = maxSafeCelsius s"
  by (induction dts arbitrary: s) (simp_all add: TemperatureSensor_update_def Let_def)

section \<open>Properties\<close>

text \<open>C31. The readings of an encoder sensor are a function of the calls made to it: disconnected it shows
  NaN, stuck it shows the last reading taken in normal operation (0 if there was none), however the
  failures came and went, and otherwise the quantised position with the next draw of the noise.\<close>

theorem encoder_sensor_is_its_history:
  assumes "EncoderSensor_create enc stddev offset seed = Ok s"
  shows "map_option fst (EncoderSensor_run gauss s cs) =
    shown_all (measured gauss enc stddev offset seed) [] cs"
proof -
  have s: "s = \<lparr>es_encoder = enc, noiseStdDevRadians = stddev, offsetRadians = offset, rng_seed = seed,
      rng_draws = 0, failureMode = No_failure, lastReading = 0\<rparr>"
    using assms by (auto simp: EncoderSensor_create_def split: if_splits)
  show ?thesis by (rule run_tracks [where ?s0.0 = s]) (simp_all add: s tracks_def)
qed

theorem encoder_sensor_is_its_history_witness:
  "map_option fst (EncoderSensor_run (\<lambda>stddev seed k. f64_half)
       \<lparr>es_encoder = \<lparr>counts_per_revolution = 4096\<rparr>, noiseStdDevRadians = 1, offsetRadians = 0, rng_seed = 42,
        rng_draws = 0, failureMode = No_failure, lastReading = 0\<rparr>
       [Set_mode Stuck, Read_at 1, Set_mode Disconnected, Read_at 1]) =
     shown_all (measured (\<lambda>stddev seed k. f64_half) \<lparr>counts_per_revolution = 4096\<rparr> 1 0 42) []
       [Set_mode Stuck, Read_at 1, Set_mode Disconnected, Read_at 1] \<and>
   shown_all (measured (\<lambda>stddev seed k. f64_half) \<lparr>counts_per_revolution = 4096\<rparr> 1 0 42) []
       [Set_mode Stuck, Read_at 1, Set_mode Disconnected, Read_at 1] = Some [0, quiet_nan]"
proof
  have "\<not> (1::f64) < 0" by (simp add: f64_order f64_key_def)
  then show "map_option fst (EncoderSensor_run (\<lambda>stddev seed k. f64_half)
       \<lparr>es_encoder = \<lparr>counts_per_revolution = 4096\<rparr>, noiseStdDevRadians = 1, offsetRadians = 0, rng_seed = 42,
        rng_draws = 0, failureMode = No_failure, lastReading = 0\<rparr>
       [Set_mode Stuck, Read_at 1, Set_mode Disconnected, Read_at 1]) =
     shown_all (measured (\<lambda>stddev seed k. f64_half) \<lparr>counts_per_revolution = 4096\<rparr> 1 0 42) []
       [Set_mode Stuck, Read_at 1, Set_mode Disconnected, Read_at 1]"
    by (intro encoder_sensor_is_its_history) (simp add: EncoderSensor_create_def)
qed (simp add: shown_def)

text \<open>The temperature alarm does not depend on how an approach is cut into updates: a sensor heating
  towards a target within the safe range never raises it, and one cooling towards a target above
  the range never clears it.\<close>

theorem temperature_alarm_is_steady:
  assumes "exp_range expf" "n \<le> 52" "TemperatureSensor_create ambient tc maxSafe = Ok s"
    and "- pow2 n \<le> ambient" "ambient \<le> pow2 n" "- pow2 n \<le> target" "target \<le> pow2 n"
  shows "let after = foldl (\<lambda>s dt. TemperatureSensor_update expf s dt target) s dts
         in (if ambient \<le> target then (if target \<le> maxSafe then \<not> isOverTemperature after else True)
             else (if maxSafe < target then isOverTemperature after else True))"
proof -
  note s = TemperatureSensor_create_tau [OF assms(3)]
  note le = thermal.steps_below [OF assms(1,2) s(1,2) assms(7), unfolded s(3), OF _ assms(4)]
  note ge = thermal.steps_above [OF assms(1,2) s(1,2) assms(6), unfolded s(3), OF _ assms(5)]
  have "target \<le> ambient" if "\<not> ambient \<le> target"
    using that assms(4,6) by (auto simp: f64_order)
  then show ?thesis
    unfolding Let_def isOverTemperature_def updates_keep_threshold s(4)
    using le [of dts] ge [of dts] by (auto simp: f64_order)
qed

theorem temperature_alarm_is_steady_witness:
  "let after = foldl (\<lambda>s dt. TemperatureSensor_update halving s dt f64_180)
         \<lparr>ts_celsius = f64_five, timeConstantS = seconds_of 1000000000, maxSafeCelsius = f64_180\<rparr> [1000, 20000000]
   in (if f64_five \<le> f64_180 then (if f64_180 \<le> f64_180 then \<not> isOverTemperature after else True)
       else (if f64_180 < f64_180 then isOverTemperature after else True))"
proof (rule temperature_alarm_is_steady [OF exp_range_halving])
  show "TemperatureSensor_create f64_five 1000000000 f64_180 = Ok
      \<lparr>ts_celsius = f64_five, timeConstantS = seconds_of 1000000000, maxSafeCelsius = f64_180\<rparr>"
    by (simp add: TemperatureSensor_create_def seconds_of_le_0_iff)
  have five: "f64_five \<le> f64_180" "0 \<le> f64_five" "0 \<le> f64_180" by (simp_all add: f64_literals)
  have neg: "- pow2 8 \<le> 0"
    using pow2_fields [of 8] by (simp add: f64_le_finite_key is_finite_def)
  show "f64_five \<le> pow2 8" "f64_180 \<le> pow2 8"
    using five(1) f64_180_le_pow2 by (blast intro: f64_le_trans)+
  show "- pow2 8 \<le> f64_five" "- pow2 8 \<le> f64_180"
    using five(2,3) neg by (blast intro: f64_le_trans)+
qed simp

end
