(* ===== verification/Link.thy ===== *)
theory Link
  imports Cli_Client Float64_Conv
begin

text \<open>
  The client's end of a connection to a running emulator, for the programs that hold one for long:
  the ROS 2 bridge and the viewer.  A command goes through the real client, the byte stream and
  the server's connection loop; before each command the other threads of the emulator may act.
\<close>

section \<open>Connected to the emulator\<close>

text \<open>
  The client's end of a connection to the emulator: the emulator's state, and for each command
  still to come what the other threads do before it is served.
\<close>

type_synonym link = "emulator \<times> emu_action list list"

text \<open>
  A command over the link: the client sends its request in one piece, the server acts on it after
  the other threads, and its reply arrives in one piece.  Both ends stay connected.
\<close>

definition link_exec :: "command \<Rightarrow> link \<Rightarrow> (cli_error, outcome) expected \<times> link" where
  "link_exec command l =
     (case l of (em, others) \<Rightarrow>
        let request = encode (buildRequestFrame command)
        in case serve [(case others of [] \<Rightarrow> [] | a # _ \<Rightarrow> a, Sent)] [Ok request] [] em of
             None \<Rightarrow> (Unexpected TransportFailure, (em, tl others))
           | Some (em, replies) \<Rightarrow>
               (case Client_execute command [Returned (int (length request))] (map Ok replies) of
                  None \<Rightarrow> (Unexpected TransportFailure, (em, tl others))
                | Some (result, _) \<Rightarrow> (result, (em, tl others))))"

text \<open>The threads of the emulator, without the one that serves the connection.\<close>

fun thread_action :: "emu_action \<Rightarrow> bool" where
  "thread_action (Client_request _) = False"
| "thread_action _ = True"

text \<open>What the threads leave alone of every joint.\<close>

definition settings :: "joint \<Rightarrow> bool \<times> f64 \<times> joint_limits" where
  "settings j = (enabled j, target_position j, limits j)"

abbreviation link_joints :: "link \<Rightarrow> joint list" where
  "link_joints l \<equiv> joints (pl_robot (em_plant (fst l)))"

lemma thread_settings:
  assumes "list_all thread_action as"
  shows "map settings (joints (pl_robot (em_plant (foldl emu_step em as)))) =
    map settings (joints (pl_robot (em_plant em)))"
  using assms
proof (induction as arbitrary: em)
  case (Cons a as)
  have "map settings (joints (pl_robot (em_plant (emu_step em a)))) = map settings (joints (pl_robot (em_plant em)))"
    using Cons.prems by (cases a) (simp_all add: thread_fields Robot_update_def settings_def comp_def)
  then show ?case using Cons by simp
qed simp

section \<open>Lemmas\<close>

lemma send_in_one_piece: "TcpConnection_send bs [Returned (int (length bs))] = Some (Ok (), bs)"
  by (cases "bs = []") (simp_all add: TcpConnection_send_def send_loop.simps)

text \<open>The emulator that serves the next command.\<close>

definition before_next :: "link \<Rightarrow> emulator" where
  "before_next l = foldl emu_step (fst l) (case snd l of [] \<Rightarrow> [] | a # _ \<Rightarrow> a)"

definition quiet :: "link \<Rightarrow> bool" where
  "quiet l \<longleftrightarrow> list_all (list_all thread_action) (snd l)"

lemma before_next_settings:
  assumes "quiet l"
  shows "map settings (joints (pl_robot (em_plant (before_next l)))) = map settings (link_joints l)"
  using assms unfolding before_next_def quiet_def
  by (cases "snd l") (simp_all add: thread_settings)

lemma link_exec_outcome:
  assumes "quiet l" "length (link_joints l) < 65535"
  shows "link_exec command l =
    (command_outcome command (em_plant (before_next l)),
     (emu_step (before_next l) (Client_request (buildRequestFrame command)), tl (snd l)))"
proof -
  obtain em others where l: "l = (em, others)" by (cases l)
  define as where "as = (case others of [] \<Rightarrow> [] | a # _ \<Rightarrow> a)"
  let ?request = "buildRequestFrame command" and ?em = "foldl emu_step em as"
  let ?reply = "encode (fst (dispatch ?request (em_plant ?em)))"
  have b: "before_next l = ?em" by (simp add: before_next_def l as_def)
  have count: "Robot_jointCount (pl_robot (em_plant ?em)) < 65535"
    using before_next_settings [OF assms(1)] assms(2) unfolding b Robot_jointCount_def
    by (metis length_map)
  have "serve [(as, Sent)] (map Inr [encode ?request]) [] em = serve_frames [(as, Sent)] [?request] em"
    by (rule serve_stream) (simp_all add: buildRequest_sendable)
  then have served: "serve [(as, Sent)] (map Inr [encode ?request]) [] em =
      Some (emu_step ?em (Client_request ?request), [?reply])"
    by (simp add: Let_def)
  have "\<exists>rest. Client_execute command [Returned (int (length (encode ?request)))] (map Inr [?reply]) =
      Some (command_outcome command (em_plant ?em), encode ?request, rest)"
    using client_exchange [OF send_in_one_piece _ _ served, where replies = "[?reply]"] count
    by simp
  then show ?thesis
    using served unfolding b by (auto simp: link_exec_def l Let_def as_def)
qed

text \<open>A link for the witnesses: the emulator's six joints, enabled, and one control cycle before each command.\<close>

definition demo_link :: link where
  "demo_link =
     (emu_step (demo_emulator Idle) (Client_request (plain_request Enable)), replicate 6 [Control_cycle])"

lemma demo_link_fields:
  "quiet demo_link" "link_joints demo_link = replicate 6 (Joint_enable (Joint_create defaultLimits))"
  by (simp_all add: quiet_def demo_link_def list_all_iff dispatch_robot demo_emulator_def started_def kJointCount_def
      map_replicate_const)

end
