(* ===== verification/Ros2_Bridge.thy ===== *)
theory Ros2_Bridge
  imports Link
begin

text \<open>
  \<open>RobotEmulatorHardwareInterface\<close> (\<open>bridges/ros2_bridge/\<close>), the plugin through which ros2_control
  drives the emulator.  The base class, the executor and the parameters come from ros2_control, which
  is not part of the repository: the result of the base's \<open>on_init\<close>, the parameter map and the
  joint names are arguments.  The client is a parameter too (\<open>connect\<close>, \<open>exec\<close>, which is
  \<open>execute\<close> where it returns: a call in which \<open>SIGPIPE\<close> ends the node has no callback after it), and the
  properties are about the client of this library, connected to the emulator.
\<close>

section \<open>Standard library\<close>

text \<open>\<open>std::stoi\<close>: blanks, an optional sign, digits; \<open>None\<close> is an exception.\<close>

definition std_stoi :: "string \<Rightarrow> int option" where
  "std_stoi text =
     (case decimal_prefix text of
        None \<Rightarrow> None
      | Some v \<Rightarrow> if v < - (2 ^ 31) \<or> 2 ^ 31 \<le> v then None else Some v)"

section \<open>The plugin\<close>

datatype callback_return = Callback_SUCCESS | Callback_ERROR
datatype return_type = Return_OK | Return_ERROR

text \<open>
  \<open>hw_assigned\<close> counts the assignments to the three buffers: \<open>std::vector::assign\<close> invalidates every
  pointer to an element.
\<close>

record 'c hardware =
  hw_client :: "'c option"
  hw_host :: string
  hw_port :: u16
  hwPositions :: "f64 list"
  hwVelocities :: "f64 list"
  hwCommandsPosition :: "f64 list"
  hw_joint_names :: "string list"
  hw_assigned :: nat

definition hardware_create :: "'c hardware" where
  "hardware_create =
     \<lparr>hw_client = None, hw_host = ''127.0.0.1'', hw_port = 9000,
      hwPositions = [], hwVelocities = [], hwCommandsPosition = [], hw_joint_names = [],
      hw_assigned = 0\<rparr>"

text \<open>
  \<open>on_init\<close>: whether the base class succeeds (it then keeps the joints of \<open>info\<close>), the parameters and
  the joint names of \<open>info\<close>.  \<open>None\<close>: the exception of \<open>std::stoi\<close> leaves the function.
\<close>

definition on_init ::
    "bool \<Rightarrow> (string \<rightharpoonup> string) \<Rightarrow> string list \<Rightarrow> 'c hardware \<Rightarrow> (callback_return \<times> 'c hardware) option" where
  "on_init base_ok params names hw =
     (if \<not> base_ok then Some (Callback_ERROR, hw)
      else
        let hw = hw\<lparr>hw_joint_names := names\<rparr>;
            hw = (case params ''host'' of None \<Rightarrow> hw | Some h \<Rightarrow> hw\<lparr>hw_host := h\<rparr>);
            with_port = (case params ''port'' of
                None \<Rightarrow> Some hw
              | Some p \<Rightarrow> map_option (\<lambda>v. hw\<lparr>hw_port := word_of_int v\<rparr>) (std_stoi p))
        in map_option (\<lambda>hw.
             let jointCount = length names
             in if 255 < jointCount then (Callback_ERROR, hw)
                else (Callback_SUCCESS,
                  hw\<lparr>hwPositions := replicate jointCount 0, hwVelocities := replicate jointCount 0,
                     hwCommandsPosition := replicate jointCount 0, hw_assigned := hw_assigned hw + 1\<rparr>)) with_port)"

text \<open>An exported interface: the joint's name, the kind, and the element it points to, of the buffers then current.\<close>

datatype interface_kind = HW_IF_POSITION | HW_IF_VELOCITY
datatype handle = Position_of nat nat | Velocity_of nat nat | Command_of nat nat

definition export_state_interfaces :: "'c hardware \<Rightarrow> (string \<times> interface_kind \<times> handle) list" where
  "export_state_interfaces hw =
     concat (map (\<lambda>i. [(hw_joint_names hw ! i, HW_IF_POSITION, Position_of (hw_assigned hw) i),
                       (hw_joint_names hw ! i, HW_IF_VELOCITY, Velocity_of (hw_assigned hw) i)]) [0..<length (hw_joint_names hw)])"

definition export_command_interfaces :: "'c hardware \<Rightarrow> (string \<times> interface_kind \<times> handle) list" where
  "export_command_interfaces hw =
     map (\<lambda>i. (hw_joint_names hw ! i, HW_IF_POSITION, Command_of (hw_assigned hw) i)) [0..<length (hw_joint_names hw)]"

definition on_activate ::
    "(string \<Rightarrow> u16 \<Rightarrow> (cli_error, 'c) expected) \<Rightarrow> 'c hardware \<Rightarrow> callback_return \<times> 'c hardware" where
  "on_activate connect hw =
     (case connect (hw_host hw) (hw_port hw) of
        Inl _ \<Rightarrow> (Callback_ERROR, hw)
      | Inr client \<Rightarrow> (Callback_SUCCESS, hw\<lparr>hw_client := Some client\<rparr>))"

definition on_deactivate :: "'c hardware \<Rightarrow> callback_return \<times> 'c hardware" where
  "on_deactivate hw = (Callback_SUCCESS, hw\<lparr>hw_client := None\<rparr>)"

definition hardware_read ::
    "(command \<Rightarrow> 'c \<Rightarrow> (cli_error, outcome) expected \<times> 'c) \<Rightarrow> 'c hardware \<Rightarrow> return_type \<times> 'c hardware" where
  "hardware_read exec hw =
     (case hw_client hw of
        None \<Rightarrow> (Return_ERROR, hw)
      | Some client \<Rightarrow>
          let (outcome, client) = exec (plain_command Kind_Status) client;
              hw = hw\<lparr>hw_client := Some client\<rparr>
          in case outcome of
               Inl _ \<Rightarrow> (Return_ERROR, hw)
             | Inr outcome \<Rightarrow>
                 (case out_statusPayload outcome of
                    None \<Rightarrow> (Return_ERROR, hw)
                  | Some status \<Rightarrow>
                      (Return_OK,
                       foldl (\<lambda>hw i. hw\<lparr>hwPositions := (hwPositions hw)[i := js_positionRadians (sp_joints status ! i)],
                                        hwVelocities := (hwVelocities hw)[i := js_velocityRadiansPerSecond (sp_joints status ! i)]\<rparr>)
                         hw [0..<min (length (hwPositions hw)) (length (sp_joints status))])))"

definition move_command :: "nat \<Rightarrow> f64 \<Rightarrow> command" where
  "move_command i x =
     \<lparr>cmd_kind = Kind_MoveJoint, cmd_jointIndex = word_of_nat i, cmd_targetDegrees = x * f64_180 / f64_pi\<rparr>"

text \<open>The loop of \<open>write\<close> from joint \<open>i\<close> on.\<close>

fun write_commands ::
    "(command \<Rightarrow> 'c \<Rightarrow> (cli_error, outcome) expected \<times> 'c) \<Rightarrow> nat \<Rightarrow> f64 list \<Rightarrow> 'c \<Rightarrow> return_type \<times> 'c" where
  "write_commands exec i [] client = (Return_OK, client)"
| "write_commands exec i (x # xs) client =
     (let (outcome, client) = exec (move_command i x) client
      in if \<not> has_value outcome then (Return_ERROR, client)
         else write_commands exec (i + 1) xs client)"

definition hardware_write ::
    "(command \<Rightarrow> 'c \<Rightarrow> (cli_error, outcome) expected \<times> 'c) \<Rightarrow> 'c hardware \<Rightarrow> return_type \<times> 'c hardware" where
  "hardware_write exec hw =
     (case hw_client hw of
        None \<Rightarrow> (Return_ERROR, hw)
      | Some client \<Rightarrow>
          let (result, client) = write_commands exec 0 (hwCommandsPosition hw) client
          in (result, hw\<lparr>hw_client := Some client\<rparr>))"

text \<open>The calls ros2_control makes after the initialisation.\<close>

datatype 'c callback =
    Activate "string \<Rightarrow> u16 \<Rightarrow> (cli_error, 'c) expected"
  | Deactivate
  | Read "command \<Rightarrow> 'c \<Rightarrow> (cli_error, outcome) expected \<times> 'c"
  | Write "command \<Rightarrow> 'c \<Rightarrow> (cli_error, outcome) expected \<times> 'c"
  | Store_command nat f64

fun hw_callback :: "'c hardware \<Rightarrow> 'c callback \<Rightarrow> 'c hardware" where
  "hw_callback hw (Activate connect) = snd (on_activate connect hw)"
| "hw_callback hw Deactivate = snd (on_deactivate hw)"
| "hw_callback hw (Read exec) = snd (hardware_read exec hw)"
| "hw_callback hw (Write exec) = snd (hardware_write exec hw)"
| "hw_callback hw (Store_command i x) = hw\<lparr>hwCommandsPosition := (hwCommandsPosition hw)[i := x]\<rparr>"

text \<open>Whether an exported pointer still points to an element: its buffer has not been assigned since, and has one there.\<close>

fun handle_valid :: "'c hardware \<Rightarrow> handle \<Rightarrow> bool" where
  "handle_valid hw (Position_of g i) = (g = hw_assigned hw \<and> i < length (hwPositions hw))"
| "handle_valid hw (Velocity_of g i) = (g = hw_assigned hw \<and> i < length (hwVelocities hw))"
| "handle_valid hw (Command_of g i) = (g = hw_assigned hw \<and> i < length (hwCommandsPosition hw))"

section \<open>Lemmas\<close>

text \<open>A target on its way through degrees and back stays within a half turn either way.\<close>

definition via_degrees :: "f64 \<Rightarrow> f64" where
  "via_degrees x = x * f64_180 / f64_pi * f64_pi / f64_180"

lemma targetRadians_move: "targetRadians (move_command i x) = via_degrees x"
  by (simp add: targetRadians_def move_command_def via_degrees_def)

lemma via_degrees_zero: "via_degrees 0 = 0"
  by (simp add: via_degrees_def zero_scaled f64_literals)

lemma via_degrees_range:
  assumes "- f64_pi \<le> x" "x \<le> f64_pi"
  shows "- f64_pi \<le> via_degrees x" "via_degrees x \<le> f64_pi"
proof -
  have lit: "is_finite f64_pi" "is_finite f64_180" "0 \<le> f64_pi" "0 < f64_180" "is_finite (F64 0x4081abe4b73fefb5)"
    by (simp_all add: f64_literals)
  note c = scale_range [OF in_degrees_range [OF assms] lit(2,1,3), unfolded times_180_pi]
  have e: "F64 0x4081abe4b73fefb5 / f64_180 = f64_pi" using degrees_180 by (simp only: times_180_pi)
  show "- f64_pi \<le> via_degrees x" "via_degrees x \<le> f64_pi"
    using div_range [OF c lit(5,2,4), unfolded e] by (simp_all only: via_degrees_def)
qed

text \<open>One accepted command changes one setting.\<close>

lemma settings_nth: "i < length (link_joints l) \<Longrightarrow>
    map settings (link_joints l) ! i = settings (link_joints l ! i)"
  by simp

lemma link_move:
  assumes "quiet l" "length (link_joints l) < 65535" "i < length (link_joints l)" "i < 256"
    and s: "map settings (link_joints l) ! i = (True, t, lim)"
    and x: "\<not> via_degrees x < min_position lim" "\<not> max_position lim < via_degrees x"
  shows "has_value (fst (link_exec (move_command i x) l))"
    and "map settings (link_joints (snd (link_exec (move_command i x) l))) =
      (map settings (link_joints l))[i := (True, via_degrees x, lim)]"
    and "quiet (snd (link_exec (move_command i x) l))"
proof -
  let ?c = "move_command i x" and ?em = "before_next l"
  let ?js = "joints (pl_robot (em_plant ?em))"
  have eq: "map settings ?js = map settings (link_joints l)" by (rule before_next_settings [OF assms(1)])
  then have len: "length ?js = length (link_joints l)" by (metis length_map)
  have "settings (?js ! i) = (True, t, lim)" using eq s assms(3) len by (metis nth_map)
  then have j: "enabled (?js ! i)" "limits (?js ! i) = lim" by (simp_all add: settings_def)
  have u: "unat (word_of_nat i :: u8) = i" using assms(4) by (simp add: unat_of_nat)
  have k: "cmd_kind ?c = Kind_MoveJoint" "unat (cmd_jointIndex ?c) = i" by (simp_all add: move_command_def u)
  have m: "move_accepted ?c (em_plant ?em)"
    using x assms(3) by (simp add: move_accepted_def Let_def targetRadians_move Robot_joint_def Robot_jointCount_def
        len j k(2))
  show "has_value (fst (link_exec ?c l))"
    using m k by (simp add: link_exec_outcome [OF assms(1,2)] command_outcome_def)
  have "frame_type (buildRequestFrame ?c) = MoveJoint" by (simp add: buildRequestFrame_def k(1))
  then have "link_joints (snd (link_exec ?c l)) = ?js[i := (?js ! i)\<lparr>target_position := via_degrees x\<rparr>]"
    using m move_target_request [OF k(1), of "em_plant ?em"]
    by (simp add: link_exec_outcome [OF assms(1,2)] dispatch_robot k(2) targetRadians_move Robot_joint_def)
  then show "map settings (link_joints (snd (link_exec ?c l))) =
      (map settings (link_joints l))[i := (True, via_degrees x, lim)]"
    using j by (simp add: map_update eq settings_def)
  show "quiet (snd (link_exec ?c l))"
    using assms(1) by (cases "snd l") (simp_all add: link_exec_outcome [OF assms(1,2)] quiet_def)
qed

text \<open>The joints from \<open>i\<close> on, each with the default limits and enabled, get the commands.\<close>

definition ready_for :: "link \<Rightarrow> bool" where
  "ready_for l \<longleftrightarrow>
     quiet l \<and> length (link_joints l) \<le> 255 \<and>
     list_all (\<lambda>j. enabled j \<and> limits j = defaultLimits) (link_joints l)"

lemma ready_for_settings:
  "ready_for l \<longleftrightarrow> quiet l \<and> length (link_joints l) \<le> 255 \<and>
     list_all (\<lambda>(e, t, lim). e \<and> lim = defaultLimits) (map settings (link_joints l))"
  by (simp add: ready_for_def settings_def list_all_iff)

lemma write_commands_result:
  assumes "ready_for l" "i + length xs \<le> length (link_joints l)"
    and "list_all (\<lambda>x. - f64_pi \<le> x \<and> x \<le> f64_pi) xs"
  shows "fst (write_commands link_exec i xs l) = Return_OK"
    and "map target_position (link_joints (snd (write_commands link_exec i xs l))) =
      take i (map target_position (link_joints l)) @ map via_degrees xs @
      drop (i + length xs) (map target_position (link_joints l))"
proof -
  have "fst (write_commands link_exec i xs l) = Return_OK \<and>
    map target_position (link_joints (snd (write_commands link_exec i xs l))) =
      take i (map target_position (link_joints l)) @ map via_degrees xs @
      drop (i + length xs) (map target_position (link_joints l))"
    using assms
  proof (induction xs arbitrary: i l)
    case (Cons x xs)
    define l' where "l' = snd (link_exec (move_command i x) l)"
    have i: "i < length (link_joints l)" and x: "- f64_pi \<le> x" "x \<le> f64_pi" using Cons.prems(2,3) by simp_all
    have q: "quiet l" "length (link_joints l) \<le> 255" using Cons.prems(1) by (simp_all add: ready_for_def)
    obtain t where s: "map settings (link_joints l) ! i = (True, t, defaultLimits)"
      using Cons.prems(1) i by (auto simp: ready_for_def settings_def list_all_length)
    have in_range: "\<not> via_degrees x < min_position defaultLimits" "\<not> max_position defaultLimits < via_degrees x"
      using via_degrees_range [OF x] by (auto simp: defaultLimits_exact f64_order)
    have mv: "has_value (fst (link_exec (move_command i x) l))" "quiet l'"
      "map settings (link_joints l') = (map settings (link_joints l))[i := (True, via_degrees x, defaultLimits)]"
      unfolding l'_def by (rule link_move [OF q(1) _ i _ s in_range]; use q(2) i in simp)+
    have len: "length (link_joints l') = length (link_joints l)" using mv(3) by (metis length_list_update length_map)
    have r: "ready_for l'"
      using Cons.prems(1) unfolding ready_for_settings mv(3) len
      by (auto simp: mv(2) intro!: list_all_update)
    have "map (\<lambda>(e, t, lim). t) (map settings (link_joints l')) = (map target_position (link_joints l))[i := via_degrees x]"
      unfolding mv(3) by (simp add: map_update settings_def comp_def)
    then have tg: "map target_position (link_joints l') = (map target_position (link_joints l))[i := via_degrees x]"
      by (simp add: settings_def comp_def)
    have w: "write_commands link_exec i (x # xs) l = write_commands link_exec (Suc i) xs l'"
      using mv(1) by (simp add: split_beta l'_def)
    have ih: "fst (write_commands link_exec (Suc i) xs l') = Return_OK \<and>
        map target_position (link_joints (snd (write_commands link_exec (Suc i) xs l'))) =
        take (Suc i) (map target_position (link_joints l')) @ map via_degrees xs @
        drop (Suc i + length xs) (map target_position (link_joints l'))"
      using Cons.prems(2,3) r len by (intro Cons.IH) simp_all
    show ?case
      using ih i unfolding w tg by (simp add: take_Suc_conv_app_nth drop_update_cancel)
  qed simp
  then show "fst (write_commands link_exec i xs l) = Return_OK"
    "map target_position (link_joints (snd (write_commands link_exec i xs l))) =
      take i (map target_position (link_joints l)) @ map via_degrees xs @
      drop (i + length xs) (map target_position (link_joints l))" by simp_all
qed

text \<open>The loop of \<open>read\<close>.\<close>

lemma copy_loop:
  fixes hw :: "'c hardware" and xs vs :: "nat \<Rightarrow> f64"
  assumes "n \<le> length (hwPositions hw)" "n \<le> length (hwVelocities hw)"
  defines "hw' \<equiv> foldl (\<lambda>hw i. hw\<lparr>hwPositions := (hwPositions hw)[i := xs i],
      hwVelocities := (hwVelocities hw)[i := vs i]\<rparr>) hw [0..<n]"
  shows "hw' = hw\<lparr>hwPositions := map xs [0..<n] @ drop n (hwPositions hw),
    hwVelocities := map vs [0..<n] @ drop n (hwVelocities hw)\<rparr>"
  using assms(1,2) unfolding hw'_def
proof (induction n)
  case (Suc n)
  have "(ys @ drop n zs)[n := y] = ys @ y # drop (Suc n) zs" if "n < length zs" "length ys = n" for ys zs and y :: f64
    using that by (simp add: list_update_append Cons_nth_drop_Suc [symmetric])
  then show ?case using Suc by simp
qed simp

lemma read_lengths:
  "length (hwPositions (snd (hardware_read exec hw))) = length (hwPositions hw) \<and>
   length (hwVelocities (snd (hardware_read exec hw))) = length (hwVelocities hw) \<and>
   hwCommandsPosition (snd (hardware_read exec hw)) = hwCommandsPosition hw \<and>
   hw_assigned (snd (hardware_read exec hw)) = hw_assigned hw"
proof -
  have "length (hwPositions (foldl (\<lambda>hw i. hw\<lparr>hwPositions := (hwPositions hw)[i := xs i],
        hwVelocities := (hwVelocities hw)[i := vs i]\<rparr>) hw is)) = length (hwPositions hw) \<and>
      length (hwVelocities (foldl (\<lambda>hw i. hw\<lparr>hwPositions := (hwPositions hw)[i := xs i],
        hwVelocities := (hwVelocities hw)[i := vs i]\<rparr>) hw is)) = length (hwVelocities hw) \<and>
      hwCommandsPosition (foldl (\<lambda>hw i. hw\<lparr>hwPositions := (hwPositions hw)[i := xs i],
        hwVelocities := (hwVelocities hw)[i := vs i]\<rparr>) hw is) = hwCommandsPosition hw \<and>
      hw_assigned (foldl (\<lambda>hw i. hw\<lparr>hwPositions := (hwPositions hw)[i := xs i],
        hwVelocities := (hwVelocities hw)[i := vs i]\<rparr>) hw is) = hw_assigned hw"
    for hw :: "'a hardware" and xs vs :: "nat \<Rightarrow> f64" and "is"
    by (induction "is" arbitrary: hw) simp_all
  note loop = this
  show ?thesis
    by (simp add: hardware_read_def split_beta Let_def loop split: option.split sum.split)
qed

lemma callback_lengths:
  "length (hwPositions (hw_callback hw c)) = length (hwPositions hw)"
  "length (hwVelocities (hw_callback hw c)) = length (hwVelocities hw)"
  "length (hwCommandsPosition (hw_callback hw c)) = length (hwCommandsPosition hw)"
  "hw_assigned (hw_callback hw c) = hw_assigned hw"
  by (cases c; simp add: read_lengths on_activate_def on_deactivate_def hardware_write_def split_beta Let_def
      split: sum.split option.split)+

lemma callbacks_lengths:
  "length (hwPositions (foldl hw_callback hw cs)) = length (hwPositions hw)"
  "length (hwVelocities (foldl hw_callback hw cs)) = length (hwVelocities hw)"
  "length (hwCommandsPosition (foldl hw_callback hw cs)) = length (hwCommandsPosition hw)"
  "hw_assigned (foldl hw_callback hw cs) = hw_assigned hw"
  by (induction cs arbitrary: hw) (simp_all add: callback_lengths)

section \<open>Properties\<close>

text \<open>C33. The pointers handed to ros2_control stay valid: every state and command interface exported after
  a successful initialisation points to an existing element of its buffer, and no sequence of
  callbacks invalidates it, because none assigns a buffer anew or changes its size.\<close>

theorem ros2_handles_stay_valid:
  assumes "on_init base_ok params names hw0 = Some (Callback_SUCCESS, hw)"
  shows "list_all (\<lambda>(name, kind, h). handle_valid (foldl hw_callback hw calls) h)
    (export_state_interfaces hw @ export_command_interfaces hw)"
proof -
  have n: "hw_joint_names hw = names" "length (hwPositions hw) = length names"
    "length (hwVelocities hw) = length names" "length (hwCommandsPosition hw) = length names"
    using assms by (auto simp: on_init_def Let_def split: option.splits if_splits)
  show ?thesis
    by (auto simp: list_all_iff export_state_interfaces_def export_command_interfaces_def n callbacks_lengths)
qed

theorem ros2_handles_stay_valid_witness:
  "let hw = \<lparr>hw_client = None, hw_host = ''127.0.0.1'', hw_port = 9100, hwPositions = [0, 0],
       hwVelocities = [0, 0], hwCommandsPosition = [0, 0], hw_joint_names = [''a'', ''b''], hw_assigned = 1\<rparr>
   in list_all (\<lambda>(name, kind, h). handle_valid (foldl hw_callback hw [Store_command 1 1, Deactivate]) h)
        (export_state_interfaces hw @ export_command_interfaces hw)"
  unfolding Let_def
proof (rule ros2_handles_stay_valid)
  show "on_init True [''port'' \<mapsto> ''+9100''] [''a'', ''b''] hardware_create = Some (Callback_SUCCESS,
      \<lparr>hw_client = None, hw_host = ''127.0.0.1'', hw_port = 9100, hwPositions = [0, 0],
       hwVelocities = [0, 0], hwCommandsPosition = [0, 0], hw_joint_names = [''a'', ''b''], hw_assigned = 1\<rparr>)"
    by (simp add: on_init_def hardware_create_def std_stoi_def decimal_prefix_def is_space_def is_digit_def digits_value_def
        numeral_2_eq_2)
qed

text \<open>One read cycle of ros2_control: while the other threads of the emulator run, \<open>read\<close> succeeds and
  fills the state interfaces with the position and velocity of every joint bit for bit, and
  changes no command.\<close>

theorem ros2_read_mirrors_robot:
  assumes "hw_client hw = Some l" "quiet l"
    and "length (link_joints l) < 65535" "length (hwPositions hw) = length (link_joints l)"
    and "length (hwVelocities hw) = length (link_joints l)"
  shows "let (result, hw') = hardware_read link_exec hw; js = joints (pl_robot (em_plant (before_next l)))
    in result = Return_OK \<and> hwPositions hw' = map (\<lambda>j. position (jstate j)) js \<and>
       hwVelocities hw' = map (\<lambda>j. velocity (jstate j)) js \<and>
       hwCommandsPosition hw' = hwCommandsPosition hw"
proof -
  let ?js = "joints (pl_robot (em_plant (before_next l)))"
  let ?st = "status_of (em_plant (before_next l))" and ?n = "length (link_joints l)"
  let ?l' = "(emu_step (before_next l) (Client_request (buildRequestFrame (plain_command Kind_Status))), tl (snd l))"
  let ?hw = "hw\<lparr>hw_client := Some ?l'\<rparr>"
  have len: "length ?js = ?n" using before_next_settings [OF assms(2)] by (metis length_map)
  then have n: "length (sp_joints ?st) = ?n" by (simp add: status_of_def)
  have x: "link_exec (plain_command Kind_Status) l = (Ok \<lparr>out_status = 0, out_statusPayload = Some ?st\<rparr>, ?l')"
    by (simp only: link_exec_outcome [OF assms(2,3)]) (simp add: command_outcome_def plain_command_def)
  have r: "snd (hardware_read link_exec hw) = ?hw\<lparr>
      hwPositions := map (\<lambda>i. js_positionRadians (sp_joints ?st ! i)) [0..<?n] @ drop ?n (hwPositions ?hw),
      hwVelocities := map (\<lambda>i. js_velocityRadiansPerSecond (sp_joints ?st ! i)) [0..<?n] @ drop ?n (hwVelocities ?hw)\<rparr>"
    using assms(1,4,5) n by (simp add: hardware_read_def x copy_loop)
  have ok: "fst (hardware_read link_exec hw) = Return_OK"
    using assms(1) by (simp add: hardware_read_def x)
  have m: "map (\<lambda>i. js_positionRadians (sp_joints ?st ! i)) [0..<?n] = map (\<lambda>j. position (jstate j)) ?js"
    "map (\<lambda>i. js_velocityRadiansPerSecond (sp_joints ?st ! i)) [0..<?n] = map (\<lambda>j. velocity (jstate j)) ?js"
    by (rule nth_equalityI; simp add: status_of_def len)+
  have d: "drop ?n (hwPositions hw) = []" "drop ?n (hwVelocities hw) = []" using assms(4,5) by simp_all
  show ?thesis
    unfolding split_beta Let_def ok r m by (simp add: d)
qed

lemma demo_link_ready: "ready_for demo_link"
  unfolding ready_for_def demo_link_fields
  by (simp add: demo_link_fields list_all_iff Joint_enable_def Joint_create_def)

abbreviation demo_hardware :: "f64 \<Rightarrow> link hardware" where
  "demo_hardware x \<equiv>
     \<lparr>hw_client = Some demo_link, hw_host = ''127.0.0.1'', hw_port = 9000, hwPositions = replicate 6 0,
      hwVelocities = replicate 6 0, hwCommandsPosition = replicate 6 x, hw_joint_names = [], hw_assigned = 1\<rparr>"

theorem ros2_read_mirrors_robot_witness:
  "let (result, hw') = hardware_read link_exec (demo_hardware 0)
   in result = Return_OK \<and> hwCommandsPosition hw' = replicate 6 0"
  using ros2_read_mirrors_robot [of "demo_hardware 0" demo_link] demo_link_fields demo_link_ready by (simp add: Let_def split_beta)

text \<open>C32. One write cycle on an emulator whose joints are enabled and have the scenario's limits (the bridge
  itself never enables them), while its other threads, but no other client, act between the requests:
  for commands within a half turn either way \<open>write\<close> succeeds, and afterwards the target of every
  joint is its command, sent through degrees and back, again within the limits.\<close>

theorem ros2_write_sets_targets:
  assumes "hw_client hw = Some l" "ready_for l" "length (hwCommandsPosition hw) = length (link_joints l)"
    and "list_all (\<lambda>x. - f64_pi \<le> x \<and> x \<le> f64_pi) (hwCommandsPosition hw)"
  shows "let (result, hw') = hardware_write link_exec hw
    in result = Return_OK \<and>
       map target_position (link_joints (the (hw_client hw'))) = map via_degrees (hwCommandsPosition hw) \<and>
       list_all (\<lambda>x. - f64_pi \<le> via_degrees x \<and> via_degrees x \<le> f64_pi) (hwCommandsPosition hw)"
  using write_commands_result [OF assms(2), of 0 "hwCommandsPosition hw"] assms(1,3,4) via_degrees_range
  by (auto simp: hardware_write_def split_beta Let_def list_all_iff)

theorem ros2_write_sets_targets_witness:
  "let (result, hw') = hardware_write link_exec (demo_hardware f64_pi)
   in result = Return_OK \<and> map target_position (link_joints (the (hw_client hw'))) = replicate 6 (via_degrees f64_pi)"
proof -
  have "- f64_pi \<le> f64_pi" "f64_pi \<le> f64_pi" by (simp_all add: f64_literals)
  then show ?thesis
    using ros2_write_sets_targets [of "demo_hardware f64_pi" demo_link] demo_link_fields demo_link_ready
    by (simp add: Let_def split_beta map_replicate_const list_all_iff)
qed

text \<open>C34. The commands are not initialised from the robot: a plugin initialised for the robot's joints and
  activated sends every enabled joint to zero with its first \<open>write\<close>, wherever it stands and
  whatever was read before.\<close>

theorem ros2_first_write_moves_to_zero:
  assumes "on_init True params names hardware_create = Some (Callback_SUCCESS, hw0)"
    and "on_activate connect hw0 = (Callback_SUCCESS, hw)" "hw_client hw = Some l"
    and "ready_for l" "length names = length (link_joints l)"
  shows "let (result, hw') = hardware_write link_exec hw
    in result = Return_OK \<and> map target_position (link_joints (the (hw_client hw'))) = replicate (length names) 0"
proof -
  have cmds: "hwCommandsPosition hw = replicate (length names) 0"
    using assms(1,2) by (auto simp: on_init_def on_activate_def Let_def split: option.splits if_splits sum.splits)
  have "list_all (\<lambda>x. - f64_pi \<le> x \<and> x \<le> f64_pi) (replicate (length names) 0)"
    by (simp add: list_all_iff f64_literals)
  then show ?thesis
    using write_commands_result [OF assms(4), of 0 "hwCommandsPosition hw"] assms(3,5)
    by (simp add: hardware_write_def split_beta Let_def cmds via_degrees_zero map_replicate_const)
qed

theorem ros2_first_write_moves_to_zero_witness:
  "let names = replicate 6 ''j'';
       hw = \<lparr>hw_client = Some demo_link, hw_host = ''127.0.0.1'', hw_port = 9000, hwPositions = replicate 6 0,
             hwVelocities = replicate 6 0, hwCommandsPosition = replicate 6 0, hw_joint_names = names, hw_assigned = 1\<rparr>;
       (result, hw') = hardware_write link_exec hw
   in result = Return_OK \<and> map target_position (link_joints (the (hw_client hw'))) = replicate 6 0"
proof -
  let ?hw = "\<lparr>hw_client = Some demo_link, hw_host = ''127.0.0.1'', hw_port = 9000, hwPositions = replicate 6 0,
      hwVelocities = replicate 6 0, hwCommandsPosition = replicate 6 0, hw_joint_names = replicate 6 ''j'', hw_assigned = 1\<rparr> :: link hardware"
  have "on_init True Map.empty (replicate 6 ''j'') hardware_create = Some (Callback_SUCCESS, ?hw\<lparr>hw_client := None\<rparr>)"
    by (simp add: on_init_def hardware_create_def)
  moreover have "on_activate (\<lambda>_ _. Ok demo_link) (?hw\<lparr>hw_client := None\<rparr>) = (Callback_SUCCESS, ?hw)"
    by (simp add: on_activate_def)
  ultimately show ?thesis
    using ros2_first_write_moves_to_zero [of Map.empty "replicate 6 ''j''" _ "\<lambda>_ _. Ok demo_link" ?hw demo_link] demo_link_fields demo_link_ready
    by (simp add: Let_def split_beta)
qed

end
