(* ===== verification/Accepting.thy ===== *)
theory Accepting
  imports Emulator Sockets Charconv
begin

text \<open>
  The accept loops of the two servers, \<open>apps/robot-emulator/main.cpp\<close> and
  \<open>apps/robot-viewer/main.cpp\<close>: a listener, and one visitor after the other.  The contract of a
  pass through such a loop is a locale; here it is instantiated by the emulator and the whole
  \<open>main\<close> of the emulator is put together.
\<close>

section \<open>Arguments\<close>

text \<open>
  A port argument, \<open>static_cast<std::uint16_t>(std::atoi(argv[i]))\<close>, or the default without one;
  \<open>None\<close> where \<open>std::atoi\<close> is undefined.
\<close>

definition port_argument :: "string list \<Rightarrow> nat \<Rightarrow> u16 \<Rightarrow> u16 option" where
  "port_argument argv i dflt =
     (if i < length argv then map_option word_of_int (std_atoi (argv ! i)) else Some dflt)"

text \<open>What the system calls of \<open>TcpListener::create\<close> yield; a bound port depends on the one asked for.\<close>

record listener_calls =
  lc_socket :: bool
  lc_bind :: int
  lc_listen :: int
  lc_getsockname :: int
  lc_bound_port :: "u16 \<Rightarrow> u16"

definition listen_on ::
    "(int set \<Rightarrow> int) \<Rightarrow> listener_calls \<Rightarrow> u16 \<Rightarrow> kernel \<Rightarrow> (transport_error, tcp_listener) expected \<times> kernel" where
  "listen_on fresh calls port =
     TcpListener_create fresh (lc_socket calls) (lc_bind calls) (lc_listen calls) (lc_getsockname calls)
       (lc_bound_port calls port)"

section \<open>The contract of a pass\<close>

text \<open>
  A pass has its effect on the state of the program, which is \<open>None\<close> once \<open>SIGPIPE\<close> has ended the
  process.  A pass that the process survives leaves the table of descriptors as it was: every
  socket opened for the visitor is closed again, once.
\<close>

locale accept_loop =
  fixes pass :: "tcp_listener \<Rightarrow> 'v \<Rightarrow> 's option \<times> kernel \<Rightarrow> 's option \<times> kernel"
    and effect :: "'v \<Rightarrow> 's \<Rightarrow> 's option"
    and fresh :: "int set \<Rightarrow> int"
  assumes pass_ended: "pass l v (None, k) = (None, k)"
    and pass_effect: "allocates fresh \<Longrightarrow> finite (open_fds k) \<Longrightarrow> listener_fd l \<in> open_fds k \<Longrightarrow>
    fst (pass l v (Some s, k)) = effect v s \<and> (effect v s \<noteq> None \<longrightarrow> snd (pass l v (Some s, k)) = k)"
begin

lemma ended: "foldl (\<lambda>sk v. pass l v sk) (None, k) visits = (None, k)"
  by (induction visits) (simp_all add: pass_ended)

lemma ended_effect: "foldl (\<lambda>s v. Option.bind s (effect v)) None visits = None"
  by (induction visits) simp_all

lemma passes:
  assumes "allocates fresh" "finite (open_fds k)" "listener_fd l \<in> open_fds k"
  shows "fst (foldl (\<lambda>sk v. pass l v sk) (Some s, k) visits) = foldl (\<lambda>s v. Option.bind s (effect v)) (Some s) visits"
    and "foldl (\<lambda>s v. Option.bind s (effect v)) (Some s) visits \<noteq> None \<Longrightarrow>
      snd (foldl (\<lambda>sk v. pass l v sk) (Some s, k) visits) = k"
proof -
  have "fst (foldl (\<lambda>sk v. pass l v sk) (Some s, k) visits) = foldl (\<lambda>s v. Option.bind s (effect v)) (Some s) visits \<and>
    (foldl (\<lambda>s v. Option.bind s (effect v)) (Some s) visits \<noteq> None \<longrightarrow>
      snd (foldl (\<lambda>sk v. pass l v sk) (Some s, k) visits) = k)"
  proof (induction visits arbitrary: s)
    case (Cons v visits)
    note pe = pass_effect [OF assms, of v s]
    show ?case
    proof (cases "effect v s")
      case None
      then obtain k1 where "pass l v (Some s, k) = (None, k1)" using pe by (metis prod.collapse)
      then show ?thesis using None by (simp add: ended ended_effect)
    next
      case (Some s1)
      then have "pass l v (Some s, k) = (Some s1, k)" using pe by (simp add: prod_eq_iff)
      then show ?thesis using Cons.IH [of s1] Some by simp
    qed
  qed simp
  then show "fst (foldl (\<lambda>sk v. pass l v sk) (Some s, k) visits) = foldl (\<lambda>s v. Option.bind s (effect v)) (Some s) visits"
    and "foldl (\<lambda>s v. Option.bind s (effect v)) (Some s) visits \<noteq> None \<Longrightarrow>
      snd (foldl (\<lambda>sk v. pass l v sk) (Some s, k) visits) = k"
    by simp_all
qed

lemma loop_on_new_listener:
  assumes "allocates fresh" "finite (open_fds k)" "listen_on fresh calls port k = (Inr l, k')"
    and "foldl (\<lambda>sk v. pass l v sk) (Some s, k') visits = (st, k'')"
  shows "st = foldl (\<lambda>s v. Option.bind s (effect v)) (Some s) visits"
    and "st \<noteq> None \<Longrightarrow> k'' = k\<lparr>open_fds := insert (listener_fd l) (open_fds k)\<rparr>"
    and "listener_fd l \<notin> open_fds k"
proof -
  have l: "listener_fd l = fresh (open_fds k) \<and> k' = k\<lparr>open_fds := insert (fresh (open_fds k)) (open_fds k)\<rparr>"
    using listening.made [OF assms(1,2) assms(3) [unfolded listen_on_def]] by simp
  then show "listener_fd l \<notin> open_fds k"
    using allocates_fresh [OF assms(1,2)] by simp
  have "finite (open_fds k')" "listener_fd l \<in> open_fds k'" using l assms(2) by simp_all
  note p = passes [OF assms(1) this, of s visits]
  show st: "st = foldl (\<lambda>s v. Option.bind s (effect v)) (Some s) visits" using p(1) assms(4) by simp
  then show "k'' = k\<lparr>open_fds := insert (listener_fd l) (open_fds k)\<rparr>" if "st \<noteq> None"
    using p(2) that assms(4) l by simp
qed

end

lemma accept_open:
  assumes "listener_fd l \<in> open_fds k" "allocates fresh" "finite (open_fds k)"
  shows "TcpListener_accept fresh ok l k =
    (if ok then (Ok \<lparr>connection_fd = fresh (open_fds k)\<rparr>, k\<lparr>open_fds := insert (fresh (open_fds k)) (open_fds k)\<rparr>)
     else (Unexpected AcceptFailed, k))"
  using assms by (simp add: TcpListener_accept_def factory_defs)

lemma destroy_new:
  assumes "allocates fresh" "finite (open_fds k)"
  shows "TcpConnection_destroy \<lparr>connection_fd = fresh (open_fds k)\<rparr>
    (k\<lparr>open_fds := insert (fresh (open_fds k)) (open_fds k)\<rparr>) = k"
  using allocates_fresh [OF assms] by (simp add: TcpConnection_destroy_def sys_close_def not_less)

section \<open>The emulator\<close>

text \<open>
  One pass: what the other threads do while \<open>accept\<close> waits, whether it succeeds, and the
  connection.  The connection is destroyed at the end of the pass.  The log keeps what was sent to each client.
\<close>

record session =
  ss_waiting :: "emu_action list"
  ss_accepted :: bool
  ss_schedule :: "(emu_action list \<times> send_end) list"
  ss_incoming :: receives

definition emulator_pass ::
    "(int set \<Rightarrow> int) \<Rightarrow> tcp_listener \<Rightarrow> session \<Rightarrow> (emulator \<times> bytes list list) option \<times> kernel \<Rightarrow>
       (emulator \<times> bytes list list) option \<times> kernel" where
  "emulator_pass fresh l v = (\<lambda>(st, k).
     case st of
       None \<Rightarrow> (None, k)
     | Some (em, log) \<Rightarrow>
         let em = foldl emu_step em (ss_waiting v);
             (connection, k) = TcpListener_accept fresh (ss_accepted v) l k
         in case connection of
              Inl _ \<Rightarrow> (Some (em, log), k)
            | Inr c \<Rightarrow>
                (case serve (ss_schedule v) (ss_incoming v) [] em of
                   None \<Rightarrow> (None, k)
                 | Some (em, sent) \<Rightarrow> (Some (em, log @ [sent]), TcpConnection_destroy c k)))"

text \<open>An exit with status 1, the end by \<open>SIGPIPE\<close>, or the endless loop after the passes listed.\<close>

datatype server_run =
    Exited
  | Killed
  | Serving tcp_listener emulator "bytes list list"

definition emulator_main ::
    "(int set \<Rightarrow> int) \<Rightarrow> string list \<Rightarrow> listener_calls \<Rightarrow> nat \<Rightarrow> i64 \<Rightarrow> session list \<Rightarrow> kernel \<Rightarrow>
       (server_run \<times> kernel) option" where
  "emulator_main fresh argv calls early now sessions k =
     (case port_argument argv 1 9000 of
        None \<Rightarrow> None
      | Some port \<Rightarrow>
          (case Emulator_start early now of
             None \<Rightarrow> Some (Exited, k)
           | Some em \<Rightarrow>
               (let (listener, k) = listen_on fresh calls port k
                in case listener of
                     Inl _ \<Rightarrow> Some (Exited, k)
                   | Inr l \<Rightarrow>
                       let (st, k) = foldl (\<lambda>sk v. emulator_pass fresh l v sk) (Some (em, []), k) sessions
                       in case st of
                            None \<Rightarrow> Some (Killed, k)
                          | Some (em, log) \<Rightarrow> Some (Serving l em log, k))))"

section \<open>What a session does\<close>

text \<open>The frames that a stream of receives yields, at most \<open>n\<close>: up to the first one that is not complete.\<close>

fun arriving :: "nat \<Rightarrow> receives \<Rightarrow> bytes \<Rightarrow> frame list" where
  "arriving 0 incoming received = []"
| "arriving (Suc n) incoming received =
     (case receiveOneFrame incoming received of
        None \<Rightarrow> []
      | Some (decoded, received, incoming) \<Rightarrow>
          res_frame decoded # arriving n incoming (drop (bytesConsumed decoded) received))"

text \<open>
  A connection on these frames: whether the server goes on to send to a peer that has closed, the
  steps of all threads in order, and the responses that reach the client.
\<close>

fun peer_gone :: "(emu_action list \<times> send_end) list \<Rightarrow> frame list \<Rightarrow> bool" where
  "peer_gone ((others, sending) # schedule) (fr # frames) =
     (sending = Peer_closed \<or> sending = Sent \<and> peer_gone schedule frames)"
| "peer_gone _ _ = False"

fun connection_actions :: "(emu_action list \<times> send_end) list \<Rightarrow> frame list \<Rightarrow> emu_action list" where
  "connection_actions ((others, sending) # schedule) (fr # frames) =
     others @ Client_request fr # (if sending = Sent then connection_actions schedule frames else [])"
| "connection_actions _ _ = []"

fun replies :: "(emu_action list \<times> send_end) list \<Rightarrow> frame list \<Rightarrow> emulator \<Rightarrow> bytes list" where
  "replies ((others, sending) # schedule) (fr # frames) em =
     (let em = foldl emu_step em others
      in if sending = Sent
         then encode (fst (dispatch fr (em_plant em))) # replies schedule frames (emu_step em (Client_request fr))
         else [])"
| "replies _ _ em = []"

lemma serve_arriving:
  "serve schedule incoming received em = serve_frames schedule (arriving (length schedule) incoming received) em"
proof (induction schedule arbitrary: incoming received em)
  case (Cons step schedule)
  then show ?case by (cases step) (auto simp: split_beta Let_def split: option.split send_end.split)
qed simp

lemma serve_frames_effect:
  "serve_frames schedule frames em =
     (if peer_gone schedule frames then None
      else Some (foldl emu_step em (connection_actions schedule frames), replies schedule frames em))"
  by (induction schedule frames em rule: serve_frames.induct) (auto simp: Let_def split: send_end.split)

definition session_frames :: "session \<Rightarrow> frame list" where
  "session_frames v = arriving (length (ss_schedule v)) (ss_incoming v) []"

definition session_actions :: "session \<Rightarrow> emu_action list" where
  "session_actions v =
     ss_waiting v @ (if ss_accepted v then connection_actions (ss_schedule v) (session_frames v) else [])"

definition client_gone :: "session \<Rightarrow> bool" where
  "client_gone v \<longleftrightarrow> ss_accepted v \<and> peer_gone (ss_schedule v) (session_frames v)"

definition session_log :: "session \<Rightarrow> emulator \<Rightarrow> bytes list list" where
  "session_log v em =
     (if ss_accepted v
      then [replies (ss_schedule v) (session_frames v) (foldl emu_step em (ss_waiting v))] else [])"

text \<open>What the clients that are accepted receive, one after the other.\<close>

fun transcript :: "session list \<Rightarrow> emulator \<Rightarrow> bytes list list" where
  "transcript [] em = []"
| "transcript (v # sessions) em =
     session_log v em @ transcript sessions (foldl emu_step em (session_actions v))"

definition session_effect :: "session \<Rightarrow> emulator \<times> bytes list list \<Rightarrow> (emulator \<times> bytes list list) option" where
  "session_effect v st =
     (if client_gone v then None
      else Some (foldl emu_step (fst st) (session_actions v), snd st @ session_log v (fst st)))"

interpretation emulating: accept_loop "emulator_pass fresh" session_effect fresh for fresh
  by unfold_locales
    (auto simp: emulator_pass_def session_effect_def session_actions_def session_log_def client_gone_def
       accept_open destroy_new split_beta serve_arriving serve_frames_effect session_frames_def Let_def
       split: prod.split)

lemma session_effects:
  "foldl (\<lambda>s v. Option.bind s (session_effect v)) (Some (em, log)) sessions =
     (if list_ex client_gone sessions then None
      else Some (foldl emu_step em (concat (map session_actions sessions)), log @ transcript sessions em))"
  by (induction sessions arbitrary: em log) (simp_all add: session_effect_def emulating.ended_effect)

section \<open>Properties\<close>


text \<open>Three visitors: the first is not accepted, the second enables the robot and has its response, the third
  asks for the status and is gone before the response is sent.\<close>

definition demo_sessions :: "session list" where
  "demo_sessions =
     [\<lparr>ss_waiting = [], ss_accepted = False, ss_schedule = [], ss_incoming = []\<rparr>,
      \<lparr>ss_waiting = [Control_cycle], ss_accepted = True, ss_schedule = [([], Sent)],
       ss_incoming = [Ok (encode (plain_request Enable))]\<rparr>,
      \<lparr>ss_waiting = [], ss_accepted = True, ss_schedule = [([Control_cycle], Peer_closed)],
       ss_incoming = [Ok (encode (plain_request GetStatus))]\<rparr>]"

lemma plain_request_arrives:
  "receiveOneFrame [Ok (encode (plain_request t))] [] =
     Some (\<lparr>res_frame = plain_request t, bytesConsumed = length (encode (plain_request t))\<rparr>,
       encode (plain_request t), [])"
proof -
  have f: "sendable_frame (plain_request t)" by (simp add: sendable_frame_def)
  have "decode [] = Unexpected Incomplete" by (simp add: decode_short headerSize_def)
  then show ?thesis using decode_sendable [OF f, of "[]"] by simp
qed


end
