(* ===== verification/Viewer.thy ===== *)
theory Viewer
  imports Link Websocket Accepting Float_Text
begin

text \<open>
  The program \<open>robot-viewer\<close> (\<open>apps/robot-viewer/main.cpp\<close>): one status document per cycle from the
  emulator to one browser at a time.
\<close>

section \<open>The status document\<close>

definition quote :: string where
  "quote = [CHR 0x22]"

definition json_joint :: "joint_status \<Rightarrow> string" where
  "json_joint joint =
     (let positionDeg = js_positionRadians joint * f64_180 / f64_pi;
          velocityDeg = js_velocityRadiansPerSecond joint * f64_180 / f64_pi
      in ''{'' @ quote @ ''position_deg'' @ quote @ '':'' @ general6 positionDeg @
         '','' @ quote @ ''velocity_deg_s'' @ quote @ '':'' @ general6 velocityDeg @ ''}'')"

definition statusToJson :: "status_payload \<Rightarrow> string" where
  "statusToJson status =
     ''{'' @ quote @ ''state'' @ quote @ '':'' @ quote @ sp_controllerStateName status @ quote @
     '','' @ quote @ ''joints'' @ quote @ '':['' @
     concat (map (\<lambda>i. (if 0 < i then '','' else []) @ json_joint (sp_joints status ! i)) [0..<length (sp_joints status)]) @
     '']}''"

section \<open>The session with one browser\<close>

text \<open>
  The inner loop, one list of \<open>::send\<close> calls per cycle: the bytes sent to the browser and the
  client.  \<open>exec\<close> is the client's \<open>execute\<close>, \<open>None\<close> where it does not return.  \<open>None\<close>: \<open>SIGPIPE\<close>
  has ended the program, or a list of calls is too short.
\<close>

fun viewer_session ::
    "(command \<Rightarrow> 'c \<Rightarrow> ((cli_error, outcome) expected \<times> 'c) option) \<Rightarrow> 'c \<Rightarrow> send_call list list \<Rightarrow>
       (bytes \<times> 'c) option" where
  "viewer_session exec client [] = Some ([], client)"
| "viewer_session exec client (results # cycles) =
     (case exec (plain_command Kind_Status) client of
        None \<Rightarrow> None
      | Some (Inl _, client) \<Rightarrow> Some ([], client)
      | Some (Inr outcome, client) \<Rightarrow>
          (case out_statusPayload outcome of
             None \<Rightarrow> Some ([], client)
           | Some status \<Rightarrow>
               (case sendText (map byte_of_char (statusToJson status)) results of
                  None \<Rightarrow> None
                | Some (Inl _, wire) \<Rightarrow> Some (wire, client)
                | Some (Inr _, wire) \<Rightarrow>
                    map_option (\<lambda>(wires, client). (wire @ wires, client)) (viewer_session exec client cycles))))"

section \<open>The program\<close>

text \<open>
  One pass of the outer loop: whether \<open>accept\<close> succeeds, what the handshake receives and what its
  sends do, the results of connecting to the emulator, the client then connected, and the
  cycles of the session.
\<close>

record 'c visit =
  vs_accepted :: bool
  vs_incoming :: receives
  vs_results :: "send_call list"
  vs_socket :: bool
  vs_inet_pton :: int
  vs_connect :: int
  vs_client :: 'c
  vs_cycles :: "send_call list list"

text \<open>
  The log has, for each browser accepted, the bytes it gets and the lines on the console; it is
  \<open>None\<close> once the program has ended.  The connection to the browser and the client are
  destroyed at the end of the pass in which they were created.
\<close>

type_synonym viewer_log = "(bytes \<times> string) list"

definition viewer_pass ::
    "(int set \<Rightarrow> int) \<Rightarrow> (command \<Rightarrow> 'c \<Rightarrow> ((cli_error, outcome) expected \<times> 'c) option) \<Rightarrow> u16 \<Rightarrow>
       tcp_listener \<Rightarrow> 'c visit \<Rightarrow> viewer_log option \<times> kernel \<Rightarrow> viewer_log option \<times> kernel" where
  "viewer_pass fresh exec emulatorPort l v = (\<lambda>(st, k).
     case st of
       None \<Rightarrow> (None, k)
     | Some log \<Rightarrow>
         (let (raw, k) = TcpListener_accept fresh (vs_accepted v) l k
          in case raw of
               Inl _ \<Rightarrow> (Some log, k)
             | Inr raw \<Rightarrow>
                 (case WebSocketConnection_accept (vs_incoming v) (vs_results v) of
                    None \<Rightarrow> (None, k)
                  | Some (Inl _, wire) \<Rightarrow>
                      (Some (log @ [(wire, ''robot-viewer: WebSocket handshake failed'' @ newline)]),
                       TcpConnection_destroy raw k)
                  | Some (Inr _, wire) \<Rightarrow>
                      (let (client, k) = Client_connect fresh (vs_socket v) (vs_inet_pton v) (vs_connect v) k
                       in case client of
                            Inl _ \<Rightarrow>
                              (Some (log @ [(wire, ''robot-viewer: browser connected'' @ newline @
                                 ''robot-viewer: failed to connect to robot-emulator at 127.0.0.1:'' @
                                 string_of_nat (unat emulatorPort) @ newline)]),
                               TcpConnection_destroy raw k)
                          | Inr client \<Rightarrow>
                              (case viewer_session exec (vs_client v) (vs_cycles v) of
                                 None \<Rightarrow> (None, k)
                               | Some (wires, _) \<Rightarrow>
                                   (Some (log @ [(wire @ wires, ''robot-viewer: browser connected'' @ newline @
                                      ''robot-viewer: session ended'' @ newline)]),
                                    TcpConnection_destroy raw (TcpConnection_destroy client k)))))))"

text \<open>
  The exit with status 1, or the passes listed: the log of the endless loop, \<open>None\<close> if the program
  has been ended, with the ports in use.
\<close>

datatype viewer_run =
    Viewer_exited u16
  | Viewing u16 tcp_listener "viewer_log option"

definition viewer_main ::
    "(int set \<Rightarrow> int) \<Rightarrow> string list \<Rightarrow> listener_calls \<Rightarrow>
       (u16 \<Rightarrow> command \<Rightarrow> 'c \<Rightarrow> ((cli_error, outcome) expected \<times> 'c) option) \<Rightarrow> 'c visit list \<Rightarrow> kernel \<Rightarrow>
       (viewer_run \<times> kernel) option" where
  "viewer_main fresh argv calls exec visits k =
     (case (port_argument argv 1 9000, port_argument argv 2 9001) of
        (Some emulatorPort, Some viewerPort) \<Rightarrow>
          let (listener, k) = listen_on fresh calls viewerPort k
          in (case listener of
                Inl _ \<Rightarrow> Some (Viewer_exited viewerPort, k)
              | Inr l \<Rightarrow>
                  let (log, k) = foldl (\<lambda>sk v. viewer_pass fresh (exec emulatorPort) emulatorPort l v sk) (Some [], k) visits
                  in Some (Viewing (TcpListener_port l) l log, k))
      | _ \<Rightarrow> None)"

text \<open>What a pass does when its sockets are left out.\<close>

definition connects :: "'c visit \<Rightarrow> bool" where
  "connects v \<longleftrightarrow> vs_socket v \<and> vs_inet_pton v = 1 \<and> 0 \<le> vs_connect v"

definition visit_effect ::
    "(command \<Rightarrow> 'c \<Rightarrow> ((cli_error, outcome) expected \<times> 'c) option) \<Rightarrow> u16 \<Rightarrow> 'c visit \<Rightarrow>
       viewer_log \<Rightarrow> viewer_log option" where
  "visit_effect exec emulatorPort v log =
     (if \<not> vs_accepted v then Some log
      else case WebSocketConnection_accept (vs_incoming v) (vs_results v) of
        None \<Rightarrow> None
      | Some (Inl _, wire) \<Rightarrow> Some (log @ [(wire, ''robot-viewer: WebSocket handshake failed'' @ newline)])
      | Some (Inr _, wire) \<Rightarrow>
          if connects v then
            map_option (\<lambda>(wires, _). log @ [(wire @ wires, ''robot-viewer: browser connected'' @ newline @
                ''robot-viewer: session ended'' @ newline)])
              (viewer_session exec (vs_client v) (vs_cycles v))
          else Some (log @ [(wire, ''robot-viewer: browser connected'' @ newline @
            ''robot-viewer: failed to connect to robot-emulator at 127.0.0.1:'' @
            string_of_nat (unat emulatorPort) @ newline)]))"

lemma connect_open:
  assumes "allocates fresh" "finite (open_fds k)"
  shows "Client_connect fresh (vs_socket v) (vs_inet_pton v) (vs_connect v) k =
    (if connects v
     then (Ok \<lparr>connection_fd = fresh (open_fds k)\<rparr>, k\<lparr>open_fds := insert (fresh (open_fds k)) (open_fds k)\<rparr>)
     else (Unexpected cli_error.TransportFailure, k))"
  using allocates_fresh [OF assms]
  by (auto simp: Client_connect_def connectTo_def sys_new_fd_def sys_close_def connects_def Let_def not_less
      split: if_splits)

interpretation viewing: accept_loop "viewer_pass fresh exec emulatorPort" "visit_effect exec emulatorPort" fresh
  for fresh exec emulatorPort
proof
  fix k :: kernel and l :: tcp_listener and v and s :: viewer_log
  let ?k = "k\<lparr>open_fds := insert (fresh (open_fds k)) (open_fds k)\<rparr>"
  show "viewer_pass fresh exec emulatorPort l v (None, k) = (None, k)" by (simp add: viewer_pass_def)
  assume a: "allocates fresh" "finite (open_fds k)" "listener_fd l \<in> open_fds k"
  have k: "finite (open_fds ?k)" using a(2) by simp
  show "fst (viewer_pass fresh exec emulatorPort l v (Some s, k)) = visit_effect exec emulatorPort v s \<and>
      (visit_effect exec emulatorPort v s \<noteq> None \<longrightarrow> snd (viewer_pass fresh exec emulatorPort l v (Some s, k)) = k)"
    unfolding viewer_pass_def visit_effect_def
    by (simp add: accept_open [OF a(3,1,2)] connect_open [OF a(1) k] destroy_new [OF a(1,2)] destroy_new [OF a(1) k, simplified] Let_def
        split: option.split sum.split prod.split)
qed

text \<open>While it runs, however its visits end, the viewer has one descriptor open between them, its listener's.\<close>

theorem viewer_outlives_its_browsers:
  assumes "allocates fresh" "finite (open_fds k)"
    and "viewer_main fresh argv calls exec visits k = Some (Viewing port l (Some log), k')"
  shows "k' = k\<lparr>open_fds := insert (listener_fd l) (open_fds k)\<rparr> \<and> listener_fd l \<notin> open_fds k \<and>
    (\<exists>emulatorPort. foldl (\<lambda>s v. Option.bind s (visit_effect (exec emulatorPort) emulatorPort v)) (Some []) visits = Some log)"
proof -
  obtain emulatorPort viewerPort k1 where made: "listen_on fresh calls viewerPort k = (Inr l, k1)"
    and run: "foldl (\<lambda>sk v. viewer_pass fresh (exec emulatorPort) emulatorPort l v sk) (Some [], k1) visits = (Some log, k')"
    using assms(3) by (auto simp: viewer_main_def split_beta Let_def prod_eq_iff split: option.splits sum.splits)
  note loop = viewing.loop_on_new_listener [OF assms(1,2) made run]
  from loop(1,2,3) show ?thesis by (metis option.distinct(1))
qed

section \<open>Numbers of RFC 8259\<close>

definition all_digits :: "string \<Rightarrow> bool" where
  "all_digits s \<longleftrightarrow> s \<noteq> [] \<and> list_all is_digit s"

definition json_int :: "string \<Rightarrow> bool" where
  "json_int s \<longleftrightarrow> s = ''0'' \<or> all_digits s \<and> hd s \<noteq> CHR ''0''"

definition json_fraction :: "string \<Rightarrow> bool" where
  "json_fraction s \<longleftrightarrow> s = [] \<or> hd s = CHR ''.'' \<and> all_digits (tl s)"

definition json_exponent :: "string \<Rightarrow> bool" where
  "json_exponent s \<longleftrightarrow>
     s = [] \<or> hd s = CHR ''e'' \<and> tl s \<noteq> [] \<and>
       (all_digits (tl s) \<or> hd (tl s) \<in> {CHR ''+'', CHR ''-''} \<and> all_digits (tl (tl s)))"

definition json_number :: "string \<Rightarrow> bool" where
  "json_number s \<longleftrightarrow>
     (\<exists>sign ip fp ep. s = sign @ ip @ fp @ ep \<and> sign \<in> {[], ''-''} \<and>
        json_int ip \<and> json_fraction fp \<and> json_exponent ep)"

section \<open>Lemmas on printed numbers\<close>

lemma string_of_nat_shape:
  "0 < n \<Longrightarrow> 10 ^ (length (string_of_nat n) - 1) \<le> n \<and> n < 10 ^ length (string_of_nat n) \<and>
     hd (string_of_nat n) \<noteq> CHR ''0''"
proof (induction n rule: string_of_nat.induct)
  case (1 n)
  let ?P = "\<lambda>n. 10 ^ (length (string_of_nat n) - 1) \<le> n \<and> n < 10 ^ length (string_of_nat n) \<and>
    hd (string_of_nat n) \<noteq> CHR ''0''"
  show "?P n"
  proof (cases "n < 10")
    case True
    have "char_of (48 + n) \<noteq> CHR ''0''"
    proof
      assume "char_of (48 + n) = CHR ''0''"
      then have "of_char (char_of (48 + n) :: char) = (of_char CHR ''0'' :: nat)" by (rule arg_cong)
      then show False using True 1(2) by simp
    qed
    then show ?thesis using True 1(2) by (simp add: string_of_nat.simps [of n])
  next
    case False
    then have ih: "?P (n div 10)" using 1(1) by simp
    have ne: "string_of_nat (n div 10) \<noteq> []" using string_of_nat_facts by blast
    have e: "string_of_nat n = string_of_nat (n div 10) @ [char_of (48 + n mod 10)]"
      using False by (simp add: string_of_nat.simps [of n])
    obtain k where k: "length (string_of_nat (n div 10)) = Suc k" using ne by (cases "string_of_nat (n div 10)") simp_all
    define p where "p = (10::nat) ^ k"
    have "p \<le> n div 10" "n div 10 < 10 * p" using ih k by (simp_all add: p_def)
    moreover have "10 * (n div 10) \<le> n" "n < 10 * (n div 10) + 10" by simp_all
    ultimately have "10 * p \<le> n" "n < 100 * p" by linarith+
    then show ?thesis using ih ne k by (simp add: e p_def)
  qed
qed

lemmas string_of_nat_bounds = string_of_nat_shape [THEN conjunct1]
  string_of_nat_shape [THEN conjunct2, THEN conjunct1] string_of_nat_shape [THEN conjunct2, THEN conjunct2]

lemma all_digits_string: "all_digits (string_of_nat n)"
  using string_of_nat_facts by (simp add: all_digits_def)

text \<open>The first of the six digits is not zero.\<close>

lemma decimal_exponent_large:
  assumes "unit_scale \<le> s"
  obtains k where "decimal_exponent s = int k" "10 ^ k * unit_scale \<le> s"
proof -
  let ?q = "s div unit_scale"
  have q: "0 < ?q" using assms by (simp add: div_greater_zero_iff)
  define k where "k = length (string_of_nat ?q) - 1"
  have "decimal_exponent s = int k"
    using assms all_digits_string [of ?q]
    by (cases "string_of_nat ?q") (simp_all add: decimal_exponent_def k_def all_digits_def)
  moreover have "10 ^ k \<le> ?q" unfolding k_def by (rule string_of_nat_bounds(1) [OF q])
  then have "10 ^ k * unit_scale \<le> s" by (simp add: less_eq_div_iff_mult_less_eq)
  ultimately show ?thesis by (rule that)
qed

lemma decimal_exponent_small:
  assumes "0 < s" "s < unit_scale"
  obtains k where "decimal_exponent s = - int k" "unit_scale \<le> s * 10 ^ k"
proof -
  define k where "k = length (string_of_nat ((unit_scale - 1) div s))"
  have "decimal_exponent s = - int k" using assms(2) by (simp add: decimal_exponent_def k_def)
  moreover have "(unit_scale - 1) div s < 10 ^ k"
    unfolding k_def using string_of_nat_bounds(2) [of "(unit_scale - 1) div s"]
    by (cases "(unit_scale - 1) div s = 0") simp_all
  then have "unit_scale - 1 < 10 ^ k * s" using assms(1) by (simp add: div_less_iff_less_mult)
  then have "unit_scale \<le> s * 10 ^ k" by (simp add: ac_simps)
  ultimately show ?thesis by (rule that)
qed

lemma significant6_pos:
  assumes "0 < s"
  shows "0 < fst (significant6 s)"
proof -
  define e where "e = decimal_exponent s"
  define n where "n = (if e \<le> 5 then rne (s * 10 ^ nat (5 - e)) unit_scale else rne s (unit_scale * 10 ^ nat (e - 5)))"
  have "10 ^ 5 \<le> n"
  proof (cases "unit_scale \<le> s")
    case True
    then obtain k where e: "e = int k" and k: "10 ^ k * unit_scale \<le> s"
      unfolding e_def by (rule decimal_exponent_large)
    show ?thesis
    proof (cases "k \<le> 5")
      case True
      have "10 ^ 5 * unit_scale = 10 ^ k * unit_scale * 10 ^ (5 - k)"
        using True by (simp add: ac_simps flip: power_add)
      also have "\<dots> \<le> s * 10 ^ (5 - k)" using k by (rule mult_le_mono1)
      finally have "rne (10 ^ 5 * unit_scale) unit_scale \<le> rne (s * 10 ^ (5 - k)) unit_scale"
        by (intro rne_mono) simp_all
      then show ?thesis using True by (simp add: n_def e nat_diff_distrib)
    next
      case False
      let ?u = "unit_scale * 10 ^ (k - 5)"
      have "(10::nat) ^ 5 * 10 ^ (k - 5) = 10 ^ k" using False by (simp only: flip: power_add) simp
      then have "10 ^ 5 * ?u = 10 ^ k * unit_scale" by (simp only: ac_simps)
      then have "10 ^ 5 * ?u * ?u \<le> s * ?u" using k by (intro mult_le_mono1) (simp only:)
      then have "rne (10 ^ 5 * ?u) ?u \<le> rne s ?u" by (intro rne_mono) simp_all
      then show ?thesis using False by (simp add: n_def e nat_diff_distrib)
    qed
  next
    case False
    then have "s < unit_scale" by simp
    then obtain k where e: "e = - int k" and k: "unit_scale \<le> s * 10 ^ k"
      unfolding e_def by (rule decimal_exponent_small [OF assms])
    have "10 ^ 5 * unit_scale \<le> 10 ^ 5 * (s * 10 ^ k)" using k by (rule mult_le_mono2)
    also have "\<dots> = s * 10 ^ (5 + k)" by (simp add: power_add)
    finally have "rne (10 ^ 5 * unit_scale) unit_scale \<le> rne (s * 10 ^ (5 + k)) unit_scale"
      by (intro rne_mono) simp_all
    then show ?thesis by (simp add: n_def e nat_add_distrib)
  qed
  then show ?thesis by (auto simp: significant6_def Let_def e_def [symmetric] n_def [symmetric])
qed

lemma json_int_digits:
  assumes "all_digits ds" "hd ds \<noteq> CHR ''0''" "0 < k"
  shows "json_int (take k ds)" "list_all is_digit (drop k ds)"
  using assms by (cases ds; cases k; auto simp: json_int_def all_digits_def list_all_iff dest: in_set_takeD in_set_dropD)+

lemma with_fraction_json:
  assumes "list_all is_digit fp"
  shows "\<exists>fr. with_fraction ip fp = ip @ fr \<and> json_fraction fr"
proof -
  let ?fp = "rev (dropWhile (\<lambda>c. c = CHR ''0'') (rev fp))"
  have "list_all is_digit ?fp"
    using assms by (auto simp: list_all_iff dest: set_dropWhileD)
  then show ?thesis
    by (cases "?fp = []") (auto simp: with_fraction_def Let_def json_fraction_def all_digits_def)
qed

lemma json_number_head:
  assumes "json_number s"
  shows "is_digit (hd (if s \<noteq> [] \<and> hd s = CHR ''-'' then tl s else s))"
proof -
  obtain sign ip fp ep where s: "s = sign @ ip @ fp @ ep" "sign \<in> {[], ''-''}" "json_int ip"
    using assms by (auto simp: json_number_def)
  have "ip \<noteq> [] \<and> is_digit (hd ip)"
    using s(3) by (cases ip) (auto simp: json_int_def all_digits_def is_digit_def)
  moreover have "\<not> is_digit CHR ''-''" by (simp add: is_digit_def)
  ultimately show ?thesis using s(1,2) by (cases ip) auto
qed

lemma ex3I: "P a b c \<Longrightarrow> \<exists>x y z. P x y z"
  by blast

lemma layout_json:
  assumes "all_digits ds" "hd ds \<noteq> CHR ''0''"
  shows "\<exists>ip fp ep. layout ds e = ip @ fp @ ep \<and> json_int ip \<and> json_fraction fp \<and> json_exponent ep"
proof -
  have frac: "\<exists>fr. with_fraction (take k ds) (drop k ds) = take k ds @ fr \<and> json_fraction fr" for k
    using assms(1) by (intro with_fraction_json) (auto simp: all_digits_def list_all_iff dest: in_set_dropD)
  consider (fixed) "0 \<le> e \<and> e < 6" | (small) "- 4 \<le> e \<and> e < 0" | (sci) "\<not> (0 \<le> e \<and> e < 6)" "\<not> (- 4 \<le> e \<and> e < 0)"
    by blast
  then show ?thesis
  proof cases
    case fixed
    obtain fr where "with_fraction (take (nat e + 1) ds) (drop (nat e + 1) ds) = take (nat e + 1) ds @ fr"
      "json_fraction fr" using frac by blast
    then show ?thesis
      using json_int_digits(1) [OF assms, of "nat e + 1"] fixed
      by (intro ex3I [where a = "take (nat e + 1) ds" and b = fr and c = "[]"])
        (simp_all add: layout_def json_exponent_def)
  next
    case small
    have "list_all is_digit (replicate (nat (- e) - 1) CHR ''0'' @ ds)"
      using assms(1) by (auto simp: all_digits_def list_all_iff is_digit_def)
    from with_fraction_json [OF this, of "''0''"] obtain fr
      where "with_fraction ''0'' (replicate (nat (- e) - 1) CHR ''0'' @ ds) = ''0'' @ fr" "json_fraction fr"
      by blast
    then show ?thesis
      using small by (intro ex3I [where a = "''0''" and b = fr and c = "[]"])
        (simp add: layout_def json_exponent_def json_int_def)
  next
    case sci
    obtain fr where "with_fraction (take 1 ds) (drop 1 ds) = take 1 ds @ fr" "json_fraction fr" using frac by blast
    moreover have "all_digits (two_digits (nat \<bar>e\<bar>))"
      using all_digits_string [of "nat \<bar>e\<bar>"] by (simp add: two_digits_def all_digits_def is_digit_def)
    ultimately show ?thesis
      using json_int_digits(1) [OF assms, of 1] sci
      by (intro ex3I [where a = "take 1 ds" and b = fr and c = "''e'' @ (if e < 0 then ''-'' else ''+'') @ two_digits (nat \<bar>e\<bar>)"])
        (auto simp: layout_def json_exponent_def)
  qed
qed

text \<open>The text of a double is a number of JSON exactly if the double is finite.\<close>

lemma json_number_general6: "json_number (general6 x) \<longleftrightarrow> is_finite x"
proof (cases "is_finite x")
  case False
  have "\<not> is_digit CHR ''n''" "\<not> is_digit CHR ''i''" by (simp_all add: is_digit_def)
  moreover have "is_nan x \<or> is_inf x" using False finite_or_inf [of x] by blast
  ultimately have "\<not> json_number (general6 x)"
    using json_number_head [of "general6 x"] by (auto simp: general6_def split: if_splits)
  then show ?thesis using False by simp
next
  case True
  have "\<exists>ip fp ep. general6 x = (if f64_neg x then ''-'' else []) @ ip @ fp @ ep \<and>
      json_int ip \<and> json_fraction fp \<and> json_exponent ep"
  proof (cases "f64_mag x = 0")
    case zero: True
    then show ?thesis using True
      by (intro ex3I [where a = "''0''" and b = "[]" and c = "[]"])
        (simp add: general6_def json_int_def json_fraction_def json_exponent_def)
  next
    case False
    obtain n e where ne: "significant6 (scm (f64_mag x)) = (n, e)" by fastforce
    have "0 < scm (f64_mag x)" using False True scm_zero_iff [of "f64_mag x"] by (simp add: is_finite_def)
    then have "0 < n" using significant6_pos [of "scm (f64_mag x)"] ne by simp
    note layout_json [OF all_digits_string string_of_nat_bounds(3) [OF this], of e]
    moreover have "general6 x = (if f64_neg x then ''-'' else []) @ layout (string_of_nat n) e"
      using True False ne by (simp add: general6_def)
    ultimately show ?thesis by auto
  qed
  moreover have "(if f64_neg x then ''-'' else []) \<in> {[], ''-''}" by simp
  ultimately have "json_number (general6 x)" unfolding json_number_def by blast
  then show ?thesis using True by simp
qed

section \<open>Lemmas on the document\<close>

text \<open>The shape of a status document: a state name and the numbers of each joint.\<close>

definition document_joint :: "string \<times> string \<Rightarrow> string" where
  "document_joint = (\<lambda>(p, v). ''{'' @ quote @ ''position_deg'' @ quote @ '':'' @ p @
     '','' @ quote @ ''velocity_deg_s'' @ quote @ '':'' @ v @ ''}'')"

fun comma_separated :: "string list \<Rightarrow> string" where
  "comma_separated [] = []"
| "comma_separated [x] = x"
| "comma_separated (x # y # xs) = x @ '','' @ comma_separated (y # xs)"

definition document :: "string \<Rightarrow> (string \<times> string) list \<Rightarrow> string" where
  "document state nums =
     ''{'' @ quote @ ''state'' @ quote @ '':'' @ quote @ state @ quote @
     '','' @ quote @ ''joints'' @ quote @ '':['' @ comma_separated (map document_joint nums) @ '']}''"

text \<open>A string that JSON needs no escapes for.\<close>

definition plain_text :: "string \<Rightarrow> bool" where
  "plain_text s \<longleftrightarrow> list_all (\<lambda>c. 32 \<le> (of_char c :: nat) \<and> (of_char c :: nat) < 127 \<and> c \<noteq> CHR 0x22 \<and> c \<noteq> CHR 0x5C) s"

definition json_document :: "string \<Rightarrow> bool" where
  "json_document s \<longleftrightarrow>
     (\<exists>state nums. s = document state nums \<and> plain_text state \<and>
        list_all (\<lambda>(p, v). json_number p \<and> json_number v) nums)"

definition joint_numbers :: "joint_status \<Rightarrow> string \<times> string" where
  "joint_numbers joint =
     (general6 (js_positionRadians joint * f64_180 / f64_pi),
      general6 (js_velocityRadiansPerSecond joint * f64_180 / f64_pi))"

lemma comma_separated_snoc:
  "comma_separated (xs @ [x]) = comma_separated xs @ (if xs = [] then [] else '','') @ x"
  by (induction xs rule: comma_separated.induct) simp_all

lemma comma_loop:
  "n \<le> length xs \<Longrightarrow>
     concat (map (\<lambda>i. (if 0 < i then '','' else []) @ f (xs ! i)) [0..<n]) = comma_separated (map f (take n xs))"
  by (induction n) (auto simp: take_Suc_conv_app_nth comma_separated_snoc)

lemma statusToJson_document:
  "statusToJson st = document (sp_controllerStateName st) (map joint_numbers (sp_joints st))"
proof -
  have "json_joint = document_joint \<circ> joint_numbers"
    by (rule ext) (simp add: json_joint_def document_joint_def joint_numbers_def Let_def)
  then show ?thesis
    using comma_loop [of "length (sp_joints st)" "sp_joints st" json_joint]
    by (simp add: statusToJson_def document_def)
qed

lemma state_toString_plain: "plain_text (state_toString c)"
  by (cases c) (simp_all add: plain_text_def)

lemma degrees_finite:
  assumes "- f64_pi \<le> x" "x \<le> f64_pi"
  shows "is_finite (x * f64_180 / f64_pi)"
proof -
  have "is_finite (- f64_180)" "is_finite f64_180" by (simp_all add: f64_literals)
  then show ?thesis using in_degrees_range [OF assms] by (rule finite_between [rotated 2])
qed

lemma status_json:
  assumes "list_all (\<lambda>j. joint_ok j \<and> limits j = defaultLimits) (joints (pl_robot pl))"
  shows "json_document (statusToJson (status_of pl))"
proof -
  have "is_finite (position (jstate j) * f64_180 / f64_pi) \<and> is_finite (velocity (jstate j) * f64_180 / f64_pi)"
    if "j \<in> set (joints (pl_robot pl))" for j
  proof -
    have j: "joint_ok j" "limits j = defaultLimits" using assms that by (simp_all add: list_all_iff)
    have "- f64_pi \<le> position (jstate j)" "position (jstate j) \<le> f64_pi"
      "- f64_two \<le> velocity (jstate j)" "velocity (jstate j) \<le> f64_two"
      using joint_okD [OF j(1)] by (simp_all add: j(2) defaultLimits_exact)
    moreover have "f64_two \<le> f64_pi" "- f64_pi \<le> - f64_two" by (simp_all add: f64_literals)
    ultimately show ?thesis using degrees_finite f64_le_trans by blast
  qed
  then have "list_all (\<lambda>(p, v). json_number p \<and> json_number v) (map joint_numbers (sp_joints (status_of pl)))"
    by (simp add: list_all_iff status_of_def joint_numbers_def json_number_general6)
  moreover have "plain_text (sp_controllerStateName (status_of pl))"
    by (simp add: status_of_def state_toString_plain)
  ultimately show ?thesis unfolding json_document_def statusToJson_document by blast
qed

section \<open>Lemmas on the session\<close>

text \<open>The statuses that the next commands over a link show.\<close>

fun statuses :: "nat \<Rightarrow> link \<Rightarrow> status_payload list" where
  "statuses 0 l = []"
| "statuses (Suc n) l =
     status_of (em_plant (before_next l)) # statuses n (before_next l, tl (snd l))"

text \<open>The calls of \<open>::send\<close> in a cycle suffice for its document, and each takes at least one byte.\<close>

definition sends_all :: "send_call list \<Rightarrow> status_payload \<Rightarrow> bool" where
  "sends_all results st =
     (let msg = map byte_of_char (statusToJson st)
      in takes_at_most (length (text_frame msg)) results \<and>
         list_all takes_some results \<and> length (text_frame msg) \<le> length results)"

lemma sendText_all:
  assumes "sends_all results st"
  shows "sendText (map byte_of_char (statusToJson st)) results =
    Some (Ok (), ws_frame 0x81 None (map byte_of_char (statusToJson st)))"
proof -
  let ?frame = "text_frame (map byte_of_char (statusToJson st))"
  have a: "takes_at_most (length ?frame) results" "list_all takes_some results" "length ?frame \<le> length results"
    using assms by (simp_all add: sends_all_def Let_def)
  obtain out where out: "TcpConnection_send ?frame results = Some (Ok (), out)"
    using send_loop_finishes [OF a(2), of ?frame 0 "[]"] a(3) by (auto simp: TcpConnection_send_def)
  then have "out = ?frame" using send_exact a(1) by blast
  then show ?thesis using out by (simp add: sendText_def text_frame_ws_frame)
qed

lemma status_request:
  assumes "quiet l" "length (link_joints l) < 65535"
  shows "link_exec (plain_command Kind_Status) l =
    (Ok \<lparr>out_status = 0, out_statusPayload = Some (status_of (em_plant (before_next l)))\<rparr>,
     (before_next l, tl (snd l)))"
proof -
  have "snd (dispatch (buildRequestFrame (plain_command Kind_Status)) pl) = pl" for pl
    by (simp add: buildRequestFrame_def plain_command_def dispatch_def handleGetStatus_def)
  then show ?thesis
    by (simp add: link_exec_outcome [OF assms] command_outcome_def plain_command_def)
qed

lemma next_link:
  assumes "quiet l"
  shows "quiet (before_next l, tl (snd l))" "length (link_joints (before_next l, tl (snd l))) = length (link_joints l)"
proof -
  show "quiet (before_next l, tl (snd l))" using assms by (cases "snd l") (simp_all add: quiet_def)
  have "length (map settings (link_joints (before_next l, tl (snd l)))) = length (map settings (link_joints l))"
    using before_next_settings [OF assms] by (simp only: fst_conv)
  then show "length (link_joints (before_next l, tl (snd l))) = length (link_joints l)" by (simp only: length_map)
qed

lemma viewer_session_statuses:
  assumes "quiet l" "length (link_joints l) < 65535" "list_all2 sends_all cycles (statuses (length cycles) l)"
  shows "\<exists>l'. viewer_session (\<lambda>command l. Some (link_exec command l)) l cycles =
    Some (concat (map (\<lambda>st. ws_frame 0x81 None (map byte_of_char (statusToJson st))) (statuses (length cycles) l)), l')"
  using assms
proof (induction cycles arbitrary: l)
  case (Cons results cycles)
  let ?l = "(before_next l, tl (snd l))"
  have "\<exists>l'. viewer_session (\<lambda>command l. Some (link_exec command l)) ?l cycles =
      Some (concat (map (\<lambda>st. ws_frame 0x81 None (map byte_of_char (statusToJson st))) (statuses (length cycles) ?l)), l')"
    using Cons.prems next_link [OF Cons.prems(1)] by (intro Cons.IH) simp_all
  then show ?case
    using Cons.prems(3) by (auto simp: status_request [OF Cons.prems(1,2)] sendText_all)
qed simp

section \<open>Properties\<close>

text \<open>C35. The viewer relays the emulator: while the other threads of the emulator run, each cycle of a session
  puts exactly one text frame of RFC 6455 on the browser's wire, and its payload is the document of
  the emulator's state at that time; nothing is lost, repeated or reordered.\<close>

theorem viewer_relays_every_status:
  assumes "quiet l" "length (link_joints l) < 65535" "list_all2 sends_all cycles (statuses (length cycles) l)"
  shows "\<exists>l'. viewer_session (\<lambda>command l. Some (link_exec command l)) l cycles =
    Some (concat (map (\<lambda>st. ws_frame 0x81 None (map byte_of_char (statusToJson st))) (statuses (length cycles) l)), l')"
  by (rule viewer_session_statuses [OF assms])

lemma takes_at_most_ones: "takes_at_most n (replicate m (Returned 1))"
  by (induction m arbitrary: n) auto

theorem viewer_relays_every_status_witness:
  "let st = status_of (em_plant (before_next demo_link)); msg = map byte_of_char (statusToJson st)
   in \<exists>l'. viewer_session (\<lambda>command l. Some (link_exec command l)) demo_link [replicate (length (text_frame msg)) (Returned 1)] =
        Some (ws_frame 0x81 None msg, l')"
  using viewer_relays_every_status [of demo_link
      "[replicate (length (text_frame (map byte_of_char (statusToJson (status_of (em_plant (before_next demo_link))))))) (Returned 1)]"]
  by (simp add: demo_link_fields sends_all_def takes_at_most_ones list_all_iff Let_def)

text \<open>C36. From start-up, with threads and clients interleaved in any order and as long as no move carries a
  NaN, every status document the viewer writes is JSON: the shape the page reads, a state name
  that needs no escapes, and only numbers of RFC 8259.\<close>

theorem viewer_documents_are_json:
  assumes "list_all number_request actions" "Emulator_start early now = Some em0"
  shows "json_document (statusToJson (status_of (em_plant (foldl emu_step em0 actions))))"
proof -
  have ok: "emulator_ok (foldl emu_step em0 actions)"
    using emu_machine.run_inv [OF emulator_ok_started [of early now] assms(1)] assms(2)
    by (simp add: Emulator_start_eq)
  have "limits j = defaultLimits" if "j \<in> set (joints (pl_robot (em_plant (foldl emu_step em0 actions))))" for j
    using ok that unfolding emulator_ok_def by (metis in_set_replicate list.set_map image_eqI)
  then show ?thesis
    using ok by (intro status_json) (simp add: emulator_ok_def robot_ok_def list_all_iff)
qed

theorem viewer_documents_are_json_witness:
  "json_document (statusToJson (status_of (em_plant
     (foldl emu_step (started 0 0) [Client_request (plain_request Enable), Control_cycle]))))"
  by (rule viewer_documents_are_json [OF _ Emulator_start_eq])
    (simp add: decodeMoveJointPayload_def kEncodedSize_def)

end
