(* ===== verification/Float64_Real.thy ===== *)
theory Float64_Real
  imports Complex_Main Float64_Conv
begin

text \<open>
  Doubles as real numbers: the value of a double, and the error of one rounded operation whose
  exact result is at most \<open>K\<close>, uniformly \<open>K * 2 ^ -52\<close>.  Control laws and motion profiles are
  analysed over the reals with these bounds.
\<close>

definition rv :: "f64 \<Rightarrow> real" where
  "rv x = real_of_int (fsc x) / real unit_scale"

definition unit_error :: real where
  "unit_error = 1 / 2 ^ 48"

named_theorems rv_simps \<open>values of doubles\<close>

lemma rv_uminus [rv_simps, simp]: "rv (- x) = - rv x"
  by (simp add: rv_def)

lemma rv_le: "is_finite x \<Longrightarrow> is_finite y \<Longrightarrow> x \<le> y \<longleftrightarrow> rv x \<le> rv y"
  using fsc_le_iff [of x y] by (simp add: f64_le_finite_key rv_def divide_right_mono divide_le_cancel)

lemma rv_less: "is_finite x \<Longrightarrow> is_finite y \<Longrightarrow> x < y \<longleftrightarrow> rv x < rv y"
  using rv_le [of y x] by (auto simp: f64_order)

lemma rv_zero [rv_simps, simp]: "rv 0 = 0"
  by (simp add: rv_def fsc_def)

lemma rv_of_int [rv_simps]: "\<bar>i\<bar> < 2 ^ 53 \<Longrightarrow> rv (f64_of_int i) = of_int i"
  using f64_of_int_exact(1) [of i] by (simp add: rv_def)

lemma scm_real: "real (scm (f64_mag x)) = \<bar>rv x\<bar> * real unit_scale"
  by (simp add: rv_def fsc_def)

lemma unit_scale_large: "(2::real) ^ 60 \<le> real unit_scale"
proof -
  have "(2::nat) ^ 60 \<le> unit_scale" unfolding unit_scale_def by (intro power_increasing) simp_all
  then have "real (2 ^ 60) \<le> real unit_scale" by (simp only: of_nat_le_iff)
  then show ?thesis by simp
qed

text \<open>The error of one rounding of a value up to \<open>K\<close>.\<close>

definition op_error :: "real \<Rightarrow> real" where
  "op_error K = K / 2 ^ 52"

definition moderate :: "real \<Rightarrow> bool" where
  "moderate K \<longleftrightarrow> 1 \<le> K \<and> K \<le> 2 ^ 20"

lemma moderate_numeral [simp]: "moderate (numeral n) \<longleftrightarrow> numeral n \<le> (1048576 :: real)" "moderate 1"
  by (simp_all add: moderate_def)

lemma op_error_nonneg [simp]: "moderate K \<Longrightarrow> 0 \<le> op_error K"
  by (simp add: op_error_def moderate_def)

lemma rounded:
  assumes "0 < b" "moderate K" "real a \<le> K * real unit_scale * real b"
  shows "rnd_mag a b < inf_mag"
    and "\<bar>real (scm (rnd_mag a b)) - real a / real b\<bar> \<le> op_error K * real unit_scale"
proof -
  have K: "1 \<le> K" "K \<le> 2 ^ 20" using assms(2) by (simp_all add: moderate_def)
  have b: "0 < real b" using assms(1) by simp
  have "K * real unit_scale * real b \<le> 2 ^ 20 * real unit_scale * real b" using K(2) by (intro mult_right_mono) simp_all
  then have "real a \<le> real (2 ^ 1094 * b)" using assms(3) by (simp add: unit_scale_def)
  then have "a \<le> 2 ^ 1094 * b" by (simp only: of_nat_le_iff)
  then show fin: "rnd_mag a b < inf_mag" by (rule rnd_mag_below(1) [OF assms(1)]) simp_all
  let ?r = "real (scm (rnd_mag a b))" and ?u = "real unit_scale"
  have "real_of_int (2 ^ 53 * \<bar>int a - int (scm (rnd_mag a b)) * int b\<bar>) \<le> real_of_int (int a + 2 ^ 52 * int b)"
    using rnd_mag_error [OF assms(1) fin] by (simp only: of_int_le_iff)
  then have e: "2 ^ 53 * \<bar>real a - ?r * real b\<bar> \<le> real a + 2 ^ 52 * real b" by simp
  have "\<bar>?r - real a / real b\<bar> = \<bar>real a - ?r * real b\<bar> / real b"
    using b by (simp add: field_simps abs_if)
  also have "\<dots> \<le> (real a + 2 ^ 52 * real b) / 2 ^ 53 / real b"
    using e by (intro divide_right_mono) (simp_all add: field_simps)
  also have "\<dots> \<le> (K * ?u * real b + 2 ^ 52 * real b) / 2 ^ 53 / real b"
    using assms(3) by (intro divide_right_mono add_mono) simp_all
  also have "\<dots> = (K * ?u + 2 ^ 52) / 2 ^ 53" using b by (simp add: field_simps)
  also have "\<dots> \<le> op_error K * ?u"
  proof -
    have "(2::real) ^ 52 \<le> 1 * ?u" using unit_scale_large by simp
    also have "\<dots> \<le> K * ?u" using K(1) by (intro mult_right_mono) simp_all
    finally show ?thesis by (simp add: op_error_def)
  qed
  finally show "\<bar>?r - real a / real b\<bar> \<le> op_error K * ?u" .
qed

lemma signed_rounding:
  assumes "0 < b" "moderate K" "real a \<le> K * real unit_scale * real b"
    and "exact = (if s then - 1 else 1) * (real a / real b / real unit_scale)"
  shows "is_finite (mk_f64 s (rnd_mag a b))" and "\<bar>rv (mk_f64 s (rnd_mag a b)) - exact\<bar> \<le> op_error K"
proof -
  note r = rounded [OF assms(1-3)]
  have gen: "\<bar>(if s then - 1 else 1) * (r / u) - (if s then - 1 else 1) * (q / u)\<bar> = \<bar>r - q\<bar> / u"
    if "0 < u" for r q u :: real
    using that by (cases s) (simp_all add: field_simps abs_if)
  show "is_finite (mk_f64 s (rnd_mag a b))" using r(1) by simp
  have v: "rv (mk_f64 s (rnd_mag a b)) = (if s then - 1 else 1) * (real (scm (rnd_mag a b)) / real unit_scale)"
    by (simp add: rv_def fsc_def)
  have "\<bar>rv (mk_f64 s (rnd_mag a b)) - exact\<bar> = \<bar>real (scm (rnd_mag a b)) - real a / real b\<bar> / real unit_scale"
    unfolding v assms(4) by (rule gen) simp
  also have "\<dots> \<le> op_error K * real unit_scale / real unit_scale"
    using r(2) by (intro divide_right_mono) simp_all
  finally show "\<bar>rv (mk_f64 s (rnd_mag a b)) - exact\<bar> \<le> op_error K" by simp
qed

lemma add_error:
  assumes "is_finite x" "is_finite y" "moderate K" "\<bar>rv x + rv y\<bar> \<le> K"
  shows "is_finite (x + y)" and "\<bar>rv (x + y) - (rv x + rv y)\<bar> \<le> op_error K"
proof -
  let ?p = "fsc x + fsc y"
  have p: "rv x + rv y = real_of_int ?p / real unit_scale" by (simp add: rv_def add_divide_distrib)
  have "is_finite (x + y) \<and> \<bar>rv (x + y) - (rv x + rv y)\<bar> \<le> op_error K"
  proof (cases "?p = 0")
    case True
    then have "x + y = mk_f64 (f64_neg x \<and> f64_neg y) 0" using assms(1,2) by (simp add: plus_f64_def)
    then have "rv (x + y) = 0" "is_finite (x + y)" by (simp_all add: rv_def fsc_def is_finite_def inf_mag_def)
    moreover have "rv x + rv y = 0" unfolding p True by simp
    ultimately show ?thesis using assms(3) by simp
  next
    case False
    then have s: "x + y = mk_f64 (?p < 0) (rnd_mag (nat \<bar>?p\<bar>) 1)" using assms(1,2) by (simp add: plus_f64_def Let_def)
    have a: "real (nat \<bar>?p\<bar>) = \<bar>real_of_int ?p\<bar>" by simp
    have "\<bar>real_of_int ?p\<bar> \<le> K * real unit_scale" using assms(4) unfolding p by (simp add: field_simps)
    then have le: "real (nat \<bar>?p\<bar>) \<le> K * real unit_scale * real 1" using a by simp
    have ex: "rv x + rv y = (if ?p < 0 then - 1 else 1) * (real (nat \<bar>?p\<bar>) / real 1 / real unit_scale)"
      unfolding p a by simp
    show ?thesis unfolding s using signed_rounding [OF _ assms(3) le ex] by simp
  qed
  then show "is_finite (x + y)" "\<bar>rv (x + y) - (rv x + rv y)\<bar> \<le> op_error K" by simp_all
qed

lemma diff_error:
  assumes "is_finite x" "is_finite y" "moderate K" "\<bar>rv x - rv y\<bar> \<le> K"
  shows "is_finite (x - y)" and "\<bar>rv (x - y) - (rv x - rv y)\<bar> \<le> op_error K"
proof -
  have "is_finite (- y)" using assms(2) by (simp add: is_finite_def)
  then show "is_finite (x - y)" and "\<bar>rv (x - y) - (rv x - rv y)\<bar> \<le> op_error K"
    using add_error [OF assms(1) _ assms(3), of "- y"] assms(4) by (simp_all add: minus_f64_def)
qed

lemma rv_sign: "rv x = (if f64_neg x then - 1 else 1) * \<bar>rv x\<bar>"
  by (simp add: rv_def fsc_def)

lemma mult_error:
  assumes "is_finite x" "is_finite y" "moderate K" "\<bar>rv x * rv y\<bar> \<le> K"
  shows "is_finite (x * y)" and "\<bar>rv (x * y) - rv x * rv y\<bar> \<le> op_error K"
proof -
  let ?a = "scm (f64_mag x) * scm (f64_mag y)" and ?u = "real unit_scale"
  have s: "x * y = mk_f64 (f64_neg x \<noteq> f64_neg y) (rnd_mag ?a unit_scale)"
    using assms(1,2) by (simp add: times_f64_def Let_def)
  have a: "real ?a = \<bar>rv x * rv y\<bar> * ?u * ?u" by (simp add: scm_real abs_mult)
  have le: "real ?a \<le> K * ?u * ?u" unfolding a using assms(4) by (intro mult_right_mono) simp_all
  have "real ?a / ?u / ?u = \<bar>rv x * rv y\<bar>" unfolding a by simp
  then have ex: "rv x * rv y = (if f64_neg x \<noteq> f64_neg y then - 1 else 1) * (real ?a / ?u / ?u)"
    using rv_sign [of x] rv_sign [of y] by (auto simp: abs_mult)
  show "is_finite (x * y)" "\<bar>rv (x * y) - rv x * rv y\<bar> \<le> op_error K"
    unfolding s using signed_rounding [OF unit_scale_pos assms(3) le ex] by simp_all
qed

lemma div_error:
  assumes "is_finite x" "is_finite y" "rv y \<noteq> 0" "moderate K" "\<bar>rv x / rv y\<bar> \<le> K"
  shows "is_finite (x / y)" and "\<bar>rv (x / y) - rv x / rv y\<bar> \<le> op_error K"
proof -
  let ?a = "scm (f64_mag x) * unit_scale" and ?b = "scm (f64_mag y)" and ?u = "real unit_scale"
  have b: "real ?b = \<bar>rv y\<bar> * ?u" by (rule scm_real)
  moreover have "0 < \<bar>rv y\<bar> * ?u" using assms(3) by simp
  ultimately have b0: "0 < ?b" by (metis of_nat_0_less_iff)
  then have z: "f64_mag y \<noteq> 0" by (metis less_irrefl scm_zero)
  have s: "x / y = mk_f64 (f64_neg x \<noteq> f64_neg y) (rnd_mag ?a ?b)"
    using assms(1,2) z by (simp add: divide_f64_def Let_def)
  have q: "real ?a / real ?b = \<bar>rv x / rv y\<bar> * ?u"
    unfolding of_nat_mult scm_real using assms(3) by (simp add: abs_divide)
  have "real ?a / real ?b \<le> K * ?u" unfolding q using assms(5) by (intro mult_right_mono) simp_all
  then have le: "real ?a \<le> K * ?u * real ?b" using b0 by (simp add: divide_le_eq)
  have "real ?a / real ?b / ?u = \<bar>rv x / rv y\<bar>" unfolding q by simp
  then have ex: "rv x / rv y = (if f64_neg x \<noteq> f64_neg y then - 1 else 1) * (real ?a / real ?b / ?u)"
    using rv_sign [of x] rv_sign [of y] by (auto simp: abs_divide)
  show "is_finite (x / y)" "\<bar>rv (x / y) - rv x / rv y\<bar> \<le> op_error K"
    unfolding s using signed_rounding [OF b0 assms(4) le ex] by simp_all
qed

text \<open>The integer root with a sticky bit, in halves, is within a half of the root.\<close>

lemma sticky_root_near:
  fixes n :: nat
  defines "q \<equiv> isqrt n"
  shows "\<bar>real (2 * q + (if q * q = n then 0 else 1)) / 2 - sqrt (real n)\<bar> \<le> 1 / 2"
proof (cases "q * q = n")
  case True
  then have "sqrt (real n) = real q"
    by (metis of_nat_mult real_sqrt_mult_self real_sqrt_mult real_sqrt_abs2 abs_of_nat)
  then show ?thesis using True by simp
next
  case False
  have "real (q * q) \<le> real n" "real n < real (Suc q * Suc q)"
    using isqrt_bounds [of n, folded q_def] by (simp_all only: of_nat_le_iff of_nat_less_iff)
  then have "real q \<le> sqrt (real n)" "sqrt (real n) < real q + 1"
    by (auto intro!: real_le_rsqrt real_less_lsqrt simp: power2_eq_square algebra_simps)
  moreover have "real (2 * q + (if q * q = n then 0 else 1)) / 2 = real q + 1 / 2"
    using False by (simp add: field_simps)
  ultimately show ?thesis by linarith
qed

lemma sqrt_error:
  assumes "is_finite x" "0 < rv x" "moderate K" "2 \<le> K" "sqrt (rv x) \<le> K / 4"
  shows "is_finite (f64_sqrt x)" and "\<bar>rv (f64_sqrt x) - sqrt (rv x)\<bar> \<le> op_error K"
proof -
  let ?s = "scm (f64_mag x)" and ?u = "real unit_scale"
  define n q where "n = ?s * unit_scale" and "q = isqrt n"
  define w where "w = 2 * q + (if q * q = n then 0 else 1)"
  have K: "1 \<le> K" "K \<le> 2 ^ 20" using assms(3) by (simp_all add: moderate_def)
  have "f64_mag x = 0 \<Longrightarrow> rv x = 0" by (simp add: rv_def fsc_def)
  then have pos: "\<not> f64_neg x" "f64_mag x \<noteq> 0"
    using rv_sign [of x] assms(2) by (cases "f64_neg x"; auto)+
  have s: "f64_sqrt x = mk_f64 False (rnd_mag w 2)"
    using assms(1) pos by (simp add: f64_sqrt_def sqrt_mag_def Let_def w_def q_def n_def)
  have n: "real n = rv x * ?u * ?u" using assms(2) by (simp add: n_def scm_real)
  have root: "sqrt (real n) = sqrt (rv x) * ?u"
    unfolding n using real_sqrt_mult [of "rv x" "?u * ?u"] by (simp add: mult.assoc)
  have w: "\<bar>real w / 2 - sqrt (real n)\<bar> \<le> 1 / 2"
    using sticky_root_near [of n] by (simp only: w_def q_def)
  have K2: "moderate (K / 2)" using assms(3,4) by (simp add: moderate_def)
  have big: "1 / 2 \<le> op_error (K / 2) * ?u"
  proof -
    have "1 / 2 \<le> 1 / 2 ^ 52 * ?u" using unit_scale_large by simp
    also have "\<dots> \<le> op_error (K / 2) * ?u" using assms(4) by (intro mult_right_mono) (simp_all add: op_error_def)
    finally show ?thesis .
  qed
  have "op_error (K / 2) * ?u \<le> K / 4 * ?u" using assms(4) by (intro mult_right_mono) (simp_all add: op_error_def)
  moreover have "sqrt (real n) \<le> K / 4 * ?u" unfolding root using assms(5) by (intro mult_right_mono) simp_all
  ultimately have le: "real w \<le> K / 2 * ?u * real (2::nat)" using w big by linarith
  have f: "is_finite (mk_f64 False (rnd_mag w 2))" and r: "\<bar>real (scm (rnd_mag w 2)) - real w / 2\<bar> \<le> op_error (K / 2) * ?u"
    using rounded [OF _ K2 le] by simp_all
  show "is_finite (f64_sqrt x)" unfolding s by (rule f)
  have v: "rv (f64_sqrt x) * ?u = real (scm (rnd_mag w 2))" by (simp add: s rv_def fsc_def)
  have "\<bar>real (scm (rnd_mag w 2)) - sqrt (rv x) * ?u\<bar> \<le> op_error (K / 2) * ?u + op_error (K / 2) * ?u"
    using r w big unfolding root by linarith
  then have "\<bar>rv (f64_sqrt x) - sqrt (rv x)\<bar> * ?u \<le> op_error K * ?u"
    unfolding v [symmetric] by (simp add: op_error_def abs_mult flip: left_diff_distrib)
  then show "\<bar>rv (f64_sqrt x) - sqrt (rv x)\<bar> \<le> op_error K" by simp
qed

text \<open>The special case of 16.\<close>

lemma moderate_16: "moderate 16" "op_error 16 = unit_error"
  by (simp_all add: unit_error_def op_error_def)

lemmas rv_add = add_error [OF _ _ moderate_16(1), unfolded moderate_16(2)]
lemmas rv_diff = diff_error [OF _ _ moderate_16(1), unfolded moderate_16(2)]
lemmas rv_mult = mult_error [OF _ _ moderate_16(1), unfolded moderate_16(2)]
lemmas rv_div = div_error [OF _ _ _ moderate_16(1), unfolded moderate_16(2)]

text \<open>The value of a normal number from its fields.\<close>

lemma rv_normal:
  assumes "f64_mag x = Suc e * 2 ^ 52 + f" "f < 2 ^ 52" "\<not> f64_neg x" "e \<le> 1074"
  shows "rv x = real (2 ^ 52 + f) / 2 ^ (1074 - e)"
proof -
  have "fsc x = int ((2 ^ 52 + f) * 2 ^ e)" using assms(3) scm_normal [OF assms(1,2)] by (simp add: fsc_def)
  then have "rv x = real (2 ^ 52 + f) * 2 ^ e / 2 ^ 1074" by (simp add: rv_def unit_scale_def)
  also have "(2::real) ^ 1074 = 2 ^ e * 2 ^ (1074 - e)" using assms(4) by (simp flip: power_add)
  finally show ?thesis by simp
qed

lemma rv_literals [rv_simps]:
  "rv f64_two = 2" "rv f64_five = 5" "rv f64_eight = 8" "rv f64_1e9 = 1000000000"
proof -
  show "rv f64_two = 2" by (subst rv_normal [where e = 1023 and f = 0]) (simp_all add: f64_literals)
  show "rv f64_five = 5" by (subst rv_normal [where e = 1024 and f = "0x4000000000000"]) (simp_all add: f64_literals)
  show "rv f64_eight = 8" by (subst rv_normal [where e = 1025 and f = 0]) (simp_all add: f64_literals)
  show "rv f64_1e9 = 1000000000"
    by (subst rv_normal [where e = 1051 and f = "0xDCD6500000000"]) (simp_all add: f64_literals)
qed

lemma rv_pi: "157 / 50 \<le> rv f64_pi" "rv f64_pi \<le> 63 / 20"
  by (subst rv_normal [where e = 1023 and f = "0x921FB54442D18"]; simp add: f64_literals)+

end
