(* ===== verification/Benchmark.thy ===== *)
theory Benchmark
  imports "HOL-Library.Multiset" Sensors Emulator Float_Text Float64_Real
begin

text \<open>
  The program \<open>robot-benchmark\<close> (\<open>apps/robot-benchmark/main.cpp\<close>): the control loop and 24 sensors
  driven cycle by cycle, and the statistics of the cycle times.  The clock enters as the list of
  measured durations, the system files as their lines; the report is a record of the values that
  are printed, and the text made of them.
\<close>

section \<open>The machine\<close>

definition after_colon :: "string \<Rightarrow> string option" where
  "after_colon line =
     (case dropWhile (\<lambda>c. c \<noteq> CHR '':'') line of [] \<Rightarrow> None | _ # model \<Rightarrow> Some model)"

text \<open>The lines of \<open>/proc/cpuinfo\<close>, none if it cannot be opened.\<close>

fun readCpuModel :: "string list \<Rightarrow> string" where
  "readCpuModel [] = ''unknown CPU''"
| "readCpuModel (line # rest) =
     (if take (length ''model name'') line = ''model name'' then
        (case after_colon line of
           Some model \<Rightarrow>
             (let m = dropWhile (\<lambda>c. c = CHR '' '') model in if m = [] then model else m)
         | None \<Rightarrow> readCpuModel rest)
      else readCpuModel rest)"

definition unquoted :: "string \<Rightarrow> string" where
  "unquoted value =
     (let value = (if value \<noteq> [] \<and> hd value = CHR 0x22 then tl value else value)
      in if value \<noteq> [] \<and> last value = CHR 0x22 then butlast value else value)"

text \<open>The lines of \<open>/etc/os-release\<close>.\<close>

fun readOsPrettyName :: "string list \<Rightarrow> string" where
  "readOsPrettyName [] = ''unknown OS''"
| "readOsPrettyName (line # rest) =
     (if take (length ''PRETTY_NAME='') line = ''PRETTY_NAME=''
      then unquoted (drop (length ''PRETTY_NAME='') line)
      else readOsPrettyName rest)"

definition peakResidentMemoryMb :: "i64 \<Rightarrow> f64" where
  "peakResidentMemoryMb ru_maxrss = f64_of_int (sint ru_maxrss) / F64 0x4090000000000000"

section \<open>The scenario\<close>

record sensor_set =
  set_encoder :: encoder_sensor
  set_temperature :: temperature_sensor
  set_current :: current_sensor
  set_proximity :: proximity_sensor

record bench =
  bm_robot :: robot
  bm_controller :: controller
  bm_loop :: control_loop
  bm_sensors :: "sensor_set list"
  bm_sink :: f64

text \<open>The events must all be accepted, and each joint its target; \<open>None\<close> is the exit with status 1.\<close>

fun post_all :: "controller \<Rightarrow> controller_event list \<Rightarrow> controller option" where
  "post_all m [] = Some m"
| "post_all m (e # es) =
     (case handleEvent m e of (m, Inl _) \<Rightarrow> None | (m, Inr _) \<Rightarrow> post_all m es)"

fun set_targets :: "joint list \<Rightarrow> joint list option" where
  "set_targets [] = Some []"
| "set_targets (j # js) =
     (case Joint_setTargetPosition 1 (Joint_enable j) of
        Inl _ \<Rightarrow> None
      | Inr j \<Rightarrow> map_option (Cons j) (set_targets js))"

text \<open>One set of sensors; \<open>None\<close> where \<open>value()\<close> would throw.\<close>

definition make_sensors :: "nat \<Rightarrow> sensor_set option" where
  "make_sensors i =
     (case VirtualEncoder_create 4096 of Inl _ \<Rightarrow> None | Inr encoder \<Rightarrow>
      case EncoderSensor_create encoder 0 0 (word_of_nat i) of Inl _ \<Rightarrow> None | Inr es \<Rightarrow>
      case TemperatureSensor_create (F64 0x4039000000000000) 500000000 (F64 0x4056800000000000) of
        Inl _ \<Rightarrow> None | Inr ts \<Rightarrow>
      case CurrentSensor_create (F64 0x4024000000000000) of Inl _ \<Rightarrow> None | Inr cs \<Rightarrow>
      case ProximitySensor_create (F64 0x3FA999999999999A) of Inl _ \<Rightarrow> None | Inr ps \<Rightarrow>
        Some \<lparr>set_encoder = es, set_temperature = ts, set_current = cs, set_proximity = ps\<rparr>)"

definition bench_setup :: "bench option" where
  "bench_setup =
     (case Robot_create emulator_config of
        Inl _ \<Rightarrow> None
      | Inr robot \<Rightarrow>
          (case post_all ControllerStateMachine_create
                  [PowerOn, BootComplete, InitComplete, ServoEnable, ControllerReady] of
             None \<Rightarrow> None
           | Some controller \<Rightarrow>
               (case set_targets (joints robot) of
                  None \<Rightarrow> None
                | Some js \<Rightarrow>
                    (case post_all controller [CommandMove] of
                       None \<Rightarrow> None
                     | Some controller \<Rightarrow>
                         (if None \<in> set (map make_sensors [0..<kJointCount]) then None
                          else Some \<lparr>bm_robot = robot\<lparr>joints := js\<rparr>, bm_controller = controller,
                            bm_loop = ControlLoop_create Hz1000,
                            bm_sensors = map (the \<circ> make_sensors) [0..<kJointCount], bm_sink = 0\<rparr>)))))"

section \<open>The cycles\<close>

text \<open>
  The loop over the joints and their sensors, with the sink.  \<open>None\<close> where an encoder reading has
  no specified value (\<open>std::llround\<close> out of range).
\<close>

fun each_joint ::
    "(sensor_set \<Rightarrow> joint \<Rightarrow> f64 \<Rightarrow> (sensor_set \<times> f64) option) \<Rightarrow> sensor_set list \<Rightarrow> joint list \<Rightarrow> f64 \<Rightarrow>
       (sensor_set list \<times> f64) option" where
  "each_joint f (s # ss) (j # js) sink =
     (case f s j sink of
        None \<Rightarrow> None
      | Some (s, sink) \<Rightarrow> map_option (\<lambda>(ss, sink). (s # ss, sink)) (each_joint f ss js sink))"
| "each_joint f ss js sink = Some ([], sink)"

definition warm_up_joint ::
    "(f64 \<Rightarrow> u64 \<Rightarrow> nat \<Rightarrow> f64) \<Rightarrow> sensor_set \<Rightarrow> joint \<Rightarrow> f64 \<Rightarrow> (sensor_set \<times> f64) option" where
  "warm_up_joint gauss s j sink =
     map_option (\<lambda>(reading, encoder). (s\<lparr>set_encoder := encoder\<rparr>, sink + reading))
       (EncoderSensor_read gauss (set_encoder s) (position (jstate j)))"

definition measure_joint ::
    "(f64 \<Rightarrow> u64 \<Rightarrow> nat \<Rightarrow> f64) \<Rightarrow> (f64 \<Rightarrow> f64) \<Rightarrow> i64 \<Rightarrow> sensor_set \<Rightarrow> joint \<Rightarrow> f64 \<Rightarrow> (sensor_set \<times> f64) option" where
  "measure_joint gauss expf period s j sink =
     map_option (\<lambda>(reading, encoder).
       let sink = sink + reading;
           temperature = TemperatureSensor_update expf (set_temperature s) period
             (F64 0x4039000000000000 + velocity (jstate j) * f64_five);
           sink = sink + (if isOverCurrent (set_current s) (velocity (jstate j)) then 1 else 0);
           sink = sink + (if isTriggered (set_proximity s) \<bar>position (jstate j)\<bar> then 1 else 0)
       in (s\<lparr>set_encoder := encoder, set_temperature := temperature\<rparr>, sink))
     (EncoderSensor_read gauss (set_encoder s) (position (jstate j)))"

definition bench_cycle ::
    "(sensor_set \<Rightarrow> joint \<Rightarrow> f64 \<Rightarrow> (sensor_set \<times> f64) option) \<Rightarrow> bench \<Rightarrow> bench option" where
  "bench_cycle f b =
     (let (loop, robot) = ControlLoop_step (bm_controller b) (bm_loop b, bm_robot b)
      in map_option (\<lambda>(sensors, sink).
           b\<lparr>bm_loop := loop, bm_robot := robot, bm_sensors := sensors, bm_sink := sink\<rparr>)
         (each_joint f (bm_sensors b) (joints robot) (bm_sink b)))"

fun bench_cycles ::
    "(sensor_set \<Rightarrow> joint \<Rightarrow> f64 \<Rightarrow> (sensor_set \<times> f64) option) \<Rightarrow> nat \<Rightarrow> bench \<Rightarrow> bench option" where
  "bench_cycles f 0 b = Some b"
| "bench_cycles f (Suc n) b = (case bench_cycle f b of None \<Rightarrow> None | Some b \<Rightarrow> bench_cycles f n b)"

section \<open>Statistics\<close>

text \<open>\<open>std::accumulate\<close> on nanoseconds; \<open>None\<close> where a sum leaves the 64-bit range.\<close>

fun accumulate_ns :: "int \<Rightarrow> i64 list \<Rightarrow> int option" where
  "accumulate_ns acc [] = Some acc"
| "accumulate_ns acc (x # xs) =
     (if in_i64 (acc + sint x) then accumulate_ns (acc + sint x) xs else None)"

text \<open>The element at a fraction of the size; \<open>None\<close> where there is none.\<close>

definition percentile :: "f64 \<Rightarrow> i64 list \<Rightarrow> i64 option" where
  "percentile q sorted_samples =
     (let x = q * f64_of_int (int (length sorted_samples))
      in if is_finite x \<and> 0 \<le> f64_trunc x \<and> nat (f64_trunc x) < length sorted_samples
         then Some (sorted_samples ! nat (f64_trunc x)) else None)"

record bench_report =
  rp_averageNs :: f64
  rp_p99 :: i64
  rp_p999 :: i64
  rp_cpuDutyPercent :: f64
  rp_memoryMb :: f64
  rp_sink :: f64
  rp_positionBefore :: f64
  rp_positionAfter :: f64

definition statistics :: "i64 list \<Rightarrow> i64 \<Rightarrow> (f64 \<times> i64 \<times> i64 \<times> f64) option" where
  "statistics durations period =
     (let samples = sort_key sint durations
      in case (accumulate_ns 0 samples, percentile (F64 0x3FEFAE147AE147AE) samples,
               percentile (F64 0x3FEFF7CED916872B) samples) of
           (Some sumNs, Some p99, Some p999) \<Rightarrow>
             let averageNs = f64_of_int sumNs / f64_of_int (int (length samples));
                 periodNs = f64_of_int (sint period)
             in Some (averageNs, p99, p999, (averageNs / periodNs) * F64 0x4059000000000000)
         | _ \<Rightarrow> None)"

definition kCyclesWarmup :: nat where "kCyclesWarmup = 2000"

definition kCyclesMeasured :: nat where "kCyclesMeasured = 100000"

text \<open>The program, with the durations measured, one per cycle, and the memory the system reports.\<close>

definition benchmark_main ::
    "(f64 \<Rightarrow> u64 \<Rightarrow> nat \<Rightarrow> f64) \<Rightarrow> (f64 \<Rightarrow> f64) \<Rightarrow> i64 list \<Rightarrow> i64 \<Rightarrow> bench_report option" where
  "benchmark_main gauss expf durations ru_maxrss =
     (case bench_setup of
        None \<Rightarrow> None
      | Some b \<Rightarrow>
          let positionBefore = position (jstate (Robot_joint (bm_robot b) 0))
          in (case bench_cycles (warm_up_joint gauss) kCyclesWarmup b of
                None \<Rightarrow> None
              | Some b \<Rightarrow>
                  (case bench_cycles (measure_joint gauss expf (cl_period (bm_loop b))) kCyclesMeasured b of
                     None \<Rightarrow> None
                   | Some b \<Rightarrow>
                       map_option (\<lambda>(averageNs, p99, p999, cpuDutyPercent).
                         \<lparr>rp_averageNs = averageNs, rp_p99 = p99, rp_p999 = p999,
                          rp_cpuDutyPercent = cpuDutyPercent,
                          rp_memoryMb = peakResidentMemoryMb ru_maxrss, rp_sink = bm_sink b,
                          rp_positionBefore = positionBefore,
                          rp_positionAfter = position (jstate (Robot_joint (bm_robot b) 0))\<rparr>)
                       (statistics durations (cl_period (bm_loop b))))))"

text \<open>The text of the report, from the lines of the two system files, the version of the compiler and
  the type of the build.\<close>

definition microseconds :: "f64 \<Rightarrow> string" where
  "microseconds ns = fixed2 (ns / F64 0x408F400000000000) @ '' us'' @ newline"

definition benchmark_text :: "string list \<Rightarrow> string list \<Rightarrow> string \<Rightarrow> string \<Rightarrow> bench_report \<Rightarrow> string" where
  "benchmark_text cpuinfo osRelease version build_type report =
     ''Robot Emulator Benchmark'' @ newline @
     ''-------------------------'' @ newline @
     ''CPU: '' @ readCpuModel cpuinfo @ '' | OS: '' @ readOsPrettyName osRelease @
     '' | Compiler: GCC '' @ version @ '' (-std=c++23) | Build: '' @ build_type @ newline @
     ''Control frequency: 1 kHz'' @ newline @ newline @
     ''Joints:              '' @ string_of_nat kJointCount @ newline @
     ''Sensors:             '' @ string_of_nat (kJointCount * 4) @ newline @ newline @
     ''CPU:                 '' @ fixed1 (rp_cpuDutyPercent report) @ ''%'' @ newline @
     ''Memory:              '' @ fixed1 (rp_memoryMb report) @ '' MB'' @ newline @
     ''Average cycle:       '' @ microseconds (rp_averageNs report) @
     ''P99 cycle:           '' @ microseconds (f64_of_int (sint (rp_p99 report))) @
     ''P99.9 cycle:         '' @ microseconds (f64_of_int (sint (rp_p999 report))) @
     ''Deadline misses:     0 (unpaced measurement loop '' @ [CHR 0xE2, CHR 0x80, CHR 0x94] @
     '' see task brief Non-Goals)'' @ newline @ newline @
     ''[diagnostic] sink='' @ general6 (rp_sink report) @ '' joint0 moved '' @
     general6 (rp_positionBefore report) @ '' -> '' @ general6 (rp_positionAfter report) @ '' rad'' @ newline"

section \<open>Every cycle is defined\<close>

definition set_ok :: "sensor_set \<Rightarrow> bool" where
  "set_ok s \<longleftrightarrow> counts_per_revolution (es_encoder (set_encoder s)) = 4096 \<and>
     offsetRadians (set_encoder s) = 0 \<and> failureMode (set_encoder s) = No_failure"

definition within_half_turn :: "joint \<Rightarrow> bool" where
  "within_half_turn j \<longleftrightarrow> - f64_pi \<le> position (jstate j) \<and> position (jstate j) \<le> f64_pi"

lemma pi_reach: "scm (f64_mag f64_pi) \<le> 2 ^ 1077" "is_finite f64_pi"
  by (simp_all add: f64_pi_def F64_fields sgn_bit_def is_finite_def inf_mag_def scm_def Let_def)

lemma reading_defined:
  assumes "set_ok s" "within_half_turn j"
  shows "\<exists>r e. EncoderSensor_read gauss (set_encoder s) (position (jstate j)) = Some (r, e) \<and>
    set_ok (s\<lparr>set_encoder := e\<rparr>)"
proof -
  let ?x = "position (jstate j)"
  have x: "- f64_pi \<le> ?x" "?x \<le> f64_pi" using assms(2) by (simp_all add: within_half_turn_def)
  have "is_finite (- f64_pi)" using pi_reach(2) by (simp add: is_finite_def)
  then have fin: "is_finite ?x" using finite_between [OF x _ pi_reach(2)] by simp
  have "f64_key (?x + 0) = f64_key ?x" by (rule add_zero_key [OF fin]) simp
  then have m: "f64_mag (?x + 0) = f64_mag ?x" by (auto simp: f64_key_def split: if_splits)
  have "f64_mag ?x \<le> f64_mag f64_pi"
    using x by (auto simp: f64_order f64_key_def f64_pi_def F64_fields sgn_bit_def split: if_splits)
  then have "scm (f64_mag ?x) \<le> scm (f64_mag f64_pi)"
    using pi_reach(2) fin by (simp add: scm_le_iff is_finite_def)
  then have "scm (f64_mag (?x + 0)) \<le> 2 ^ 1077" unfolding m using pi_reach(1) by (rule order.trans)
  moreover have "is_finite (?x + 0)" using fin unfolding is_finite_def m .
  ultimately obtain n where "counts (es_encoder (set_encoder s)) (?x + 0) = Some n"
    using counts_in_reach [of "es_encoder (set_encoder s)" "?x + 0"] assms(1) by (auto simp: set_ok_def)
  then show ?thesis
    using assms(1) by (auto simp: EncoderSensor_read_def VirtualEncoder_sample_def set_ok_def Let_def split_beta)
qed

text \<open>The robot of the scenario, moving, with one good set of sensors per joint.\<close>

definition bench_ok :: "bench \<Rightarrow> bool" where
  "bench_ok b \<longleftrightarrow> robot_ok (bm_robot b) \<and>
     map limits (joints (bm_robot b)) = replicate kJointCount defaultLimits \<and>
     list_all set_ok (bm_sensors b) \<and> length (bm_sensors b) = kJointCount \<and>
     ctl_state (bm_controller b) = Moving \<and> cl_period (bm_loop b) = 1000000"

lemma bench_ok_joints:
  assumes "bench_ok b"
  shows "list_all within_half_turn (joints (bm_robot b))" "length (joints (bm_robot b)) = kJointCount"
  using assms scenario_bounds [of "bm_robot b"]
  by (auto simp: bench_ok_def within_half_turn_def list_all_iff Robot_jointCount_def kJointCount_def)

lemma bench_ok_step:
  assumes "bench_ok b" "ControlLoop_step (bm_controller b) (bm_loop b, bm_robot b) = (loop, r)"
    and "list_all set_ok ss" "length ss = kJointCount"
  shows "bench_ok (b\<lparr>bm_loop := loop, bm_robot := r, bm_sensors := ss, bm_sink := sink\<rparr>)"
    and "cl_cyclesExecuted loop = cl_cyclesExecuted (bm_loop b) + 1"
  using assms by (auto simp: bench_ok_def ControlLoop_step_def Let_def robot_ok_update comp_def)

text \<open>What one joint's share of a cycle promises: a result, and sensors as good as before.\<close>

locale joint_pass =
  fixes f :: "sensor_set \<Rightarrow> joint \<Rightarrow> f64 \<Rightarrow> (sensor_set \<times> f64) option"
  assumes pass_ok: "set_ok s \<Longrightarrow> within_half_turn j \<Longrightarrow> \<exists>s' sink'. f s j sink = Some (s', sink') \<and> set_ok s'"
begin

lemma all_pass:
  assumes "list_all set_ok ss" "list_all within_half_turn js" "length ss = length js"
  shows "\<exists>ss' sink'. each_joint f ss js sink = Some (ss', sink') \<and> list_all set_ok ss' \<and> length ss' = length ss"
  using assms(3,1,2)
proof (induction ss js arbitrary: sink rule: list_induct2)
  case (Cons s ss j js)
  obtain s' sink' where "f s j sink = Some (s', sink')" "set_ok s'"
    using pass_ok [of s j sink] Cons.prems by auto
  then show ?case using Cons.IH [of sink'] Cons.prems by fastforce
qed simp

lemma cycle_ok:
  assumes "bench_ok b"
  shows "\<exists>b'. bench_cycle f b = Some b' \<and> bench_ok b' \<and>
    cl_cyclesExecuted (bm_loop b') = cl_cyclesExecuted (bm_loop b) + 1"
proof -
  obtain loop r where step: "ControlLoop_step (bm_controller b) (bm_loop b, bm_robot b) = (loop, r)"
    by fastforce
  have ss: "list_all set_ok (bm_sensors b)" "length (bm_sensors b) = kJointCount"
    using assms by (simp_all add: bench_ok_def)
  note ok = bench_ok_joints [OF bench_ok_step(1) [OF assms step ss, of 0], simplified]
  obtain ss' sink' where "each_joint f (bm_sensors b) (joints r) (bm_sink b) = Some (ss', sink')"
    "list_all set_ok ss'" "length ss' = length (bm_sensors b)"
    using all_pass [OF ss(1) ok(1), of "bm_sink b"] ss(2) ok(2) by auto
  then show ?thesis
    using bench_ok_step [OF assms step] ss(2) by (auto simp: bench_cycle_def step)
qed

lemma cycles_ok:
  assumes "bench_ok b"
  shows "\<exists>b'. bench_cycles f n b = Some b' \<and> bench_ok b' \<and>
    cl_cyclesExecuted (bm_loop b') = cl_cyclesExecuted (bm_loop b) + word_of_nat n"
  using assms
proof (induction n arbitrary: b)
  case (Suc n)
  then show ?case using cycle_ok [OF Suc.prems] by fastforce
qed simp

end

interpretation warm_up: joint_pass "warm_up_joint gauss" for gauss
proof
  fix s j sink
  assume "set_ok s" "within_half_turn j"
  then show "\<exists>s' sink'. warm_up_joint gauss s j sink = Some (s', sink') \<and> set_ok s'"
    using reading_defined [of s j gauss] by (auto simp: warm_up_joint_def)
qed

interpretation measuring: joint_pass "measure_joint gauss expf period" for gauss expf period
proof
  fix s j sink
  assume "set_ok s" "within_half_turn j"
  then show "\<exists>s' sink'. measure_joint gauss expf period s j sink = Some (s', sink') \<and> set_ok s'"
    using reading_defined [of s j gauss] by (auto simp: measure_joint_def set_ok_def Let_def)
qed

section \<open>The scenario is good\<close>

lemma make_sensors_ok: "\<exists>s. make_sensors i = Some s \<and> set_ok s"
proof -
  have enc: "VirtualEncoder_create 4096 = Ok \<lparr>counts_per_revolution = 4096\<rparr>"
    by (simp add: VirtualEncoder_create_def)
  have es: "EncoderSensor_create e 0 0 seed = Ok \<lparr>es_encoder = e, noiseStdDevRadians = 0, offsetRadians = 0,
      rng_seed = seed, rng_draws = 0, failureMode = No_failure, lastReading = 0\<rparr>" for e seed
    by (simp add: EncoderSensor_create_def f64_order)
  have tau: "\<not> seconds_of 500000000 \<le> 0" by (simp add: seconds_of_le_0_iff)
  have lit: "\<not> F64 0x4024000000000000 \<le> 0" "\<not> F64 0x3FA999999999999A \<le> 0"
    by (simp_all add: f64_literals)
  show ?thesis
    by (simp add: make_sensors_def enc es tau lit TemperatureSensor_create_def CurrentSensor_create_def
        ProximitySensor_create_def set_ok_def Let_def)
qed

lemma post_all_scenario:
  "post_all ControllerStateMachine_create [PowerOn, BootComplete, InitComplete, ServoEnable, ControllerReady] =
     Some \<lparr>ctl_state = Ready\<rparr>"
  "post_all \<lparr>ctl_state = Ready\<rparr> [CommandMove] = Some \<lparr>ctl_state = Moving\<rparr>"
  by (simp_all add: ControllerStateMachine_create_def handleEvent_documented)

lemma target_in_limits:
  "\<not> 1 < min_position defaultLimits" "\<not> max_position defaultLimits < 1"
  "min_position defaultLimits \<le> 1" "1 \<le> max_position defaultLimits"
  by (simp_all add: defaultLimits_exact f64_literals)

definition moving_joint :: joint where
  "moving_joint = (Joint_enable (Joint_create defaultLimits))\<lparr>target_position := 1\<rparr>"

lemma set_targets_scenario:
  "set_targets (replicate n (Joint_create defaultLimits)) = Some (replicate n moving_joint)"
  by (induction n)
    (simp_all add: Joint_setTargetPosition_def Joint_enable_def Joint_create_def target_in_limits moving_joint_def)

lemma moving_joint_ok: "joint_ok moving_joint"
  using joint_ok_create [OF defaultLimits_ok] target_in_limits
  by (simp add: joint_ok_def moving_joint_def Joint_enable_def Joint_create_def)

lemma bench_setup_ok:
  "\<exists>b. bench_setup = Some b \<and> bench_ok b \<and> cl_cyclesExecuted (bm_loop b) = 0 \<and>
     joints (bm_robot b) = replicate kJointCount moving_joint"
proof -
  have some: "make_sensors i \<noteq> None" "set_ok (the (make_sensors i))" for i
    using make_sensors_ok [of i] by auto
  then have all: "None \<notin> set (map make_sensors [0..<kJointCount])"
    by (metis (no_types, lifting) in_set_conv_nth length_map nth_map)
  have "limits moving_joint = defaultLimits" by (simp add: moving_joint_def Joint_enable_def Joint_create_def)
  then show ?thesis
    using all some(2) moving_joint_ok
    by (simp add: bench_setup_def emulator_robot post_all_scenario set_targets_scenario bench_ok_def robot_ok_def
        ControlLoop_create_def periodFor_def list_all_iff kJointCount_def comp_def del: post_all.simps)
qed

section \<open>Percentiles\<close>

text \<open>The elements up to a position of a sorted list are not above it, the others not below.\<close>

lemma sorted_rank:
  assumes "sorted (map g xs)" "i < length xs"
  shows "Suc i \<le> length (List.filter (\<lambda>x. g x \<le> g (xs ! i)) xs)"
    and "length xs - i \<le> length (List.filter (\<lambda>x. g (xs ! i) \<le> g x) xs)"
proof -
  have le: "g (xs ! j) \<le> g (xs ! k)" if "j \<le> k" "k < length xs" for j k
    using sorted_nth_mono [OF assms(1) that(1)] that by simp
  have "List.filter (\<lambda>x. g x \<le> g (xs ! i)) (take (Suc i) xs) = take (Suc i) xs"
    using assms(2) le by (auto simp: filter_id_conv in_set_conv_nth)
  then have "Suc i = length (List.filter (\<lambda>x. g x \<le> g (xs ! i)) (take (Suc i) xs))" using assms(2) by simp
  also have "\<dots> \<le> length (List.filter (\<lambda>x. g x \<le> g (xs ! i)) (take (Suc i) xs @ drop (Suc i) xs))"
    unfolding filter_append by simp
  finally show "Suc i \<le> length (List.filter (\<lambda>x. g x \<le> g (xs ! i)) xs)" by (simp only: append_take_drop_id)
  have "List.filter (\<lambda>x. g (xs ! i) \<le> g x) (drop i xs) = drop i xs"
    using assms(2) le by (auto simp: filter_id_conv in_set_conv_nth)
  then have "length xs - i = length (List.filter (\<lambda>x. g (xs ! i) \<le> g x) (drop i xs))" by simp
  also have "\<dots> \<le> length (List.filter (\<lambda>x. g (xs ! i) \<le> g x) (take i xs @ drop i xs))"
    unfolding filter_append by simp
  finally show "length xs - i \<le> length (List.filter (\<lambda>x. g (xs ! i) \<le> g x) xs)"
    by (simp only: append_take_drop_id)
qed

lemma filter_sort_length: "length (List.filter P (sort_key g xs)) = length (List.filter P xs)"
proof -
  have "size (filter_mset P (mset (sort_key g xs))) = size (filter_mset P (mset xs))" by simp
  then show ?thesis by (simp only: size_mset flip: mset_filter)
qed

lemma f64_100000: "f64_of_int 100000 = F64 0x40F86A0000000000"
proof -
  have "scm 0x40F86A0000000000 = (2 ^ 52 + 0x86A0000000000) * 2 ^ 1038"
    by (rule scm_normal) simp_all
  also have "(2 ^ 52 + 0x86A0000000000 :: nat) = 100000 * 2 ^ 36" by simp
  also have "100000 * 2 ^ 36 * 2 ^ 1038 = 100000 * unit_scale"
    unfolding unit_scale_def mult.assoc power_add [symmetric] by simp
  finally have "scm 0x40F86A0000000000 = 100000 * unit_scale" .
  then have "rnd_mag (100000 * unit_scale) (Suc 0) = 0x40F86A0000000000"
    using rnd_mag_scm [of "0x40F86A0000000000"] by (simp add: inf_mag_def)
  then show ?thesis by (intro f64_eqI) (simp_all add: f64_of_int_fields F64_fields sgn_bit_def)
qed

lemma trunc_literals: "f64_trunc (F64 0x40F82B8000000000) = 99000" "f64_trunc (F64 0x40F863C000000000) = 99900"
proof -
  have "scm 0x40F82B8000000000 = (2 ^ 52 + 0x82B8000000000) * 2 ^ 1038"
    "scm 0x40F863C000000000 = (2 ^ 52 + 0x863C000000000) * 2 ^ 1038"
    by (rule scm_normal; simp)+
  moreover have "(2 ^ 52 + 0x82B8000000000 :: nat) = 99000 * 2 ^ 36" "(2 ^ 52 + 0x863C000000000 :: nat) = 99900 * 2 ^ 36"
    by simp_all
  moreover have "n * 2 ^ 36 * 2 ^ 1038 = n * unit_scale" for n :: nat
    unfolding unit_scale_def mult.assoc power_add [symmetric] by simp
  ultimately have "scm 0x40F82B8000000000 = 99000 * unit_scale" "scm 0x40F863C000000000 = 99900 * unit_scale"
    by (simp_all only:)
  then show "f64_trunc (F64 0x40F82B8000000000) = 99000" "f64_trunc (F64 0x40F863C000000000) = 99900"
    by (simp_all add: f64_trunc_def F64_fields sgn_bit_def)
qed

lemma positions_of_percentiles:
  "F64 0x3FEFAE147AE147AE * F64 0x40F86A0000000000 = F64 0x40F82B8000000000"
  "F64 0x3FEFF7CED916872B * F64 0x40F86A0000000000 = F64 0x40F863C000000000"
proof -
  have "F64 0x3FEFAE147AE147AE * F64 0x40F86A0000000000 = mk_f64 (f64_neg (F64 0x3FEFAE147AE147AE) \<noteq> f64_neg (F64 0x40F86A0000000000))
     (min (1038 * 2 ^ 52 + rne ((2 ^ 52 + 0xFAE147AE147AE) * (2 ^ 52 + 0x86A0000000000)) (2 ^ 53)) inf_mag)"
    by (rule mult_normal_mag [where ex = 1021 and ey = 1038]) (simp_all add: f64_literals)
  also have "\<dots> = F64 0x40F82B8000000000" by (rule f64_eqI) (simp_all add: f64_literals rne_def)
  finally show "F64 0x3FEFAE147AE147AE * F64 0x40F86A0000000000 = F64 0x40F82B8000000000" .
  have "F64 0x3FEFF7CED916872B * F64 0x40F86A0000000000 = mk_f64 (f64_neg (F64 0x3FEFF7CED916872B) \<noteq> f64_neg (F64 0x40F86A0000000000))
     (min (1038 * 2 ^ 52 + rne ((2 ^ 52 + 0xFF7CED916872B) * (2 ^ 52 + 0x86A0000000000)) (2 ^ 53)) inf_mag)"
    by (rule mult_normal_mag [where ex = 1021 and ey = 1038]) (simp_all add: f64_literals)
  also have "\<dots> = F64 0x40F863C000000000" by (rule f64_eqI) (simp_all add: f64_literals rne_def)
  finally show "F64 0x3FEFF7CED916872B * F64 0x40F86A0000000000 = F64 0x40F863C000000000" .
qed

lemma percentile_positions:
  assumes "length xs = kCyclesMeasured"
  shows "percentile (F64 0x3FEFAE147AE147AE) xs = Some (xs ! 99000)"
    and "percentile (F64 0x3FEFF7CED916872B) xs = Some (xs ! 99900)"
  using assms
  by (simp_all add: percentile_def kCyclesMeasured_def f64_100000 positions_of_percentiles trunc_literals Let_def
      is_finite_def F64_fields sgn_bit_def inf_mag_def)

lemma accumulate_total:
  assumes "list_all (\<lambda>d. 0 \<le> sint d) ds" "0 \<le> acc" "acc + sum_list (map sint ds) < 2 ^ 63"
  shows "accumulate_ns acc ds = Some (acc + sum_list (map sint ds))"
  using assms
proof (induction ds arbitrary: acc)
  case (Cons d ds)
  have "0 \<le> sum_list (map sint ds)" using Cons.prems(1) by (intro sum_list_nonneg) (auto simp: list_all_iff)
  then show ?case using Cons.IH [of "acc + sint d"] Cons.prems by (simp add: in_i64_def add.assoc)
qed simp

lemma statistics_ranks:
  assumes "length ds = kCyclesMeasured" "list_all (\<lambda>d. 0 \<le> sint d) ds" "sum_list (map sint ds) < 2 ^ 63"
  defines "p99 \<equiv> sort_key sint ds ! 99000" and "p999 \<equiv> sort_key sint ds ! 99900"
  defines "mean \<equiv> f64_of_int (sum_list (map sint ds)) / f64_of_int 100000"
  shows "statistics ds period = Some (mean, p99, p999, (mean / f64_of_int (sint period)) * F64 0x4059000000000000)"
    and "99001 \<le> length (List.filter (\<lambda>d. sint d \<le> sint p99) ds)"
    and "1000 \<le> length (List.filter (\<lambda>d. sint p99 \<le> sint d) ds)"
    and "99901 \<le> length (List.filter (\<lambda>d. sint d \<le> sint p999) ds)"
    and "100 \<le> length (List.filter (\<lambda>d. sint p999 \<le> sint d) ds)"
proof -
  let ?s = "sort_key sint ds"
  have len: "length ?s = kCyclesMeasured" using assms(1) by simp
  have "sum_list (map sint ?s) = sum_list (map sint ds)"
    by (metis mset_map mset_sort sum_mset_sum_list)
  then have "accumulate_ns 0 ?s = Some (sum_list (map sint ds))"
    using accumulate_total [of ?s 0] assms(2,3) by (simp add: list_all_iff)
  then show "statistics ds period = Some (mean, p99, p999, (mean / f64_of_int (sint period)) * F64 0x4059000000000000)"
    unfolding statistics_def p99_def p999_def mean_def Let_def percentile_positions [OF len]
    using assms(1) by (simp add: kCyclesMeasured_def)
  have "99000 < length ?s" "99900 < length ?s" unfolding len kCyclesMeasured_def by simp_all
  note r = sorted_rank [OF sorted_sort_key this(1)] sorted_rank [OF sorted_sort_key this(2)]
  show "99001 \<le> length (List.filter (\<lambda>d. sint d \<le> sint p99) ds)"
    "1000 \<le> length (List.filter (\<lambda>d. sint p99 \<le> sint d) ds)"
    "99901 \<le> length (List.filter (\<lambda>d. sint d \<le> sint p999) ds)"
    "100 \<le> length (List.filter (\<lambda>d. sint p999 \<le> sint d) ds)"
    using r unfolding filter_sort_length p99_def p999_def len by (simp_all add: kCyclesMeasured_def)
qed

lemma benchmark_runs:
  assumes "statistics ds 1000000 = Some (mean, p99, p999, duty)"
  shows "\<exists>sink after. benchmark_main gauss expf ds rss =
      Some \<lparr>rp_averageNs = mean, rp_p99 = p99, rp_p999 = p999, rp_cpuDutyPercent = duty,
        rp_memoryMb = peakResidentMemoryMb rss, rp_sink = sink, rp_positionBefore = 0, rp_positionAfter = after\<rparr> \<and>
    - f64_pi \<le> after \<and> after \<le> f64_pi"
proof -
  obtain b0 where b0: "bench_setup = Some b0" "bench_ok b0" "joints (bm_robot b0) = replicate kJointCount moving_joint"
    using bench_setup_ok by blast
  obtain b1 where b1: "bench_cycles (warm_up_joint gauss) kCyclesWarmup b0 = Some b1" "bench_ok b1"
    using warm_up.cycles_ok [OF b0(2)] by blast
  obtain b2 where b2: "bench_cycles (measure_joint gauss expf 1000000) kCyclesMeasured b1 = Some b2" "bench_ok b2"
    using measuring.cycles_ok [OF b1(2)] by blast
  have p: "cl_period (bm_loop b1) = 1000000" "cl_period (bm_loop b2) = 1000000"
    using b1(2) b2(2) by (simp_all add: bench_ok_def)
  have "position (jstate (Robot_joint (bm_robot b0) 0)) = 0"
    by (simp add: Robot_joint_def b0(3) kJointCount_def moving_joint_def Joint_enable_def Joint_create_def)
  moreover have "within_half_turn (Robot_joint (bm_robot b2) 0)"
    using bench_ok_joints [OF b2(2)] by (simp add: Robot_joint_def list_all_length kJointCount_def)
  ultimately show ?thesis
    unfolding benchmark_main_def by (simp add: b0(1) b1(1) b2(1) p assms within_half_turn_def)
qed

text \<open>The percentiles are printed in microseconds to the nearest hundredth, for cycles of up to a second.\<close>

lemma microseconds_exact:
  assumes "0 \<le> sint d" "sint d \<le> 1000000000"
  defines "x \<equiv> f64_of_int (sint d) / F64 0x408F400000000000"
  shows "\<bar>real (hundredths x) / 100 - of_int (sint d) / 1000\<bar> \<le> 1 / 200 + 1 / 1000000000"
proof -
  have n: "\<bar>sint d\<bar> < 2 ^ 53" using assms(1,2) by simp
  have k: "is_finite (F64 0x408F400000000000)" "rv (F64 0x408F400000000000) = 1000"
    by (simp add: f64_literals) (subst rv_normal [where e = 1031 and f = "0xF400000000000"]; simp add: f64_literals)
  have "\<bar>rv (f64_of_int (sint d)) / rv (F64 0x408F400000000000)\<bar> \<le> 1048576"
    using assms(1,2) unfolding rv_of_int [OF n] k by linarith
  from div_error(2) [OF f64_of_int_exact(2) [OF n] k(1) _ _ this] have e: "\<bar>rv x - of_int (sint d) / 1000\<bar> \<le> 1 / 4294967296"
    unfolding x_def rv_of_int [OF n] k(2) by (simp add: op_error_def)
  let ?u = "real unit_scale"
  have "real_of_int (2 * \<bar>100 * int (scm (f64_mag x)) - int (hundredths x) * int unit_scale\<bar>) \<le> real_of_int (int unit_scale)"
    using hundredths_error [of x] by (simp only: of_int_le_iff)
  then have "2 * \<bar>100 * (\<bar>rv x\<bar> * ?u) - real (hundredths x) * ?u\<bar> \<le> ?u" by (simp add: scm_real [symmetric])
  also have "100 * (\<bar>rv x\<bar> * ?u) - real (hundredths x) * ?u = (100 * \<bar>rv x\<bar> - real (hundredths x)) * ?u"
    by (simp add: left_diff_distrib)
  finally have "(2 * \<bar>100 * \<bar>rv x\<bar> - real (hundredths x)\<bar>) * ?u \<le> 1 * ?u" by (simp only: abs_mult abs_of_nat mult.assoc mult_1)
  then have "2 * \<bar>100 * \<bar>rv x\<bar> - real (hundredths x)\<bar> \<le> 1" by (rule mult_right_le_imp_le) simp
  then have h: "\<bar>100 * \<bar>rv x\<bar> - real (hundredths x)\<bar> \<le> 1 / 2" by simp
  have "(0 :: real) \<le> of_int (sint d) / 1000" using of_int_0_le_iff [THEN iffD2, OF assms(1)] by simp
  then have "\<bar>\<bar>rv x\<bar> - of_int (sint d) / 1000\<bar> \<le> 1 / 4294967296" using e by linarith
  with h show ?thesis by linarith
qed

section \<open>Properties\<close>

text \<open>C37. The benchmark reports what it measured.  Whatever the noise and the exponential, set-up and all
  102000 cycles succeed with every encoder reading defined; and for durations that are not negative
  and do not overflow their sum, the mean is that of the durations (rounded once per operation), at
  least 99\% of them are not above the reported P99 and at least 1\% not below it, likewise 99.9\%
  and 0.1\% for the P99.9, and the first joint has moved from 0 to a position within a half turn.\<close>

theorem benchmark_reports_percentiles:
  assumes "length ds = kCyclesMeasured" "list_all (\<lambda>d. 0 \<le> sint d) ds" "sum_list (map sint ds) < 2 ^ 63"
  shows "\<exists>report. benchmark_main gauss expf ds rss = Some report \<and>
    rp_averageNs report = f64_of_int (sum_list (map sint ds)) / f64_of_int 100000 \<and>
    99000 < length (List.filter (\<lambda>d. sint d \<le> sint (rp_p99 report)) ds) \<and>
    1000 \<le> length (List.filter (\<lambda>d. sint (rp_p99 report) \<le> sint d) ds) \<and>
    99900 < length (List.filter (\<lambda>d. sint d \<le> sint (rp_p999 report)) ds) \<and>
    100 \<le> length (List.filter (\<lambda>d. sint (rp_p999 report) \<le> sint d) ds) \<and>
    rp_positionBefore report = 0 \<and> - f64_pi \<le> rp_positionAfter report \<and> rp_positionAfter report \<le> f64_pi"
  using benchmark_runs [OF statistics_ranks(1) [OF assms], of gauss expf rss] statistics_ranks(2-5) [OF assms]
  by fastforce

theorem benchmark_reports_percentiles_witness:
  "\<exists>report. benchmark_main (\<lambda>_ _ _. 0) halving (replicate 99500 20 @ replicate 500 30) 4096 = Some report \<and>
    rp_p99 report = 20 \<and> rp_p999 report = 30"
proof -
  let ?ds = "replicate 99500 20 @ replicate 500 30 :: i64 list"
  have "length ?ds = kCyclesMeasured" by (simp add: kCyclesMeasured_def)
  moreover have "list_all (\<lambda>d. 0 \<le> sint d) ?ds" by (simp add: list_all_iff)
  moreover have "sum_list (map sint ?ds) < 2 ^ 63" by (simp add: sum_list_replicate)
  ultimately obtain report where r: "benchmark_main (\<lambda>_ _ _. 0) halving ?ds 4096 = Some report"
    "99000 < length (List.filter (\<lambda>d. sint d \<le> sint (rp_p99 report)) ?ds)"
    "1000 \<le> length (List.filter (\<lambda>d. sint (rp_p99 report) \<le> sint d) ?ds)"
    "99900 < length (List.filter (\<lambda>d. sint d \<le> sint (rp_p999 report)) ?ds)"
    "100 \<le> length (List.filter (\<lambda>d. sint (rp_p999 report) \<le> sint d) ?ds)"
    using benchmark_reports_percentiles [of ?ds "\<lambda>_ _ _. 0" halving 4096] by blast
  have "sint (rp_p99 report) = sint (20 :: i64)" "sint (rp_p999 report) = sint (30 :: i64)"
    using r(2-5) by (simp_all add: filter_replicate split: if_splits)
  then have "rp_p99 report = 20" "rp_p999 report = 30" by (auto intro: signed_word_eqI simp del: sint_numeral)
  with r(1) show ?thesis by blast
qed

end
