(* ===== verification/Clock.thy ===== *)
theory Clock
  imports Watchdog
begin

text \<open>
  \<open>robot::core::Clock\<close> (\<open>include/robot/core/clock.hpp\<close>): the interface of the time sources, and
  the manual clock, which only \<open>advance\<close> moves.  The steady clock is the environment; what the
  library relies on, readings that never decrease, is the contract below.
\<close>

section \<open>The manual clock\<close>

record manual_clock =
  mc_now :: i64

definition ManualClock_create :: manual_clock where
  "ManualClock_create = \<lparr>mc_now = 0\<rparr>"

definition ManualClock_now :: "manual_clock \<Rightarrow> i64" where
  "ManualClock_now c = mc_now c"

text \<open>The caller guarantees \<open>delta >= 0\<close> and no overflow.\<close>

definition ManualClock_advance :: "i64 \<Rightarrow> manual_clock \<Rightarrow> manual_clock" where
  "ManualClock_advance delta c = c\<lparr>mc_now := mc_now c + delta\<rparr>"

definition may_advance :: "manual_clock \<Rightarrow> i64 \<Rightarrow> bool" where
  "may_advance c delta \<longleftrightarrow> 0 \<le> sint (mc_now c) \<and> 0 \<le> sint delta \<and> sint (mc_now c) + sint delta < 2 ^ 63"

section \<open>The contract\<close>

locale monotonic_clock =
  fixes now :: "'c \<Rightarrow> i64"
    and move :: "'d \<Rightarrow> 'c \<Rightarrow> 'c"
    and allowed :: "'c \<Rightarrow> 'd \<Rightarrow> bool"
  assumes now_nonneg: "allowed c d \<Longrightarrow> 0 \<le> sint (now c)"
    and now_mono: "allowed c d \<Longrightarrow> sint (now c) \<le> sint (now (move d c))"
begin

text \<open>The readings around a sequence of moves, each with the value of a counter.\<close>

fun samples :: "'c \<Rightarrow> u64 \<Rightarrow> ('d \<times> u64) list \<Rightarrow> (u64 \<times> i64) list" where
  "samples c n [] = [(n, now c)]"
| "samples c n ((d, m) # ds) = (n, now c) # samples (move d c) m ds"

fun all_allowed :: "'c \<Rightarrow> ('d \<times> u64) list \<Rightarrow> bool" where
  "all_allowed c [] \<longleftrightarrow> 0 \<le> sint (now c)"
| "all_allowed c ((d, m) # ds) \<longleftrightarrow> allowed c d \<and> all_allowed (move d c) ds"

lemma samples_from:
  "all_allowed c ds \<Longrightarrow> p \<in> set (samples c n ds) \<Longrightarrow> sint (now c) \<le> sint (snd p)"
proof (induction ds arbitrary: c n)
  case (Cons d ds)
  then show ?case using now_mono [of c "fst d"] by (cases d) (fastforce intro: order.trans)
qed simp

lemma samples_steady: "all_allowed c ds \<Longrightarrow> steady (samples c n ds)"
proof (induction ds arbitrary: c n)
  case (Cons d ds)
  obtain e m where d: "d = (e, m)" by (cases d)
  have ok: "allowed c e" "all_allowed (move e c) ds" using Cons.prems d by simp_all
  have "sint (now c) \<le> sint (snd p)" if "p \<in> set (samples (move e c) m ds)" for p
    using now_mono [OF ok(1)] samples_from [OF ok(2) that] by simp
  then show ?case using Cons.IH [OF ok(2), of m] now_nonneg [OF ok(1)] d by (auto simp: steady_def)
qed (simp add: steady_def)

end

lemma advance_exact: "may_advance c d \<Longrightarrow> sint (mc_now c + d) = sint (mc_now c) + sint d"
  by (simp add: may_advance_def sint_word_ariths signed_take_bit_int_eq_self)

interpretation manual: monotonic_clock ManualClock_now ManualClock_advance may_advance
  by unfold_locales (auto simp: ManualClock_now_def ManualClock_advance_def advance_exact, simp_all add: may_advance_def)

text \<open>A watchdog sampled under a manual clock trips exactly on a stall.\<close>

theorem watchdog_under_manual_clock:
  assumes "manual.all_allowed c ds" and "manual.samples c n ds = sample0 # samples"
    and "Watchdog_start sample0 w0 = (w, Ok ())"
  shows "wd_tripped (foldl Watchdog_poll w samples) \<longleftrightarrow>
    stalled (sint (wd_timeout w0)) (manual.samples c n ds)"
  using manual.samples_steady [OF assms(1), of n] polls_invariant [OF _ assms(3), of samples]
  unfolding assms(2) by blast

end
