(* ===== verification/Servo.thy ===== *)
theory Servo
  imports Float64_Real
begin

text \<open>
  A saturated proportional controller settles, whatever the distance and the motion it starts from: an
  analysis over the reals of a step that is known up to rounding.  A start that is too fast is first
  stopped.  Then the step accelerates towards its target by at most 5, cruises at a speed of at most 2,
  brakes too late (the desired speed of 8 per unit of error falls faster than 5 allows), swings past
  the target by at most 0.2, returns, and from then on follows the desired speed, so that the error
  shrinks by the factor \<open>1 - 8 h\<close>.  Each phase has an invariant and a measure (\<open>bounded_exit\<close>).
\<close>

section \<open>Preliminaries\<close>

definition clampr :: "real \<Rightarrow> real \<Rightarrow> real" where
  "clampr z m = max (- m) (min m z)"

lemma clampr_lipschitz: "\<bar>clampr y m - clampr z n\<bar> \<le> \<bar>y - z\<bar> + \<bar>m - n\<bar>"
  by (auto simp: clampr_def max_def min_def abs_if)

lemma clampr_id: "\<bar>z\<bar> \<le> m \<Longrightarrow> clampr z m = z"
  by (auto simp: clampr_def)

lemma clampr_above: "0 \<le> m \<Longrightarrow> m \<le> z \<Longrightarrow> clampr z m = m"
  by (simp add: clampr_def)

lemma clampr_below: "0 \<le> m \<Longrightarrow> z \<le> - m \<Longrightarrow> clampr z m = - m"
  by (simp add: clampr_def)

lemma clampr_bound: "0 \<le> m \<Longrightarrow> \<bar>clampr z m\<bar> \<le> m"
  unfolding clampr_def by linarith

lemma clampr_uminus: "0 \<le> m \<Longrightarrow> clampr (- z) m = - clampr z m"
  unfolding clampr_def by linarith

lemma unit_error_small: "0 < unit_error" "unit_error \<le> 1 / 100000000000000"
  by (simp_all add: unit_error_def)

text \<open>A loop that makes progress in a measure that is bounded below comes to an end.\<close>

lemma bounded_exit:
  fixes M :: "'s \<Rightarrow> real"
  assumes "I s" "0 < c"
    and step: "\<And>s. I s \<Longrightarrow> \<not> Q s \<Longrightarrow> I (f s) \<and> M (f s) \<le> M s - c"
    and bound: "\<And>s. I s \<Longrightarrow> m0 \<le> M s"
  shows "\<exists>n. real n * c \<le> M s - m0 \<and> I ((f ^^ n) s) \<and> Q ((f ^^ n) s)"
proof -
  have "\<exists>n. real n * c \<le> M s - m0 \<and> I ((f ^^ n) s) \<and> Q ((f ^^ n) s)"
    if "I s" "M s - m0 < real k * c" for k s
    using that
  proof (induction k arbitrary: s)
    case 0
    then show ?case using bound [of s] by simp
  next
    case (Suc k)
    show ?case
    proof (cases "Q s")
      case True
      then show ?thesis using Suc.prems(1) bound [of s] by (intro exI [of _ 0]) simp
    next
      case False
      note s = step [OF Suc.prems(1) False]
      have "M (f s) - m0 < real k * c" using s Suc.prems(2) by (simp add: algebra_simps)
      then obtain n where "real n * c \<le> M (f s) - m0" "I ((f ^^ n) (f s))" "Q ((f ^^ n) (f s))"
        using Suc.IH s by blast
      then show ?thesis using s by (intro exI [of _ "Suc n"]) (simp add: funpow_swap1 algebra_simps)
    qed
  qed
  moreover obtain k :: nat where "M s - m0 < real k * c" using reals_Archimedean3 [OF assms(2)] by blast
  ultimately show ?thesis using assms(1) by blast
qed

section \<open>One step\<close>

text \<open>Errors from \<open>lo\<close> to \<open>hi\<close> leave room for the step: no hard stop is reached.\<close>

locale servo =
  fixes step :: "'s \<Rightarrow> 's" and err vel :: "'s \<Rightarrow> real" and ok :: "'s \<Rightarrow> bool" and h lo hi :: real
  assumes h_range: "1 / 12000 \<le> h" "h \<le> 1 / 400"
    and room: "ok s \<Longrightarrow> - 59 / 10 \<le> lo \<and> lo \<le> - 1 / 4 \<and> 1 / 4 \<le> hi \<and> hi \<le> 59 / 10"
    and step_ok: "ok s \<Longrightarrow> lo \<le> err s \<Longrightarrow> err s \<le> hi \<Longrightarrow> \<bar>vel s\<bar> \<le> 2 \<Longrightarrow> ok (step s) \<and> \<bar>vel (step s)\<bar> \<le> 2"
    and vel_step: "ok s \<Longrightarrow> lo \<le> err s \<Longrightarrow> err s \<le> hi \<Longrightarrow> \<bar>vel s\<bar> \<le> 2 \<Longrightarrow>
      \<bar>vel (step s) - (vel s + clampr (clampr (8 * err s) 2 - vel s) (5 * h))\<bar> \<le> 16 * unit_error"
    and err_step: "ok s \<Longrightarrow> lo \<le> err s \<Longrightarrow> err s \<le> hi \<Longrightarrow> \<bar>vel s\<bar> \<le> 2 \<Longrightarrow>
      \<bar>err (step s) - (err s - h * vel (step s))\<bar> \<le> 2 * unit_error"
begin

text \<open>The same, seen in the direction \<open>dir\<close>; \<open>live\<close> bounds the error by \<open>B\<close> on that side.\<close>

definition ahead :: "real \<Rightarrow> 's \<Rightarrow> real" where
  "ahead dir s = dir * err s"

definition rate :: "real \<Rightarrow> 's \<Rightarrow> real" where
  "rate dir s = dir * vel s"

definition roomy :: "'s \<Rightarrow> bool" where
  "roomy s \<longleftrightarrow> ok s \<and> lo \<le> err s \<and> err s \<le> hi \<and> \<bar>vel s\<bar> \<le> 2"

definition live :: "real \<Rightarrow> real \<Rightarrow> 's \<Rightarrow> bool" where
  "live dir B s \<longleftrightarrow> ok s \<and> (dir = 1 \<and> B \<le> hi \<or> dir = - 1 \<and> lo \<le> - B) \<and>
     - 1 / 5 \<le> ahead dir s \<and> ahead dir s \<le> B \<and> \<bar>rate dir s\<bar> \<le> 2"

abbreviation noise :: real where
  "noise \<equiv> 1 / 1000000000000"

lemma signed_step:
  assumes "roomy s" "dir = 1 \<or> dir = - 1"
  defines "v' \<equiv> rate dir (step s)"
  shows "ok (step s)" "\<bar>v'\<bar> \<le> 2"
    and "\<bar>v' - (rate dir s + clampr (clampr (8 * ahead dir s) 2 - rate dir s) (5 * h))\<bar> \<le> noise"
    and "\<bar>ahead dir (step s) - (ahead dir s - h * v')\<bar> \<le> noise"
proof -
  have r: "ok s" "lo \<le> err s" "err s \<le> hi" "\<bar>vel s\<bar> \<le> 2" using assms(1) by (simp_all add: roomy_def)
  note st = step_ok [OF r] and v = vel_step [OF r] and e = err_step [OF r]
  note u = unit_error_small
  show "ok (step s)" using st by simp
  show "\<bar>v'\<bar> \<le> 2" using st assms(2) by (auto simp: v'_def rate_def)
  have "clampr (clampr (8 * ahead dir s) 2 - rate dir s) (5 * h) = dir * clampr (clampr (8 * err s) 2 - vel s) (5 * h)"
    using assms(2) h_range clampr_uminus [of "5 * h" "clampr (8 * err s) 2 - vel s"] clampr_uminus [of 2 "8 * err s"]
    by (auto simp: ahead_def rate_def)
  then have "v' - (rate dir s + clampr (clampr (8 * ahead dir s) 2 - rate dir s) (5 * h)) =
      dir * (vel (step s) - (vel s + clampr (clampr (8 * err s) 2 - vel s) (5 * h)))"
    by (simp add: v'_def rate_def algebra_simps)
  moreover have sg: "\<bar>dir * x\<bar> = \<bar>x\<bar>" for x using assms(2) by (auto simp: abs_mult)
  ultimately show "\<bar>v' - (rate dir s + clampr (clampr (8 * ahead dir s) 2 - rate dir s) (5 * h))\<bar> \<le> noise"
    using v u by simp
  have "ahead dir (step s) - (ahead dir s - h * v') = dir * (err (step s) - (err s - h * vel (step s)))"
    by (simp add: v'_def rate_def ahead_def algebra_simps)
  then show "\<bar>ahead dir (step s) - (ahead dir s - h * v')\<bar> \<le> noise" using e u sg by simp
qed

lemma live_roomy:
  assumes "live dir B s"
  shows "roomy s" "dir = 1 \<or> dir = - 1"
proof -
  have l: "ok s" "dir = 1 \<and> B \<le> hi \<or> dir = - 1 \<and> lo \<le> - B" "- 1 / 5 \<le> ahead dir s" "ahead dir s \<le> B" "\<bar>rate dir s\<bar> \<le> 2"
    using assms by (simp_all add: live_def)
  then show "dir = 1 \<or> dir = - 1" by blast
  show "roomy s" using l room [OF l(1)] by (auto simp: roomy_def ahead_def rate_def)
qed

lemma live_step:
  assumes "live dir B s"
  defines "v' \<equiv> rate dir (step s)"
  shows "ok (step s)" "\<bar>v'\<bar> \<le> 2"
    and "\<bar>v' - (rate dir s + clampr (clampr (8 * ahead dir s) 2 - rate dir s) (5 * h))\<bar> \<le> noise"
    and "\<bar>ahead dir (step s) - (ahead dir s - h * v')\<bar> \<le> noise"
  unfolding v'_def using signed_step [OF live_roomy [OF assms(1)]] by simp_all

text \<open>The two states that end a phase.\<close>

definition tracking :: "'s \<Rightarrow> bool" where
  "tracking s \<longleftrightarrow> ok s \<and> \<bar>8 * err s - vel s\<bar> \<le> 5 * h \<and> \<bar>8 * err s\<bar> \<le> 5 / 8 - h"

definition braking :: "real \<Rightarrow> 's \<Rightarrow> bool" where
  "braking dir s \<longleftrightarrow> clampr (8 * ahead dir s) 2 - rate dir s < - 5 * h"

lemma tracking_signed:
  assumes "live dir B s"
  shows "tracking s \<longleftrightarrow> \<bar>8 * ahead dir s - rate dir s\<bar> \<le> 5 * h \<and> \<bar>8 * ahead dir s\<bar> \<le> 5 / 8 - h"
proof -
  have "dir = 1 \<or> dir = - 1" "ok s" using assms by (auto simp: live_def)
  then show ?thesis by (auto simp: tracking_def ahead_def rate_def)
qed

section \<open>The approach\<close>

text \<open>Accelerating and cruising: the speed never exceeds the desired one by more than one step of it.\<close>

definition approach :: "real \<Rightarrow> real \<Rightarrow> real \<Rightarrow> 's \<Rightarrow> bool" where
  "approach dir B W s \<longleftrightarrow> live dir B s \<and> - noise \<le> rate dir s \<and> rate dir s \<le> W \<and>
     - (8 * (h * rate dir s)) - 10 * noise \<le> 8 * ahead dir s - rate dir s"

definition to_go :: "real \<Rightarrow> 's \<Rightarrow> real" where
  "to_go dir s = ahead dir s / 2 + 14 / 5 * min (ahead dir s) (1 / 4) - rate dir s / 5"

lemma scaled: "0 \<le> x \<Longrightarrow> x / 12000 \<le> h * x" "0 \<le> x \<Longrightarrow> h * x \<le> x / 400" "x \<le> 0 \<Longrightarrow> x / 400 \<le> h * x"
  "x \<le> 0 \<Longrightarrow> h * x \<le> 0"
  using h_range mult_right_mono [of "1 / 12000" h x] mult_right_mono [of h "1 / 400" x]
    mult_right_mono_neg [of h "1 / 400" x] mult_nonneg_nonpos [of h x] by simp_all

lemma approach_ahead:
  assumes "approach dir B W s"
  shows "- 2 * noise \<le> ahead dir s"
proof -
  have a: "- noise \<le> rate dir s" "- (8 * (h * rate dir s)) - 10 * noise \<le> 8 * ahead dir s - rate dir s"
    using assms by (simp_all add: approach_def)
  show ?thesis
  proof (cases "0 \<le> rate dir s")
    case True
    then show ?thesis using a scaled(2) [OF True] by linarith
  next
    case False
    then have "rate dir s \<le> 0" by simp
    then show ?thesis using a scaled(4) [of "rate dir s"] by linarith
  qed
qed

text \<open>The speed of the next step, if it does not brake and does not follow the desired speed yet.\<close>

lemma approach_rate:
  assumes "approach dir B W s" "\<not> braking dir s" "\<not> tracking s"
  defines "v \<equiv> rate dir s" and "v' \<equiv> rate dir (step s)" and "e \<equiv> ahead dir s"
  shows "\<bar>v' - (v + 5 * h)\<bar> \<le> noise \<and> v + 5 * h \<le> 8 * e \<and> v + 5 * h \<le> 2 \<or>
    \<bar>v' - 2\<bar> \<le> noise \<and> 2 \<le> 8 * e \<or>
    \<bar>v' - 8 * e\<bar> \<le> noise \<and> 8 * e < 2 \<and> 31 / 50 \<le> 8 * e \<and> v - 5 * h \<le> 8 * e"
proof -
  have live: "live dir B s" using assms(1) by (simp add: approach_def)
  note e0 = approach_ahead [OF assms(1), folded e_def]
  note st = live_step(3) [OF live, folded v_def v'_def e_def]
  define d where "d = clampr (8 * e) 2"
  have nb: "- 5 * h \<le> d - v" using assms(2) by (simp add: braking_def d_def v_def e_def)
  have d: "2 \<le> 8 * e \<and> d = 2 \<or> 8 * e < 2 \<and> d = 8 * e"
    using e0 clampr_id [of "8 * e" 2] clampr_above [of 2 "8 * e"] unfolding d_def by linarith
  have h0: "0 \<le> 5 * h" using h_range by simp
  show ?thesis
  proof (cases "5 * h \<le> d - v")
    case True
    then have "clampr (d - v) (5 * h) = 5 * h" by (rule clampr_above [OF h0])
    then show ?thesis using st d True unfolding d_def [symmetric] by auto
  next
    case False
    then have "clampr (d - v) (5 * h) = d - v" using nb by (intro clampr_id) simp
    then have v': "\<bar>v' - d\<bar> \<le> noise" using st unfolding d_def [symmetric] by simp
    have "31 / 50 \<le> 8 * e" if "d = 8 * e"
    proof -
      have "\<bar>8 * e - v\<bar> \<le> 5 * h" using False nb that by linarith
      then have "5 / 8 - h < \<bar>8 * e\<bar>"
        using assms(3) tracking_signed [OF live] by (simp add: v_def e_def)
      then show ?thesis using e0 h_range by linarith
    qed
    then show ?thesis using v' d nb by auto
  qed
qed

lemma approach_step:
  assumes "approach dir B W s" "\<not> braking dir s" "\<not> tracking s" "min 2 (8 * B + noise) \<le> W"
  shows "approach dir B W (step s)" and "to_go dir (step s) \<le> to_go dir s - 9 / 10 * h"
proof -
  define e v e' v' where "e = ahead dir s" and "v = rate dir s" and "e' = ahead dir (step s)" and "v' = rate dir (step s)"
  have a: "live dir B s" "- noise \<le> v" "e \<le> B" "v \<le> 2"
    using assms(1) by (auto simp: approach_def live_def e_def v_def abs_le_iff)
  note e0 = approach_ahead [OF assms(1), folded e_def]
  note r = approach_rate [OF assms(1-3), folded e_def v_def v'_def]
  note st = live_step [OF a(1), folded e_def v_def e'_def v'_def]
  have "4 * h \<le> v' \<and> v' \<le> 8 * e + noise"
    using r a(2) h_range by (elim disjE conjE; intro conjI; linarith)
  then have v': "4 * h \<le> v'" "v' \<le> 8 * e + noise" "v' \<le> 2" using st(2) by (simp_all add: abs_le_iff)
  have p: "4 * h / 12000 \<le> h * v'" "h * v' \<le> 1 / 200" using scaled(1,2) [of v'] v' h_range by linarith+
  have e': "e' \<le> e" "- 1 / 5 \<le> e'" using st(4) p e0 h_range by linarith+
  have "- (8 * (h * v')) - 10 * noise \<le> 8 * e' - v'" using st(4) v'(2) by linarith
  moreover have "v' \<le> W" using v'(2,3) a(3) assms(4) by (auto simp: min_def split: if_splits)
  moreover have "live dir B (step s)" using a(1,3) st(1,2) e' by (auto simp: live_def e'_def v'_def)
  ultimately show "approach dir B W (step s)"
    using v'(1) h_range by (simp add: approach_def e'_def v'_def)
  define m m' where "m = min e (1 / 4)" and "m' = min e' (1 / 4)"
  have mm: "m' \<le> m" using e'(1) unfolding m_def m'_def by linarith
  have "e' / 2 + 14 / 5 * m' - v' / 5 \<le> e / 2 + 14 / 5 * m - v / 5 - 9 / 10 * h"
    using r
  proof (elim disjE conjE)
    assume "\<bar>v' - (v + 5 * h)\<bar> \<le> noise"
    then show ?thesis using mm e'(1) h_range by linarith
  next
    assume c: "\<bar>v' - 2\<bar> \<le> noise"
    then have "h * (2 - noise) \<le> h * v'" using h_range by (intro mult_left_mono) linarith+
    then have "h * 2 - h * noise \<le> h * v'" by (simp only: right_diff_distrib)
    moreover have "h * noise \<le> noise" using h_range by simp
    ultimately have "e' \<le> e - 2 * h + 2 * noise" using st(4) by linarith
    then show ?thesis using mm c a(4) h_range by linarith
  next
    assume c: "\<bar>v' - 8 * e\<bar> \<le> noise" "8 * e < 2" "31 / 50 \<le> 8 * e" "v - 5 * h \<le> 8 * e"
    have "h * (31 / 50 - noise) \<le> h * v'" using c h_range by (intro mult_left_mono) linarith+
    then have "h * (31 / 50) - h * noise \<le> h * v'" by (simp only: right_diff_distrib)
    moreover have "h * noise \<le> noise" using h_range by simp
    ultimately have "e' \<le> e - 31 / 50 * h + 2 * noise" using st(4) by linarith
    moreover have "m = e" "m' = e'" using c(2) e'(1) by (simp_all add: m_def m'_def)
    ultimately show ?thesis using c(1,4) h_range by linarith
  qed
  then show "to_go dir (step s) \<le> to_go dir s - 9 / 10 * h"
    by (simp add: to_go_def e_def v_def e'_def v'_def m_def m'_def)
qed

lemma approach_ends:
  assumes "approach dir B W s" "min 2 (8 * B + noise) \<le> W"
  shows "\<exists>n. real n * (9 / 10 * h) \<le> to_go dir s + 41 / 100 \<and>
    approach dir B W ((step ^^ n) s) \<and> (braking dir ((step ^^ n) s) \<or> tracking ((step ^^ n) s))"
proof -
  have "\<exists>n. real n * (9 / 10 * h) \<le> to_go dir s - (- 41 / 100) \<and>
    approach dir B W ((step ^^ n) s) \<and> (braking dir ((step ^^ n) s) \<or> tracking ((step ^^ n) s))"
  proof (rule bounded_exit [where I = "approach dir B W", OF assms(1)])
    show "0 < 9 / 10 * h" using h_range by simp
    show "- 41 / 100 \<le> to_go dir s" if "approach dir B W s" for s
      using approach_ahead [OF that] that by (auto simp: to_go_def approach_def live_def min_def)
  qed (use approach_step assms(2) in auto)
  then show ?thesis by simp
qed

section \<open>Braking\<close>

text \<open>
  While the step brakes, the point at which it would come to rest, \<open>coast\<close>, stays where it is up
  to rounding.  A start at \<open>c\<close> or beyond ends before the speed has fallen below \<open>L\<close>.
\<close>

definition coast :: "real \<Rightarrow> 's \<Rightarrow> real" where
  "coast dir s = ahead dir s + h * rate dir s / 2 - (rate dir s)\<^sup>2 / 10"

definition arc :: "real \<Rightarrow> real \<Rightarrow> real \<Rightarrow> 's \<Rightarrow> bool" where
  "arc dir c L s \<longleftrightarrow> live dir (1 / 4) s \<and> c + rate dir s / 10000000 \<le> coast dir s \<and> L - 1 / 50 \<le> rate dir s \<and>
     (braking dir s \<or> 8 * ahead dir s - rate dir s \<le> - (8 * (h * rate dir s)) + 9 * noise)"

definition turning :: "real \<Rightarrow> real \<Rightarrow> bool" where
  "turning c L \<longleftrightarrow> - 4 / 25 \<le> c \<and> - 79 / 100 \<le> L \<and>
     (\<forall>v. - 2 \<le> v \<longrightarrow> v \<le> L \<longrightarrow> 0 \<le> 8 * c + 4 / 5 * v\<^sup>2 - v - \<bar>v\<bar> / 99)"

lemma turning_points: "turning (- 4 / 25) (- 79 / 100)" "turning (3 / 100) (3 / 10)"
proof -
  have "0 \<le> 8 * (- 4 / 25) + 4 / 5 * v\<^sup>2 - v - \<bar>v\<bar> / 99" if "v \<le> - 79 / 100" for v :: real
  proof -
    have "0 \<le> (v + 79 / 100) * (v + 79 / 100)" by simp
    then have "0 \<le> v\<^sup>2 + 79 / 50 * v + 6241 / 10000" by (simp add: power2_eq_square algebra_simps)
    then show ?thesis using that by linarith
  qed
  then show "turning (- 4 / 25) (- 79 / 100)" by (simp add: turning_def)
  have "0 \<le> 8 * (3 / 100) + 4 / 5 * v\<^sup>2 - v - \<bar>v\<bar> / 99" if "v \<le> 3 / 10" for v :: real
  proof -
    have "0 \<le> (v - 3 / 10) * (v - 3 / 10)" by simp
    then have "0 \<le> v\<^sup>2 - 3 / 5 * v + 9 / 100" by (simp add: power2_eq_square algebra_simps)
    then show ?thesis using that by linarith
  qed
  then show "turning (3 / 100) (3 / 10)" by (simp add: turning_def)
qed

lemma braking_ahead:
  assumes "live dir B s"
  shows "braking dir s \<longleftrightarrow> 8 * ahead dir s - rate dir s < - 5 * h \<and> ahead dir s < 1 / 4"
proof -
  have a: "- 1 / 5 \<le> ahead dir s" "rate dir s \<le> 2" using assms by (auto simp: live_def abs_le_iff)
  show ?thesis
  proof (cases "8 * ahead dir s < 2")
    case True
    then have "clampr (8 * ahead dir s) 2 = 8 * ahead dir s" using a by (intro clampr_id) (simp add: abs_le_iff)
    then show ?thesis using True by (simp add: braking_def)
  next
    case False
    then have "clampr (8 * ahead dir s) 2 = 2" by (intro clampr_above) simp_all
    then show ?thesis using False a h_range by (simp add: braking_def)
  qed
qed

lemma coast_step:
  fixes e v e' v' :: real
  assumes "\<bar>v' - (v - 5 * h)\<bar> \<le> noise" "\<bar>e' - (e - h * v')\<bar> \<le> noise" "\<bar>v'\<bar> \<le> 2"
  shows "e + h * v / 2 - v\<^sup>2 / 10 - 2 * noise \<le> e' + h * v' / 2 - v'\<^sup>2 / 10"
proof -
  define a b where "a = v' - (v - 5 * h)" and "b = e' - (e - h * v')"
  have "e' + h * v' / 2 - v'\<^sup>2 / 10 - (e + h * v / 2 - v\<^sup>2 / 10) = b - h * a / 2 - a * v' / 5 + a\<^sup>2 / 10"
    by (simp add: a_def b_def power2_eq_square field_simps)
  moreover have "\<bar>h * a\<bar> \<le> 1 / 400 * noise" unfolding abs_mult using assms(1) h_range by (intro mult_mono) (simp_all add: a_def)
  moreover have "\<bar>a * v'\<bar> \<le> noise * 2" unfolding abs_mult using assms(1,3) by (intro mult_mono) (simp_all add: a_def)
  moreover have "0 \<le> a\<^sup>2" by simp
  ultimately show ?thesis using assms(2) unfolding b_def [symmetric] by linarith
qed

lemma arc_braking:
  assumes "arc dir c L s" "turning c L" "braking dir s"
  shows "L < rate dir s"
proof (rule ccontr)
  define v e where "v = rate dir s" and "e = ahead dir s"
  assume "\<not> L < rate dir s"
  then have L: "v \<le> L" by (simp add: v_def)
  have a: "live dir (1 / 4) s" "c + v / 10000000 \<le> e + h * v / 2 - v\<^sup>2 / 10" "\<bar>v\<bar> \<le> 2"
    using assms(1) by (simp_all add: arc_def live_def coast_def v_def e_def)
  have b: "8 * e - v < - 5 * h" using braking_ahead [OF a(1)] assms(3) by (simp add: v_def e_def)
  have "0 \<le> 8 * c + 4 / 5 * v\<^sup>2 - v - \<bar>v\<bar> / 99" using assms(2) L a(3) by (simp add: turning_def abs_le_iff)
  moreover have "h * v \<le> \<bar>v\<bar> / 400" using scaled(2,4) [of v] by (cases "0 \<le> v") simp_all
  ultimately show False using a(2,3) b h_range by linarith
qed

lemma arc_step:
  assumes "arc dir c L s" "turning c L" "braking dir s"
  shows "arc dir c L (step s)" and "rate dir (step s) \<le> rate dir s - 49 / 10 * h"
proof -
  define e v e' v' where "e = ahead dir s" and "v = rate dir s" and "e' = ahead dir (step s)" and "v' = rate dir (step s)"
  have a: "live dir (1 / 4) s" "c + v / 10000000 \<le> e + h * v / 2 - v\<^sup>2 / 10"
    using assms(1) by (simp_all add: arc_def coast_def v_def e_def)
  have l: "- 1 / 5 \<le> e" "\<bar>v\<bar> \<le> 2" "dir = 1 \<and> 1 / 4 \<le> hi \<or> dir = - 1 \<and> lo \<le> - (1 / 4)"
    using a(1) by (simp_all add: live_def e_def v_def)
  have L: "L < v" "- 79 / 100 \<le> L" "- 4 / 25 \<le> c" using arc_braking [OF assms] assms(2) by (simp_all add: v_def turning_def)
  have b: "8 * e - v < - 5 * h" "e < 1 / 4" using braking_ahead [OF a(1)] assms(3) by (simp_all add: v_def e_def)
  note st = live_step [OF a(1), folded e_def v_def e'_def v'_def]
  have "clampr (8 * e) 2 = 8 * e" using b l by (intro clampr_id) (simp add: abs_le_iff)
  moreover have "clampr (8 * e - v) (5 * h) = - (5 * h)" using b h_range by (intro clampr_below) simp_all
  ultimately have v': "\<bar>v' - (v - 5 * h)\<bar> \<le> noise" using st(3) by simp
  then have "v' \<le> v - 49 / 10 * h" using h_range by linarith
  then show "rate dir (step s) \<le> rate dir s - 49 / 10 * h" by (simp add: v_def v'_def)
  note co = coast_step [OF v' st(4,2)]
  have low: "L - 1 / 50 \<le> v'" using v' L(1) h_range by linarith
  have p: "- 1 / 400 \<le> h * v'" "0 \<le> v' \<Longrightarrow> 0 \<le> h * v'" "h * v' \<le> 1 / 200"
  proof -
    show "0 \<le> v' \<Longrightarrow> 0 \<le> h * v'" using h_range by simp
    show "- 1 / 400 \<le> h * v'" using scaled(1,3) [of v'] low L(2) by linarith
    show "h * v' \<le> 1 / 200" using scaled(2,4) [of v'] st(2) by linarith
  qed
  have "c + v' / 10000000 \<le> e' + h * v' / 2 - v'\<^sup>2 / 10" using co a(2) v' h_range by linarith
  moreover have "e' \<le> 1 / 4"
  proof (cases "0 \<le> v'")
    case True
    then show ?thesis using st(4) p(2) b(1) l(2) h_range by linarith
  next
    case False
    then show ?thesis using st(4) p(1) b(1) v' h_range by linarith
  qed
  moreover have "- 1 / 5 \<le> e'"
  proof -
    have "0 \<le> v'\<^sup>2" by simp
    then show ?thesis using calculation(1) p(3) st(2) L(3) by linarith
  qed
  moreover have "8 * e' - v' \<le> - (8 * (h * v')) + 9 * noise" using st(4) v' b(1) by linarith
  ultimately show "arc dir c L (step s)"
    using st(1,2) l(3) low by (simp add: arc_def live_def coast_def e'_def v'_def)
qed

lemma arc_ends:
  assumes "arc dir c L s" "turning c L"
  shows "\<exists>n. real n * (49 / 10 * h) \<le> rate dir s - L + 1 / 50 \<and>
    arc dir c L ((step ^^ n) s) \<and> \<not> braking dir ((step ^^ n) s)"
proof -
  have "\<exists>n. real n * (49 / 10 * h) \<le> rate dir s - (L - 1 / 50) \<and>
    arc dir c L ((step ^^ n) s) \<and> \<not> braking dir ((step ^^ n) s)"
  proof (rule bounded_exit [where I = "arc dir c L", OF assms(1)])
    show "0 < 49 / 10 * h" using h_range by simp
  qed (use arc_step assms(2) in \<open>auto simp: arc_def\<close>)
  then show ?thesis by (simp only: diff_diff_eq2 add_diff_eq diff_add_eq)
qed

section \<open>From one phase to the next\<close>

lemma approach_coast:
  assumes "approach dir B W s" "braking dir s"
  defines "v \<equiv> rate dir s"
  shows "v / 8 - v / 800 - v\<^sup>2 / 10 - 3 * noise \<le> coast dir s"
proof -
  have a: "- noise \<le> v" "- (8 * (h * v)) - 10 * noise \<le> 8 * ahead dir s - v"
    using assms(1) by (simp_all add: approach_def v_def)
  moreover have "h * v \<le> v / 400 + noise" using scaled(2,4) [of v] a(1) by (cases "0 \<le> v") simp_all
  ultimately show ?thesis unfolding coast_def v_def [symmetric] by linarith
qed

lemma braking_starts:
  assumes "approach dir B W s" "braking dir s"
  shows "arc dir (- 4 / 25) (- 79 / 100) s"
proof -
  define v where "v = rate dir s"
  have a: "live dir B s" "- noise \<le> v" "v \<le> 2" using assms(1) by (auto simp: approach_def live_def v_def abs_le_iff)
  have e: "ahead dir s < 1 / 4" using braking_ahead [OF a(1)] assms(2) by simp
  have "0 \<le> (2 - v) * (v + noise)" using a(2,3) by (intro mult_nonneg_nonneg) simp_all
  then have "v\<^sup>2 \<le> 2 * v - noise * v + 2 * noise" by (simp add: power2_eq_square field_simps)
  then have "- 4 / 25 + v / 10000000 \<le> coast dir s"
    using approach_coast [OF assms, folded v_def] a(2,3) by linarith
  moreover have "live dir (1 / 4) s" using a(1) e room [of s] by (auto simp: live_def)
  ultimately show ?thesis using a(2) assms(2) by (simp add: arc_def v_def)
qed

lemma braking_starts_slow:
  assumes "approach dir B (21 / 25) s" "braking dir s"
  shows "arc dir (3 / 100) (3 / 10) s"
proof -
  define v where "v = rate dir s"
  have a: "live dir B s" "- (8 * (h * v)) - 10 * noise \<le> 8 * ahead dir s - v" "v \<le> 21 / 25"
    using assms(1) by (auto simp: approach_def v_def)
  have b: "8 * ahead dir s - v < - 5 * h" "ahead dir s < 1 / 4"
    using braking_ahead [OF a(1)] assms(2) by (simp_all add: v_def)
  have low: "31 / 50 \<le> v"
  proof (rule ccontr)
    assume "\<not> 31 / 50 \<le> v"
    then have "h * v \<le> h * (31 / 50)" using h_range by (intro mult_left_mono) simp_all
    then show False using a(2) b(1) h_range by linarith
  qed
  have "0 \<le> (v - 31 / 50) * (21 / 25 - v)" using low a(3) by (intro mult_nonneg_nonneg) simp_all
  then have "v\<^sup>2 \<le> 73 / 50 * v - 651 / 1250" by (simp add: power2_eq_square algebra_simps)
  then have "3 / 100 + v / 10000000 \<le> coast dir s"
    using approach_coast [OF assms, folded v_def] a(3) low by linarith
  moreover have "live dir (1 / 4) s" using a(1) b(2) room [of s] by (auto simp: live_def)
  ultimately show ?thesis using low assms(2) by (simp add: arc_def v_def)
qed

text \<open>Where an arc ends: following the desired speed, or swinging back.\<close>

lemma arc_landing:
  assumes "arc dir c L s" "\<not> braking dir s"
  shows "- 5 * h \<le> 8 * ahead dir s - rate dir s" "8 * ahead dir s - rate dir s \<le> - (8 * (h * rate dir s)) + 9 * noise"
proof -
  have a: "live dir (1 / 4) s" using assms(1) by (simp add: arc_def)
  have "ahead dir s = 1 / 4 \<Longrightarrow> - 5 * h \<le> 8 * ahead dir s - rate dir s"
    using a h_range by (simp add: live_def abs_le_iff)
  then show "- 5 * h \<le> 8 * ahead dir s - rate dir s"
    using assms(2) braking_ahead [OF a] a by (auto simp: live_def)
  show "8 * ahead dir s - rate dir s \<le> - (8 * (h * rate dir s)) + 9 * noise"
    using assms by (simp add: arc_def)
qed

lemma landing_tracks:
  assumes "arc dir c L s" "\<not> braking dir s" "- 3 / 5 \<le> rate dir s"
  shows "tracking s"
proof -
  define e v where "e = ahead dir s" and "v = rate dir s"
  have live: "live dir (1 / 4) s" using assms(1) by (simp add: arc_def)
  note l = arc_landing [OF assms(1,2), folded e_def v_def]
  have v: "- 3 / 5 \<le> v" using assms(3) by (simp add: v_def)
  have "h * (- 3 / 5) \<le> h * v" using v h_range by (intro mult_left_mono) simp_all
  then have band: "8 * e - v \<le> 5 * h" using l(2) h_range by linarith
  have top: "v \<le> 5 / 8 + 1 / 10000000"
  proof (rule ccontr)
    assume "\<not> v \<le> 5 / 8 + 1 / 10000000"
    then have "h * (5 / 8 + 1 / 10000000) \<le> h * v" using h_range by (intro mult_left_mono) simp_all
    then have "5 / 8 * h + 1 / 10000000 * h \<le> h * v" by (simp add: distrib_left)
    then show False using l h_range by linarith
  qed
  have "8 * e \<le> 5 / 8 - h"
  proof (cases "3 / 5 \<le> v")
    case True
    then have "h * (3 / 5) \<le> h * v" using h_range by (intro mult_left_mono) simp_all
    then show ?thesis using l(2) top h_range by linarith
  next
    case False
    then show ?thesis using band h_range by linarith
  qed
  moreover have "- (5 / 8 - h) \<le> 8 * e" using l(1) v h_range by linarith
  ultimately show ?thesis
    using tracking_signed [OF live] l(1) band by (simp add: e_def v_def abs_le_iff)
qed

lemma landing_returns:
  assumes "arc dir c (- 79 / 100) s" "\<not> braking dir s" "rate dir s < - 3 / 5"
  shows "approach (- dir) (13 / 125) (21 / 25) s"
proof -
  define e v where "e = ahead dir s" and "v = rate dir s"
  have live: "live dir (1 / 4) s" and v: "- 81 / 100 \<le> v" "v < - 3 / 5"
    using assms(1,3) by (simp_all add: arc_def v_def)
  note l = arc_landing [OF assms(1,2), folded e_def v_def]
  have r: "ahead (- dir) s = - e" "rate (- dir) s = - v" by (simp_all add: ahead_def rate_def e_def v_def)
  have ok: "ok s" "dir = 1 \<or> dir = - 1" using live by (auto simp: live_def)
  have "v / 400 \<le> h * v" using v by (intro scaled(3)) simp
  then have "e \<le> 0" "- e \<le> 13 / 125" using l v h_range by linarith+
  then have "live (- dir) (13 / 125) s"
    using ok room [OF ok(1)] v by (auto simp: live_def r)
  then show ?thesis using l(2) v by (simp add: approach_def r)
qed

section \<open>Following the desired speed\<close>

lemma tracking_step:
  assumes "tracking s"
  shows "tracking (step s)" and "\<bar>err (step s)\<bar> \<le> (1 - 8 * h) * \<bar>err s\<bar> + 3 * unit_error"
proof -
  let ?e = "err s" and ?v = "vel (step s)"
  have t: "ok s" "\<bar>8 * ?e - vel s\<bar> \<le> 5 * h" "\<bar>8 * ?e\<bar> \<le> 5 / 8 - h" using assms by (simp_all add: tracking_def)
  have r: "lo \<le> ?e" "?e \<le> hi" "\<bar>vel s\<bar> \<le> 2" using t room [OF t(1)] h_range by linarith+
  have "clampr (8 * ?e) 2 = 8 * ?e" "clampr (8 * ?e - vel s) (5 * h) = 8 * ?e - vel s"
    using t(2,3) h_range by (simp_all add: clampr_id)
  then have v: "\<bar>?v - 8 * ?e\<bar> \<le> 16 * unit_error" using vel_step [OF t(1) r] by simp
  note d = err_step [OF t(1) r]
  note u = unit_error_small
  have hv: "\<bar>h * (?v - 8 * ?e)\<bar> \<le> 1 / 400 * (16 * unit_error)"
    unfolding abs_mult using v h_range by (intro mult_mono) simp_all
  have "err (step s) - (1 - 8 * h) * ?e = err (step s) - (?e - h * ?v) - h * (?v - 8 * ?e)"
    by (simp add: algebra_simps)
  then have near: "\<bar>err (step s) - (1 - 8 * h) * ?e\<bar> \<le> 3 * unit_error" using d hv u by linarith
  have scale: "\<bar>(1 - 8 * h) * ?e\<bar> = (1 - 8 * h) * \<bar>?e\<bar>" using h_range by (simp add: abs_mult)
  show shrink: "\<bar>err (step s)\<bar> \<le> (1 - 8 * h) * \<bar>?e\<bar> + 3 * unit_error" using near scale by linarith
  have "h * \<bar>?e\<bar> \<le> h * ((5 / 8 - h) / 8)" using t(3) h_range by (intro mult_left_mono) simp_all
  then have he: "64 * (h * \<bar>?e\<bar>) \<le> 5 * h - 8 * (h * h)" by (simp add: algebra_simps)
  have hh: "1 / 144000000 \<le> h * h" using mult_mono [of "1 / 12000" h "1 / 12000" h] h_range by simp
  have he': "\<bar>h * ?e\<bar> = h * \<bar>?e\<bar>" using h_range by (simp add: abs_mult)
  have near': "\<bar>err (step s) - ?e + 8 * (h * ?e)\<bar> \<le> 3 * unit_error" using near by (simp add: algebra_simps)
  then have "\<bar>8 * err (step s) - ?v\<bar> \<le> 64 * \<bar>h * ?e\<bar> + 40 * unit_error" using v by linarith
  then have band: "\<bar>8 * err (step s) - ?v\<bar> \<le> 5 * h" using he he' hh u by linarith
  have "(1 - 8 * h) * \<bar>?e\<bar> \<le> (1 - 8 * h) * ((5 / 8 - h) / 8)" using t(3) h_range by (intro mult_left_mono) simp_all
  also have "\<dots> = (5 / 8 - h) / 8 - 5 / 8 * h + h * h" by (simp add: field_simps)
  also have "\<dots> \<le> (5 / 8 - h) / 8 - 3 / 5 * h" using scaled(2) [of h] h_range by linarith
  finally have "\<bar>err (step s)\<bar> \<le> (5 / 8 - h) / 8" using shrink h_range u by linarith
  then have "\<bar>8 * err (step s)\<bar> \<le> 5 / 8 - h" by (simp add: abs_mult)
  then show "tracking (step s)" using step_ok [OF t(1) r] band by (simp add: tracking_def)
qed

lemma tracking_steps:
  assumes "tracking s"
  shows "\<bar>err ((step ^^ n) s)\<bar> \<le> (1 - 8 * h) ^ n * \<bar>err s\<bar> + 1 / 2 ^ 35"
proof -
  define c where "c = 3 * unit_error / (8 * h)"
  have c: "(1 - 8 * h) * c + 3 * unit_error = c" using h_range by (simp add: c_def field_simps)
  have "c \<le> 3 * unit_error / (8 * (1 / 12000))"
    unfolding c_def using h_range unit_error_small by (intro divide_left_mono) simp_all
  then have c35: "c \<le> 1 / 2 ^ 35" by (simp add: unit_error_def)
  have "tracking ((step ^^ n) s) \<and> \<bar>err ((step ^^ n) s)\<bar> \<le> (1 - 8 * h) ^ n * \<bar>err s\<bar> + c"
  proof (induction n)
    case 0
    then show ?case using assms h_range unit_error_small by (simp add: c_def)
  next
    case (Suc n)
    let ?s = "(step ^^ n) s"
    have "(1 - 8 * h) * \<bar>err ?s\<bar> \<le> (1 - 8 * h) * ((1 - 8 * h) ^ n * \<bar>err s\<bar> + c)"
      using Suc.IH h_range by (intro mult_left_mono) simp_all
    also have "\<dots> = (1 - 8 * h) ^ Suc n * \<bar>err s\<bar> + (1 - 8 * h) * c" by (simp add: algebra_simps)
    finally have "\<bar>err (step ?s)\<bar> \<le> (1 - 8 * h) ^ Suc n * \<bar>err s\<bar> + c"
      using tracking_step(2) [of ?s] Suc.IH c by linarith
    then show ?case using tracking_step(1) Suc.IH by simp
  qed
  then show ?thesis using c35 by simp
qed

section \<open>From any motion\<close>

text \<open>
  A joint that moves is first stopped, if it is too fast for the desired speed, whichever side the
  target is on.  The stop takes a way of at most \<open>5 / 49\<close> of the square of the speed; then the approach begins.
\<close>

definition stopping :: "real \<Rightarrow> real \<Rightarrow> 's \<Rightarrow> bool" where
  "stopping dir q s \<longleftrightarrow> roomy s \<and> (dir = 1 \<and> lo \<le> q \<or> dir = - 1 \<and> - hi \<le> q) \<and>
     0 \<le> rate dir s \<and> q + 5 / 49 * (rate dir s)\<^sup>2 \<le> ahead dir s"

lemma approach_begins:
  assumes "roomy s" "dir = 1 \<or> dir = - 1" "- noise \<le> rate dir s"
    and "- (8 * (h * rate dir s)) - 10 * noise \<le> 8 * ahead dir s - rate dir s"
  shows "\<exists>B \<le> 59 / 10. approach dir B 2 s"
proof -
  have ok: "ok s" "lo \<le> err s" "err s \<le> hi" "\<bar>vel s\<bar> \<le> 2" using assms(1) by (simp_all add: roomy_def)
  have r: "\<bar>rate dir s\<bar> \<le> 2" using ok(4) assms(2) by (auto simp: rate_def)
  have "h * rate dir s \<le> rate dir s / 400 + noise"
    using scaled(2,4) [of "rate dir s"] assms(3) by (cases "0 \<le> rate dir s") simp_all
  then have "- 1 / 5 \<le> ahead dir s" using assms(3,4) by linarith
  moreover define B where "B = max (1 / 4) (ahead dir s)"
  have "dir = 1 \<and> B \<le> hi \<or> dir = - 1 \<and> lo \<le> - B" "B \<le> 59 / 10" "ahead dir s \<le> B"
    using assms(2) ok(2,3) room [OF ok(1)] by (auto simp: B_def ahead_def)
  ultimately show ?thesis
    using ok(1) r assms(3,4) by (intro exI [of _ B]) (auto simp: approach_def live_def)
qed

lemma stopping_distance:
  fixes e v e' v' :: real
  assumes "\<bar>v' - (v - 5 * h)\<bar> \<le> noise" "\<bar>e' - (e - h * v')\<bar> \<le> noise" "\<bar>v'\<bar> \<le> 2" "0 \<le> v"
  shows "e - 5 / 49 * v\<^sup>2 \<le> e' - 5 / 49 * v'\<^sup>2"
proof -
  define a b where "a = v' - (v - 5 * h)" and "b = e' - (e - h * v')"
  have "e' - 5 / 49 * v'\<^sup>2 - (e - 5 / 49 * v\<^sup>2) =
      b + 125 / 49 * (h * h) + 5 / 49 * a\<^sup>2 + 1 / 49 * (h * v') - 10 / 49 * (a * v') - 50 / 49 * (h * a)"
    by (simp add: a_def b_def power2_eq_square field_simps)
  moreover have "\<bar>h * a\<bar> \<le> 1 / 400 * noise" unfolding abs_mult using assms(1) h_range by (intro mult_mono) (simp_all add: a_def)
  moreover have "\<bar>a * v'\<bar> \<le> noise * 2" unfolding abs_mult using assms(1,3) by (intro mult_mono) (simp_all add: a_def)
  moreover have "h * (- 5 * h - noise) \<le> h * v'" using assms(1,4) h_range by (intro mult_left_mono) linarith+
  then have "- 5 * (h * h) - h * noise \<le> h * v'" by (simp add: right_diff_distrib)
  moreover have "h * noise \<le> noise" using h_range by simp
  moreover have "1 / 144000000 \<le> h * h" using mult_mono [of "1 / 12000" h "1 / 12000" h] h_range by simp
  moreover have "0 \<le> a\<^sup>2" by simp
  ultimately show ?thesis using assms(2) unfolding b_def [symmetric] by linarith
qed

lemma stopping_step:
  assumes "stopping dir q s" "braking dir s"
  defines "e \<equiv> ahead dir s" and "v \<equiv> rate dir s" and "e' \<equiv> ahead dir (step s)" and "v' \<equiv> rate dir (step s)"
  shows "\<bar>v' - (v - 5 * h)\<bar> \<le> noise" "8 * e < v - 5 * h" "\<bar>e' - (e - h * v')\<bar> \<le> noise"
    and "q + 5 / 49 * v'\<^sup>2 \<le> e'" "roomy (step s)"
proof -
  have a: "roomy s" "dir = 1 \<and> lo \<le> q \<or> dir = - 1 \<and> - hi \<le> q" "0 \<le> v" "q + 5 / 49 * v\<^sup>2 \<le> e"
    using assms(1) by (simp_all add: stopping_def e_def v_def)
  have dir: "dir = 1 \<or> dir = - 1" using a(2) by blast
  note st = signed_step [OF a(1) dir, folded e_def v_def e'_def v'_def]
  have "\<bar>v\<bar> \<le> 2" using a(1) dir by (auto simp: roomy_def v_def rate_def)
  then have v2: "v \<le> 2" by simp
  have b: "clampr (8 * e) 2 - v < - 5 * h" using assms(2) by (simp add: braking_def e_def v_def)
  have "8 * e < 2 \<Longrightarrow> 8 * e \<le> clampr (8 * e) 2" by (simp add: clampr_def)
  moreover have "\<not> 8 * e < 2 \<Longrightarrow> clampr (8 * e) 2 = 2" by (intro clampr_above) simp_all
  ultimately show e: "8 * e < v - 5 * h" using b v2 h_range by linarith
  have "clampr (clampr (8 * e) 2 - v) (5 * h) = - (5 * h)" using b h_range by (intro clampr_below) simp_all
  then show v': "\<bar>v' - (v - 5 * h)\<bar> \<le> noise" using st(3) by simp
  show e': "\<bar>e' - (e - h * v')\<bar> \<le> noise" by (rule st(4))
  show q: "q + 5 / 49 * v'\<^sup>2 \<le> e'" using stopping_distance [OF v' e' st(2) a(3)] a(4) by linarith
  have "h * (- 5 * h - noise) \<le> h * v'" using v' a(3) h_range by (intro mult_left_mono) linarith+
  moreover have "h * (5 * h + noise) \<le> 1 / 400 * (5 * h + noise)" using h_range by (intro mult_right_mono) linarith+
  moreover have "h * (- 5 * h - noise) = - (h * (5 * h + noise))" by (simp add: algebra_simps)
  ultimately have "- (h * v') \<le> 1 / 400 * (5 * h + noise)" by linarith
  moreover have "e' \<le> e - h * v' + noise" using e' unfolding abs_le_iff by linarith
  ultimately have "e' \<le> 1 / 4" using e v2 h_range by (simp add: field_simps)
  moreover have "0 \<le> v'\<^sup>2" by simp
  then have "q \<le> e'" using q by linarith
  ultimately show "roomy (step s)"
    using a(2) st(1,2) room [OF st(1)] by (auto simp: roomy_def e'_def v'_def ahead_def rate_def)
qed

lemma stopping_ends:
  assumes "stopping dir q s"
  shows "\<exists>n. real n * (49 / 10 * h) \<le> rate dir s \<and> stopping dir q ((step ^^ n) s) \<and>
    (braking dir ((step ^^ n) s) \<longrightarrow> rate dir (step ((step ^^ n) s)) \<le> 0)"
proof -
  have "\<exists>n. real n * (49 / 10 * h) \<le> rate dir s - 0 \<and> stopping dir q ((step ^^ n) s) \<and>
    (braking dir ((step ^^ n) s) \<longrightarrow> rate dir (step ((step ^^ n) s)) \<le> 0)"
  proof (rule bounded_exit [where I = "stopping dir q", OF assms])
    show "0 < 49 / 10 * h" using h_range by simp
    show "stopping dir q (step s) \<and> rate dir (step s) \<le> rate dir s - 49 / 10 * h"
      if "stopping dir q s" "\<not> (braking dir s \<longrightarrow> rate dir (step s) \<le> 0)" for s
    proof -
      note b = stopping_step [OF that(1)]
      have "rate dir (step s) \<le> rate dir s - 49 / 10 * h" using b(1) that(2) h_range by linarith
      then show ?thesis using that b(4,5) by (auto simp: stopping_def)
    qed
  qed (simp add: stopping_def)
  then show ?thesis by simp
qed

text \<open>How a stop ends: already approaching, one step before it, or turned round.\<close>

lemma stopping_turns:
  assumes "stopping dir q s" "braking dir s" "rate dir (step s) \<le> 0"
  shows "\<exists>B \<le> 59 / 10. approach (- dir) B 2 (step s)"
proof -
  note b = stopping_step [OF assms(1,2)]
  have "ahead (- dir) t = - ahead dir t" "rate (- dir) t = - rate dir t" for t by (simp_all add: ahead_def rate_def)
  moreover have "- dir = 1 \<or> - dir = - 1" using assms(1) by (auto simp: stopping_def)
  moreover have "8 * (h * rate dir (step s)) - 10 * noise \<le> rate dir (step s) - 8 * ahead dir (step s)"
    using b(1-3) unfolding abs_le_iff by linarith
  ultimately show ?thesis using assms(3) by (intro approach_begins [OF b(5)]) simp_all
qed

lemma following_stays:
  fixes e e' v' :: real
  assumes "\<bar>v' - 8 * e\<bar> \<le> noise" "\<bar>e' - (e - h * v')\<bar> \<le> noise" "\<bar>8 * e\<bar> \<le> 2"
  shows "\<bar>e'\<bar> \<le> 1 / 4"
proof -
  have "\<bar>h * (v' - 8 * e)\<bar> \<le> 1 * noise" unfolding abs_mult using assms(1) h_range by (intro mult_mono) simp_all
  moreover have "\<bar>(1 - 8 * h) * e\<bar> \<le> (1 - 8 * h) * (1 / 4)"
    unfolding abs_mult using assms(3) h_range by (intro mult_mono) simp_all
  moreover have "e - h * v' = (1 - 8 * h) * e - h * (v' - 8 * e)" by (simp add: algebra_simps)
  ultimately have "\<bar>e - h * v'\<bar> \<le> (1 - 8 * h) * (1 / 4) + noise" by linarith
  moreover have "\<bar>e'\<bar> \<le> \<bar>e - h * v'\<bar> + \<bar>e' - (e - h * v')\<bar>" by linarith
  ultimately show ?thesis using assms(2) h_range by (simp add: field_simps)
qed

lemma stopping_lands:
  assumes "stopping dir q s" "\<not> braking dir s"
  shows "\<exists>m \<le> 1. \<exists>dir'. \<exists>B \<le> 59 / 10. approach dir' B 2 ((step ^^ m) s)"
proof -
  define e v e' v' where "e = ahead dir s" and "v = rate dir s" and "e' = ahead dir (step s)" and "v' = rate dir (step s)"
  have a: "roomy s" "0 \<le> v" and dir: "dir = 1 \<or> dir = - 1" using assms(1) by (auto simp: stopping_def v_def)
  note st = signed_step [OF a(1) dir, folded e_def v_def e'_def v'_def]
  have v2: "v \<le> 2" using a(1) dir by (auto simp: roomy_def v_def rate_def)
  have nb: "- (5 * h) \<le> clampr (8 * e) 2 - v" using assms(2) by (simp add: braking_def e_def v_def)
  show ?thesis
  proof (cases "- (8 * (h * v)) - 10 * noise \<le> 8 * e - v")
    case True
    then have "\<exists>B \<le> 59 / 10. approach dir B 2 s" using a dir by (intro approach_begins) (simp_all add: e_def v_def)
    then show ?thesis by (intro exI [of _ "0 :: nat"]) auto
  next
    case False
    moreover have "0 \<le> h * v" "h * v \<le> v / 400" using a(2) h_range scaled(2) by simp_all
    ultimately have ev: "8 * e < v" by linarith
    then have "- 2 \<le> 8 * e"
      using nb a(2) h_range clampr_below [of 2 "8 * e"] by (cases "8 * e \<le> - 2") simp_all
    then have d: "clampr (8 * e) 2 = 8 * e" using ev v2 by (intro clampr_id) (simp add: abs_le_iff)
    then have "clampr (8 * e - v) (5 * h) = 8 * e - v" using nb ev h_range by (intro clampr_id) (simp add: abs_le_iff)
    then have v': "\<bar>v' - 8 * e\<bar> \<le> noise" using st(3) d by simp
    have "\<bar>8 * e\<bar> \<le> 2" using \<open>- 2 \<le> 8 * e\<close> ev v2 by (simp add: abs_le_iff)
    then have "\<bar>e'\<bar> \<le> 1 / 4" by (rule following_stays [OF v' st(4)])
    then have r: "roomy (step s)"
      using dir st(1,2) room [OF st(1)] by (auto simp: roomy_def e'_def v'_def ahead_def rate_def abs_le_iff)
    have f: "ahead (- dir) t = - ahead dir t" "rate (- dir) t = - rate dir t" for t by (simp_all add: ahead_def rate_def)
    have "\<exists>dir'. \<exists>B \<le> 59 / 10. approach dir' B 2 (step s)"
    proof (cases "0 \<le> e")
      case True
      then have "\<exists>B \<le> 59 / 10. approach dir B 2 (step s)"
        using v' st(4) unfolding abs_le_iff by (intro approach_begins [OF r dir, folded e'_def v'_def]) linarith+
      then show ?thesis by blast
    next
      case False
      then have "\<exists>B \<le> 59 / 10. approach (- dir) B 2 (step s)"
        using v' st(4) dir unfolding abs_le_iff
        by (intro approach_begins [OF r, of "- dir", unfolded f, folded e'_def v'_def]) linarith+
      then show ?thesis by blast
    qed
    then show ?thesis by (intro exI [of _ "1 :: nat"]) simp
  qed
qed

lemma motion_approaches:
  assumes "roomy s" "lo \<le> err s - 5 / 49 * (vel s)\<^sup>2" "err s + 5 / 49 * (vel s)\<^sup>2 \<le> hi"
  shows "\<exists>n dir. \<exists>B \<le> 59 / 10. real n * h \<le> 21 / 50 \<and> approach dir B 2 ((step ^^ n) s)"
proof -
  define dir where "dir = (if 0 \<le> vel s then 1 else - 1 :: real)"
  define q where "q = (if 0 \<le> vel s then lo else - hi)"
  have "stopping dir q s" using assms by (auto simp: stopping_def dir_def q_def ahead_def rate_def)
  from stopping_ends [OF this] obtain n where n: "real n * (49 / 10 * h) \<le> rate dir s" "stopping dir q ((step ^^ n) s)"
    "braking dir ((step ^^ n) s) \<longrightarrow> rate dir (step ((step ^^ n) s)) \<le> 0" by blast
  let ?s = "(step ^^ n) s"
  have "\<exists>m \<le> 1. \<exists>dir'. \<exists>B \<le> 59 / 10. approach dir' B 2 ((step ^^ m) ?s)"
  proof (cases "braking dir ?s")
    case True
    then obtain B where "B \<le> 59 / 10" "approach (- dir) B 2 (step ?s)" using stopping_turns n(2,3) by blast
    then show ?thesis by (intro exI [of _ "1 :: nat"]) auto
  next
    case False
    then show ?thesis by (rule stopping_lands [OF n(2)])
  qed
  then obtain m dir' B where m: "m \<le> 1" "B \<le> 59 / 10" "approach dir' B 2 ((step ^^ m) ?s)" by blast
  have "rate dir s \<le> 2" using assms(1) by (auto simp: roomy_def rate_def dir_def)
  then have "real n * h \<le> 41 / 100" using n(1) by linarith
  moreover have "real m * h \<le> 1 * (1 / 400)" using m(1) h_range by (intro mult_mono) simp_all
  ultimately have "real (m + n) * h \<le> 21 / 50" by (simp add: distrib_right)
  then show ?thesis using m(2,3) by (intro exI [of _ "m + n"]) (auto simp: funpow_add)
qed

section \<open>Settling\<close>

lemma slow_settles:
  assumes "approach dir (13 / 125) (21 / 25) s"
  shows "\<exists>n. real n * h \<le> 24 / 25 \<and> tracking ((step ^^ n) s)"
proof -
  obtain n where n: "real n * (9 / 10 * h) \<le> to_go dir s + 41 / 100"
    "approach dir (13 / 125) (21 / 25) ((step ^^ n) s)"
    "braking dir ((step ^^ n) s) \<or> tracking ((step ^^ n) s)"
    using approach_ends [OF assms] by auto
  have "to_go dir s \<le> 69 / 200" using assms by (auto simp: to_go_def approach_def live_def min_def)
  then have nh: "real n * h \<le> 21 / 25" using n(1) by linarith
  show ?thesis
  proof (cases "tracking ((step ^^ n) s)")
    case True
    then show ?thesis using nh by (intro exI [of _ n]) simp
  next
    case False
    let ?s = "(step ^^ n) s"
    have "arc dir (3 / 100) (3 / 10) ?s" using braking_starts_slow n(2,3) False by blast
    from arc_ends [OF this turning_points(2)] obtain m where m: "real m * (49 / 10 * h) \<le> rate dir ?s - 3 / 10 + 1 / 50"
      "arc dir (3 / 100) (3 / 10) ((step ^^ m) ?s)" "\<not> braking dir ((step ^^ m) ?s)" by blast
    have "- 3 / 5 \<le> rate dir ((step ^^ m) ?s)" using m(2) by (simp add: arc_def)
    then have "tracking ((step ^^ m) ?s)" by (rule landing_tracks [OF m(2,3)])
    moreover have "rate dir ?s \<le> 21 / 25" using n(2) by (simp add: approach_def)
    then have "real (m + n) * h \<le> 24 / 25" using m(1) nh by (simp add: distrib_right)
    ultimately show ?thesis by (intro exI [of _ "m + n"]) (simp add: funpow_add)
  qed
qed

lemma approach_settles:
  assumes "approach dir B 2 s" "B \<le> 59 / 10"
  shows "\<exists>n. real n * h \<le> 61 / 10 \<and> tracking ((step ^^ n) s)"
proof -
  from approach_ends [OF assms(1)] obtain n where n: "real n * (9 / 10 * h) \<le> to_go dir s + 41 / 100"
    "approach dir B 2 ((step ^^ n) s)" "braking dir ((step ^^ n) s) \<or> tracking ((step ^^ n) s)" by auto
  have "to_go dir s \<le> 183 / 50" using assms by (auto simp: to_go_def approach_def live_def min_def)
  then have nh: "real n * h \<le> 453 / 100" using n(1) by linarith
  show ?thesis
  proof (cases "tracking ((step ^^ n) s)")
    case True
    then show ?thesis using nh by (intro exI [of _ n]) simp
  next
    case False
    let ?s = "(step ^^ n) s"
    have "arc dir (- 4 / 25) (- 79 / 100) ?s" using braking_starts n(2,3) False by blast
    from arc_ends [OF this turning_points(1)] obtain m where m: "real m * (49 / 10 * h) \<le> rate dir ?s - - 79 / 100 + 1 / 50"
      "arc dir (- 4 / 25) (- 79 / 100) ((step ^^ m) ?s)" "\<not> braking dir ((step ^^ m) ?s)" by blast
    let ?t = "(step ^^ m) ?s"
    have "rate dir ?s \<le> 2" using n(2) by (simp add: approach_def)
    then have mh: "real m * h \<le> 3 / 5" using m(1) by linarith
    obtain k where k: "real k * h \<le> 24 / 25" "tracking ((step ^^ k) ?t)"
    proof (cases "- 3 / 5 \<le> rate dir ?t")
      case True
      then have "tracking ((step ^^ 0) ?t)" using landing_tracks [OF m(2,3)] by simp
      then show ?thesis by (intro that [of 0]) simp_all
    next
      case False
      then have "approach (- dir) (13 / 125) (21 / 25) ?t" by (intro landing_returns [OF m(2,3)]) simp
      then show ?thesis using slow_settles that by blast
    qed
    then have "real (k + (m + n)) * h \<le> 61 / 10" using mh nh by (simp add: distrib_right)
    then show ?thesis using k(2) by (intro exI [of _ "k + (m + n)"]) (simp add: funpow_add)
  qed
qed

theorem settles:
  assumes "roomy s" "lo \<le> err s - 5 / 49 * (vel s)\<^sup>2" "err s + 5 / 49 * (vel s)\<^sup>2 \<le> hi" "163 / 25 \<le> real N * h"
  shows "\<bar>err ((step ^^ (N + j)) s)\<bar> \<le> (1 - 8 * h) ^ j / 12 + 1 / 2 ^ 35"
proof -
  obtain n dir B where n: "real n * h \<le> 21 / 50" "approach dir B 2 ((step ^^ n) s)" "B \<le> 59 / 10"
    using motion_approaches [OF assms(1-3)] by blast
  obtain m where "real m * h \<le> 61 / 10" "tracking ((step ^^ m) ((step ^^ n) s))" using approach_settles [OF n(2,3)] by blast
  then have "real (m + n) * h \<le> 163 / 25" "tracking ((step ^^ (m + n)) s)" using n(1) by (simp_all add: distrib_right funpow_add)
  then obtain k where k: "real k * h \<le> 163 / 25" "tracking ((step ^^ k) s)" by blast
  have "real k * h \<le> real N * h" using k(1) assms(4) by linarith
  then have kN: "k \<le> N" using h_range by (simp add: mult_right_le_imp_le)
  define l where "l = N - k + j"
  have steps: "(step ^^ (N + j)) s = (step ^^ l) ((step ^^ k) s)"
    using kN by (simp add: l_def flip: funpow_add comp_apply [of "step ^^ _"])
  have "(1 - 8 * h) ^ l \<le> (1 - 8 * h) ^ j" using h_range by (intro power_decreasing) (simp_all add: l_def)
  moreover have "\<bar>err ((step ^^ k) s)\<bar> \<le> 1 / 12" using k(2) h_range unfolding tracking_def by linarith
  ultimately have "(1 - 8 * h) ^ l * \<bar>err ((step ^^ k) s)\<bar> \<le> (1 - 8 * h) ^ j * (1 / 12)"
    using h_range by (intro mult_mono) simp_all
  then show ?thesis unfolding steps using tracking_steps [OF k(2), of l] by simp
qed

end

end
