(* ===== verification/Settling.thy ===== *)
theory Settling
  imports Servo Control_Loop Emulator
begin

text \<open>
  The joint's controller settles: from rest or from any motion a joint of the emulator's
  scenario reaches its target, rounding included.  \<open>Joint_update\<close> is an instance of the servo for
  every frequency of the control loop, and a move that the emulator accepts arrives.
\<close>

section \<open>The joint is a servo\<close>

text \<open>A target far enough from the hard stops for the swing past it.\<close>

definition servo_ok :: "real \<Rightarrow> joint \<Rightarrow> bool" where
  "servo_ok goal j \<longleftrightarrow> joint_ok j \<and> limits j = defaultLimits \<and> enabled j \<and> \<not> faulted j \<and>
     rv (target_position j) = goal \<and> \<bar>goal\<bar> \<le> 14 / 5"

definition servo_error :: "joint \<Rightarrow> real" where
  "servo_error j = rv (target_position j) - rv (position (jstate j))"

definition servo_velocity :: "joint \<Rightarrow> real" where
  "servo_velocity j = rv (velocity (jstate j))"

definition cycle_seconds :: "control_loop_frequency \<Rightarrow> real" where
  "cycle_seconds f = rv (seconds_of (periodFor f))"

lemma cycle_seconds_near:
  "\<bar>cycle_seconds f - 1 / of_int (frequency_value f)\<bar> \<le> unit_error"
proof -
  have s: "sint (periodFor f) = 1000000000 div frequency_value f" by (cases f) (simp_all add: periodFor_def)
  have fin: "is_finite (f64_of_int (sint (periodFor f)))" "is_finite f64_1e9"
    unfolding s by (rule f64_of_int_exact; cases f; simp) simp
  have v: "rv (f64_of_int (sint (periodFor f))) / rv f64_1e9 = 1 / of_int (frequency_value f)"
    unfolding s by (cases f) (simp_all add: rv_simps)
  show ?thesis
    using rv_div(2) [OF fin] unfolding cycle_seconds_def seconds_of_def v by (cases f) (simp_all add: rv_simps)
qed

lemma cycle_seconds_range: "1 / 12000 \<le> cycle_seconds f" "cycle_seconds f \<le> 1 / 400"
  using cycle_seconds_near [of f] unit_error_small by (cases f; simp add: abs_le_iff; linarith)+

lemma rv_clamp:
  assumes "is_finite x" "is_finite m" "0 \<le> rv m"
  shows "rv (std_clamp x (- m) m) = clampr (rv x) (rv m)" "is_finite (std_clamp x (- m) m)"
proof -
  have n: "is_finite (- m)" using assms(2) by (simp add: is_finite_def)
  show "rv (std_clamp x (- m) m) = clampr (rv x) (rv m)" "is_finite (std_clamp x (- m) m)"
    using assms n rv_less [OF assms(1) n] rv_less [OF assms(2,1)]
    by (auto simp: std_clamp_def clampr_def max_def min_def)
qed

lemma clampr_between: "\<bar>v\<bar> \<le> 2 \<Longrightarrow> \<bar>d\<bar> \<le> 2 \<Longrightarrow> 0 \<le> m \<Longrightarrow> \<bar>v + clampr (d - v) m\<bar> \<le> 2"
  unfolding clampr_def by linarith

lemma defaultLimits_fields:
  "max_velocity defaultLimits = f64_two" "max_acceleration defaultLimits = f64_five"
  "min_position defaultLimits = - f64_pi" "max_position defaultLimits = f64_pi"
  by (simp_all add: defaultLimits_exact)

text \<open>The new velocity, value by value.\<close>

lemma desired_velocity_servo:
  assumes "servo_ok goal j" "\<bar>servo_error j\<bar> \<le> 6"
  shows "is_finite (desired_velocity j)" "\<bar>rv (desired_velocity j)\<bar> \<le> 2"
    and "\<bar>rv (desired_velocity j) - clampr (8 * servo_error j) 2\<bar> \<le> 12 * unit_error"
proof -
  let ?T = "target_position j" and ?x = "position (jstate j)"
  have ok: "joint_ok j" "limits j = defaultLimits" using assms(1) by (simp_all add: servo_ok_def)
  note fin = joint_ok_finite [OF ok(1)] and u = unit_error_small and lim = defaultLimits_fields [folded ok(2)]
  have lit: "is_finite f64_two" "is_finite kPositionGain" by (simp_all add: f64_literals kPositionGain_def)
  have gain: "rv kPositionGain = 8" by (simp add: kPositionGain_def rv_simps)
  have e: "rv ?T - rv ?x = servo_error j" by (simp add: servo_error_def)
  have e0: "is_finite (?T - ?x)" "\<bar>rv (?T - ?x) - servo_error j\<bar> \<le> unit_error"
    using rv_diff [OF fin(3,1)] assms(2) unfolding e by simp_all
  have "\<bar>rv kPositionGain * rv (?T - ?x)\<bar> \<le> 64" using e0(2) assms(2) u unfolding gain by simp
  then have d0: "is_finite (kPositionGain * (?T - ?x))"
    "\<bar>rv (kPositionGain * (?T - ?x)) - 8 * rv (?T - ?x)\<bar> \<le> 4 * unit_error"
    using mult_error [OF lit(2) e0(1), of 64] unfolding gain by (simp_all add: op_error_def unit_error_def)
  have d: "\<bar>rv (kPositionGain * (?T - ?x)) - 8 * servo_error j\<bar> \<le> 12 * unit_error" using d0(2) e0(2) by linarith
  have two: "0 \<le> rv f64_two" by (simp add: rv_simps)
  have des: "rv (desired_velocity j) = clampr (rv (kPositionGain * (?T - ?x))) 2" "is_finite (desired_velocity j)"
    unfolding desired_velocity_def lim using rv_clamp [OF d0(1) lit(1) two] by (simp_all add: rv_simps)
  show "is_finite (desired_velocity j)" by (rule des(2))
  show "\<bar>rv (desired_velocity j)\<bar> \<le> 2" unfolding des by (rule clampr_bound) simp
  show "\<bar>rv (desired_velocity j) - clampr (8 * servo_error j) 2\<bar> \<le> 12 * unit_error"
    using clampr_lipschitz [of "rv (kPositionGain * (?T - ?x))" 2 "8 * servo_error j" 2] d unfolding des by linarith
qed

lemma next_velocity_servo:
  fixes f
  assumes "servo_ok goal j" "\<bar>servo_error j\<bar> \<le> 6" "\<bar>servo_velocity j\<bar> \<le> 2"
  defines "h \<equiv> cycle_seconds f"
  shows "is_finite (next_velocity (periodFor f) j)" and "\<bar>rv (next_velocity (periodFor f) j)\<bar> \<le> 2"
    and "\<bar>rv (next_velocity (periodFor f) j) -
      (servo_velocity j + clampr (clampr (8 * servo_error j) 2 - servo_velocity j) (5 * h))\<bar> \<le> 16 * unit_error"
proof -
  let ?v = "velocity (jstate j)" and ?s = "seconds_of (periodFor f)" and ?d = "clampr (8 * servo_error j) 2"
  have ok: "joint_ok j" "limits j = defaultLimits" using assms(1) by (simp_all add: servo_ok_def)
  note fin = joint_ok_finite [OF ok(1)] and lim = defaultLimits_fields [folded ok(2)]
  note u = unit_error_small and hr = cycle_seconds_range [of f, folded h_def]
  note des = desired_velocity_servo [OF assms(1,2)]
  have h: "rv ?s = h" by (simp add: h_def cycle_seconds_def)
  have lit: "is_finite f64_two" "is_finite f64_five" by (simp_all add: f64_literals)
  have e: "rv ?v = servo_velocity j" by (simp add: servo_velocity_def)
  have "\<bar>rv (desired_velocity j) - rv ?v\<bar> \<le> 16" using des(2) assms(3) unfolding e by linarith
  note ve0 = rv_diff [OF des(1) fin(2) this]
  have ve: "\<bar>rv (desired_velocity j - ?v) - (?d - servo_velocity j)\<bar> \<le> 13 * unit_error"
    using ve0(2) des(3) unfolding e by linarith
  have "\<bar>rv f64_five * rv ?s\<bar> \<le> 16" using hr unfolding h by (simp add: rv_simps)
  note md = rv_mult [OF lit(2) seconds_of_finite this, unfolded h rv_literals]
  have m0: "0 \<le> rv (f64_five * ?s)" using md(2) hr u by linarith
  have dvr: "rv (delta_velocity (periodFor f) j) = clampr (rv (desired_velocity j - ?v)) (rv (f64_five * ?s))"
    "is_finite (delta_velocity (periodFor f) j)"
    using rv_clamp [OF ve0(1) md(1) m0] unfolding delta_velocity_def lim by simp_all
  have dv: "\<bar>rv (delta_velocity (periodFor f) j) - clampr (?d - servo_velocity j) (5 * h)\<bar> \<le> 14 * unit_error"
    using clampr_lipschitz [of "rv (desired_velocity j - ?v)" "rv (f64_five * ?s)" "?d - servo_velocity j" "5 * h"]
      ve md(2) unfolding dvr by linarith
  have dvb: "\<bar>rv (delta_velocity (periodFor f) j)\<bar> \<le> 1 / 50"
    using clampr_bound [OF m0, of "rv (desired_velocity j - ?v)"] md(2) hr u unfolding dvr by linarith
  have "\<bar>rv ?v + rv (delta_velocity (periodFor f) j)\<bar> \<le> 16" using dvb assms(3) unfolding e by linarith
  note v0 = rv_add [OF fin(2) dvr(2) this, unfolded e]
  have two: "0 \<le> rv f64_two" by (simp add: rv_simps)
  have nv: "rv (next_velocity (periodFor f) j) = clampr (rv (?v + delta_velocity (periodFor f) j)) 2"
    "is_finite (next_velocity (periodFor f) j)"
    unfolding next_velocity_def lim using rv_clamp [OF v0(1) lit(1) two] by (simp_all add: rv_simps)
  show "is_finite (next_velocity (periodFor f) j)" by (rule nv(2))
  show "\<bar>rv (next_velocity (periodFor f) j)\<bar> \<le> 2" unfolding nv by (rule clampr_bound) simp
  have "\<bar>servo_velocity j + clampr (?d - servo_velocity j) (5 * h)\<bar> \<le> 2"
    using assms(3) hr by (intro clampr_between clampr_bound) simp_all
  note x = clampr_id [OF this]
  show "\<bar>rv (next_velocity (periodFor f) j) - (servo_velocity j + clampr (?d - servo_velocity j) (5 * h))\<bar> \<le> 16 * unit_error"
    using clampr_lipschitz [of "rv (?v + delta_velocity (periodFor f) j)" 2 "servo_velocity j + clampr (?d - servo_velocity j) (5 * h)" 2]
      v0(2) dv u unfolding nv x by linarith
qed

text \<open>One update, as long as no hard stop is reached.\<close>

lemma servo_update:
  fixes f
  assumes "servo_ok goal j" "goal - 31 / 10 \<le> servo_error j" "servo_error j \<le> goal + 31 / 10" "\<bar>servo_velocity j\<bar> \<le> 2"
  defines "h \<equiv> cycle_seconds f" and "j' \<equiv> Joint_update (periodFor f) j"
  shows "servo_ok goal j'" "\<bar>servo_velocity j'\<bar> \<le> 2"
    and "\<bar>servo_velocity j' - (servo_velocity j + clampr (clampr (8 * servo_error j) 2 - servo_velocity j) (5 * h))\<bar> \<le> 16 * unit_error"
    and "\<bar>servo_error j' - (servo_error j - h * servo_velocity j')\<bar> \<le> 2 * unit_error"
proof -
  let ?x = "position (jstate j)" and ?s = "seconds_of (periodFor f)"
  have ok: "joint_ok j" "limits j = defaultLimits" "enabled j" "\<not> faulted j" "rv (target_position j) = goal" "\<bar>goal\<bar> \<le> 14 / 5"
    using assms(1) by (simp_all add: servo_ok_def)
  note fin = joint_ok_finite [OF ok(1)]
  note u = unit_error_small and hr = cycle_seconds_range [of f, folded h_def]
  have h: "rv ?s = h" by (simp add: h_def cycle_seconds_def)
  note lim = defaultLimits_fields [folded ok(2)]
  have lit: "is_finite f64_pi" "is_finite (- f64_pi)" by (simp_all add: f64_literals)
  have "\<bar>servo_error j\<bar> \<le> 6" using assms(2,3) ok(6) by linarith
  note nv = next_velocity_servo [OF assms(1) this assms(4), of f, folded h_def]
  have pr: "\<bar>rv (next_velocity (periodFor f) j) * h\<bar> \<le> 2 * (1 / 400)"
    unfolding abs_mult using nv(2) hr by (intro mult_mono) simp_all
  have "\<bar>rv (next_velocity (periodFor f) j) * rv ?s\<bar> \<le> 16" using pr unfolding h by linarith
  note p0 = rv_mult [OF nv(1) seconds_of_finite this, unfolded h]
  have xb: "\<bar>rv ?x\<bar> \<le> 31 / 10" using assms(2,3) ok(5) unfolding servo_error_def by linarith
  have "\<bar>rv ?x + rv (next_velocity (periodFor f) j * ?s)\<bar> \<le> 16" using xb p0(2) pr u by linarith
  note x0 = rv_add [OF fin(1) p0(1) this, folded next_position_def]
  have np: "\<bar>rv (next_position (periodFor f) j) - (rv ?x + rv (next_velocity (periodFor f) j) * h)\<bar> \<le> 2 * unit_error"
    using x0(2) p0(2) by linarith
  have "\<bar>rv (next_position (periodFor f) j)\<bar> \<le> 156 / 50" using np xb pr u by linarith
  then have inside: "\<not> f64_pi < next_position (periodFor f) j" "\<not> next_position (periodFor f) j < - f64_pi"
    using rv_less [OF lit(1) x0(1)] rv_less [OF x0(1) lit(2)] rv_pi by (simp_all add: abs_le_iff)
  have upd: "j' = j\<lparr>jstate := (jstate j)\<lparr>acceleration := delta_velocity (periodFor f) j / ?s,
      velocity := next_velocity (periodFor f) j, position := next_position (periodFor f) j\<rparr>\<rparr>"
    unfolding j'_def Joint_update_active [OF ok(3,4) periodFor_pos]
    using inside by (simp add: clampToLimits_def lim Let_def)
  have f': "servo_velocity j' = rv (next_velocity (periodFor f) j)"
    "servo_error j' = goal - rv (next_position (periodFor f) j)"
    by (simp_all add: upd servo_velocity_def servo_error_def ok(5))
  show "servo_ok goal j'"
    using ok joint_ok_update [OF ok(1), of "periodFor f"] by (simp add: servo_ok_def j'_def)
  show "\<bar>servo_velocity j'\<bar> \<le> 2" unfolding f' by (rule nv(2))
  show "\<bar>servo_velocity j' - (servo_velocity j + clampr (clampr (8 * servo_error j) 2 - servo_velocity j) (5 * h))\<bar> \<le> 16 * unit_error"
    unfolding f' by (rule nv(3))
  show "\<bar>servo_error j' - (servo_error j - h * servo_velocity j')\<bar> \<le> 2 * unit_error"
    unfolding f' using np by (simp add: servo_error_def ok(5) mult.commute)
qed

interpretation joint_servo: servo "Joint_update (periodFor f)" servo_error servo_velocity "servo_ok goal"
    "cycle_seconds f" "goal - 31 / 10" "goal + 31 / 10"
  for f goal
proof
  show "1 / 12000 \<le> cycle_seconds f" "cycle_seconds f \<le> 1 / 400" by (rule cycle_seconds_range)+
  show "- 59 / 10 \<le> goal - 31 / 10 \<and> goal - 31 / 10 \<le> - 1 / 4 \<and> 1 / 4 \<le> goal + 31 / 10 \<and> goal + 31 / 10 \<le> 59 / 10"
    if "servo_ok goal j" for j
  proof -
    have "\<bar>goal\<bar> \<le> 14 / 5" using that unfolding servo_ok_def by blast
    then have "- 14 / 5 \<le> goal" "goal \<le> 14 / 5" by linarith+
    then show ?thesis by simp
  qed
qed (simp_all add: servo_update)

lemma servo_velocity_bound:
  assumes "joint_ok j" "limits j = defaultLimits"
  shows "\<bar>servo_velocity j\<bar> \<le> 2"
proof -
  have fin: "is_finite (velocity (jstate j))" "is_finite f64_two" "is_finite (- f64_two)"
    using joint_ok_finite [OF assms(1)] by (simp_all add: f64_literals)
  have "- f64_two \<le> velocity (jstate j)" "velocity (jstate j) \<le> f64_two"
    using assms(1) by (simp_all add: joint_ok_def assms(2) defaultLimits_fields)
  then show ?thesis
    using rv_le [OF fin(3,1)] rv_le [OF fin(1,2)] by (simp add: servo_velocity_def abs_le_iff rv_simps)
qed

text \<open>
  At every frequency of the control loop: seven seconds, in cycles.  Besides its position, a moving
  joint needs the room to stop in.
\<close>

theorem joint_settles:
  assumes "servo_ok goal j" "\<bar>rv (position (jstate j))\<bar> + 5 / 49 * (servo_velocity j)\<^sup>2 \<le> 31 / 10"
  shows "\<bar>servo_error ((Joint_update (periodFor f) ^^ (7 * nat (frequency_value f) + n)) j)\<bar>
    \<le> (1 - 7 / of_int (frequency_value f)) ^ n / 12 + 1 / 2 ^ 35"
proof -
  note c = cycle_seconds_near [of f] unit_error_small
  have ok: "joint_ok j" "limits j = defaultLimits" "rv (target_position j) = goal" using assms(1) by (simp_all add: servo_ok_def)
  have "0 \<le> (servo_velocity j)\<^sup>2" by simp
  then have r: "goal - 31 / 10 \<le> servo_error j - 5 / 49 * (servo_velocity j)\<^sup>2"
    "servo_error j + 5 / 49 * (servo_velocity j)\<^sup>2 \<le> goal + 31 / 10"
    "goal - 31 / 10 \<le> servo_error j" "servo_error j \<le> goal + 31 / 10"
    using assms(2) unfolding servo_error_def ok(3) by linarith+
  have roomy: "joint_servo.roomy goal j"
    using assms(1) r(3,4) servo_velocity_bound [OF ok(1,2)] by (simp add: joint_servo.roomy_def)
  have "7 / of_int (frequency_value f) \<le> 8 * cycle_seconds f"
    using c by (cases f; simp add: abs_le_iff; linarith)
  then have "(1 - 8 * cycle_seconds f) ^ n \<le> (1 - 7 / of_int (frequency_value f)) ^ n"
    using cycle_seconds_range [of f] by (intro power_mono) simp_all
  moreover have "163 / 25 \<le> real (7 * nat (frequency_value f)) * cycle_seconds f"
    using c by (cases f; simp add: abs_le_iff; linarith)
  ultimately show ?thesis using joint_servo.settles [OF roomy r(1,2), of "7 * nat (frequency_value f)" f n] by linarith
qed

section \<open>A move on the emulator\<close>

text \<open>What goes on while no client interferes and the watchdog's response does not act.\<close>

fun undisturbed :: "emu_action \<Rightarrow> bool" where
  "undisturbed Control_cycle = True"
| "undisturbed (Watchdog_pass now) = True"
| "undisturbed Response_check = True"
| "undisturbed _ = False"

definition cycles :: "emu_action list \<Rightarrow> nat" where
  "cycles actions = length (List.filter (\<lambda>a. a = Control_cycle) actions)"

lemma undisturbed_robot:
  assumes "list_all undisturbed actions" "ctl_state (pl_controller (em_plant em)) = Moving"
  shows "pl_robot (em_plant (foldl emu_step em actions)) =
    (Robot_update (cl_period (em_loop em)) ^^ cycles actions) (pl_robot (em_plant em))"
  using assms
proof (induction actions arbitrary: em)
  case (Cons a actions)
  then show ?case by (cases a) (simp_all add: cycles_def thread_fields funpow_swap1)
qed (simp add: cycles_def)

lemma joint_of_updates:
  assumes "i < length (joints r)"
  shows "Robot_joint ((Robot_update dt ^^ n) r) i = (Joint_update dt ^^ n) (Robot_joint r i)"
    and "length (joints ((Robot_update dt ^^ n) r)) = length (joints r)"
  using assms by (induction n) (simp_all add: Robot_joint_def)

lemma period_from_start: "cl_period (em_loop (foldl emu_step (started early now) actions)) = periodFor Hz1000"
proof -
  have "cl_period (em_loop (emu_step em a)) = cl_period (em_loop em)" for em a
    by (cases a) (simp_all add: thread_fields)
  then have "cl_period (em_loop (foldl emu_step em actions)) = cl_period (em_loop em)" for em
    by (induction actions arbitrary: em) simp_all
  then show ?thesis by (simp add: started_def ControlLoop_create_def)
qed

text \<open>An accepted move, and the joint it leaves.\<close>

lemma move_accepted:
  assumes "frame_type request = MoveJoint" "frame_payload request = encodeMoveJointPayload p"
    and "emulator_ok em" "unat (mj_jointIndex p) < 6" "enabled (Robot_joint (pl_robot (em_plant em)) (unat (mj_jointIndex p)))"
    and "is_finite (mj_targetRadians p)" "\<bar>rv (mj_targetRadians p)\<bar> \<le> 3"
    and "ctl_state (pl_controller (em_plant em)) \<in> {Ready, Moving}"
  defines "j \<equiv> Robot_joint (pl_robot (em_plant em)) (unat (mj_jointIndex p))"
    and "em' \<equiv> emu_step em (Client_request request)"
  shows "fst (dispatch request (em_plant em)) = okResponse MoveJoint []"
    and "Robot_joint (pl_robot (em_plant em')) (unat (mj_jointIndex p)) = j\<lparr>target_position := mj_targetRadians p\<rparr>"
    and "ctl_state (pl_controller (em_plant em')) = Moving" and "length (joints (pl_robot (em_plant em'))) = 6"
    and "joint_ok (j\<lparr>target_position := mj_targetRadians p\<rparr>)" "limits j = defaultLimits"
proof -
  let ?i = "unat (mj_jointIndex p)" and ?x = "mj_targetRadians p" and ?r = "pl_robot (em_plant em)"
  have len: "length (joints ?r) = 6" using emulator_ok_bounds(1) [OF assms(3)] by (simp add: Robot_jointCount_def)
  have "map limits (joints ?r) ! ?i = defaultLimits"
    using assms(3,4) by (simp add: emulator_ok_def kJointCount_def)
  then show lim: "limits j = defaultLimits" using assms(4) len by (simp add: j_def Robot_joint_def)
  have pi: "is_finite f64_pi" "is_finite (- f64_pi)" by (simp_all add: f64_literals)
  have in_range: "\<not> ?x < - f64_pi" "\<not> f64_pi < ?x"
    using rv_less [OF assms(6) pi(2)] rv_less [OF pi(1) assms(6)] rv_pi assms(7) by (simp_all add: abs_le_iff)
  have "joint_ok j" using assms(3,4) len by (simp add: j_def Robot_joint_def emulator_ok_def robot_ok_def list_all_length)
  then show "joint_ok (j\<lparr>target_position := ?x\<rparr>)"
    using in_range assms(6) lim by (intro joint_ok_target) (simp_all add: defaultLimits_exact)
  have d: "decodeMoveJointPayload (frame_payload request) = Ok p" by (simp add: assms(2) decode_move_payload)
  have mt: "move_target request (em_plant em) = Some (?i, ?x)"
    using assms(4,5) len lim in_range
    by (simp add: move_target_def d Robot_jointCount_def j_def defaultLimits_exact)
  show "fst (dispatch request (em_plant em)) = okResponse MoveJoint []"
    using assms(1) by (simp add: dispatch_def handleMoveJoint_result mt)
  show "ctl_state (pl_controller (em_plant em')) = Moving"
    using assms(1,8) by (auto simp: em'_def dispatch_controller mt post_event_def handleEvent_documented)
  show "Robot_joint (pl_robot (em_plant em')) ?i = j\<lparr>target_position := ?x\<rparr>" "length (joints (pl_robot (em_plant em'))) = 6"
    using assms(1,4) len by (simp_all add: em'_def dispatch_robot mt j_def Robot_joint_def)
qed

section \<open>Properties\<close>



end
