(* ===== verification/Trajectory_Error.thy ===== *)
theory Trajectory_Error
  imports Trajectory Float64_Real
begin

text \<open>
  The trajectory in doubles follows the exact profile: rounding errors are carried through
  \<open>plan_profile\<close> and \<open>sample_at\<close>, in every phase and across the boundaries between the phases,
  which the two versions may cross at slightly different times.
\<close>

section \<open>Doubles near a real number\<close>

text \<open>The error of one operation of the planner: its results are at most 256.\<close>

definition near :: "f64 \<Rightarrow> real \<Rightarrow> real \<Rightarrow> bool" where
  "near x r e \<longleftrightarrow> is_finite x \<and> \<bar>rv x - r\<bar> \<le> e"

abbreviation ulps :: "real \<Rightarrow> real" where
  "ulps k \<equiv> k / 17592186044416"

lemma op_error_ulps: "moderate 256" "op_error 256 = ulps 1"
  by (simp_all add: op_error_def)

lemma near_exact: "is_finite x \<Longrightarrow> rv x = r \<Longrightarrow> near x r 0"
  by (simp add: near_def)

lemma near_mono: "near x r d \<Longrightarrow> d \<le> e \<Longrightarrow> near x r e"
  by (auto simp: near_def)

lemma near_finite: "near x r e \<Longrightarrow> is_finite x"
  by (simp add: near_def)

lemma near_uminus: "near x r e \<Longrightarrow> near (- x) (- r) e"
  by (simp add: near_def abs_minus_commute)

lemma rv_abs: "rv \<bar>x\<bar> = \<bar>rv x\<bar>"
  by (simp add: rv_def)

lemma near_abs: "near x r e \<Longrightarrow> near \<bar>x\<bar> \<bar>r\<bar> e"
  by (auto simp: near_def rv_abs)

lemma near_add:
  assumes "near x r d" "near y s e" "\<bar>r + s\<bar> + d + e \<le> 256" "d + e + ulps 1 \<le> f"
  shows "near (x + y) (r + s) f"
proof -
  have x: "is_finite x" "\<bar>rv x - r\<bar> \<le> d" and y: "is_finite y" "\<bar>rv y - s\<bar> \<le> e"
    using assms(1,2) by (simp_all add: near_def)
  have "\<bar>rv x + rv y\<bar> \<le> 256" using x(2) y(2) assms(3) by linarith
  note a = add_error [OF x(1) y(1) op_error_ulps(1) this, unfolded op_error_ulps]
  have "\<bar>rv (x + y) - (r + s)\<bar> \<le> f" using a(2) x(2) y(2) assms(4) by linarith
  then show ?thesis using a(1) by (simp add: near_def)
qed

lemma near_diff:
  assumes "near x r d" "near y s e" "\<bar>r - s\<bar> + d + e \<le> 256" "d + e + ulps 1 \<le> f"
  shows "near (x - y) (r - s) f"
  using near_add [OF assms(1) near_uminus [OF assms(2)]] assms(3,4) by (simp add: minus_f64_def)

lemma product_error:
  fixes x y r s P Q d e :: real
  assumes "\<bar>x - r\<bar> \<le> d" "\<bar>y - s\<bar> \<le> e" "\<bar>r\<bar> \<le> P" "\<bar>s\<bar> \<le> Q"
  shows "\<bar>x * y - r * s\<bar> \<le> P * e + Q * d + d * e"
proof -
  have "x * y - r * s = r * (y - s) + s * (x - r) + (x - r) * (y - s)" by (simp add: algebra_simps)
  moreover have "\<bar>r * (y - s)\<bar> \<le> P * e" "\<bar>s * (x - r)\<bar> \<le> Q * d" "\<bar>(x - r) * (y - s)\<bar> \<le> d * e"
    using assms unfolding abs_mult by (auto intro!: mult_mono simp: order_trans [OF abs_ge_zero])
  ultimately show ?thesis by linarith
qed

lemma near_mult:
  assumes "near x r d" "near y s e" "\<bar>r\<bar> \<le> P" "\<bar>s\<bar> \<le> Q" "\<bar>r * s\<bar> + (P * e + Q * d + d * e) \<le> 256"
    "P * e + Q * d + d * e + ulps 1 \<le> f"
  shows "near (x * y) (r * s) f"
proof -
  have x: "is_finite x" "\<bar>rv x - r\<bar> \<le> d" and y: "is_finite y" "\<bar>rv y - s\<bar> \<le> e"
    using assms(1,2) by (simp_all add: near_def)
  note p = product_error [OF x(2) y(2) assms(3,4)]
  have "\<bar>rv x * rv y\<bar> \<le> 256" using p assms(5) by linarith
  note m = mult_error [OF x(1) y(1) op_error_ulps(1) this, unfolded op_error_ulps]
  have "\<bar>rv (x * y) - r * s\<bar> \<le> f" using m(2) p assms(6) by linarith
  then show ?thesis using m(1) by (simp add: near_def)
qed

lemma near_div:
  assumes "near x r d" "near y s e" "m \<le> \<bar>s\<bar>" "e < m" "\<bar>r / s\<bar> \<le> Q"
    "Q + (d + Q * e) / (m - e) \<le> 256" "(d + Q * e) / (m - e) + ulps 1 \<le> f"
  shows "near (x / y) (r / s) f"
proof -
  have x: "is_finite x" "\<bar>rv x - r\<bar> \<le> d" and y: "is_finite y" "\<bar>rv y - s\<bar> \<le> e"
    using assms(1,2) by (simp_all add: near_def)
  have nn: "0 \<le> d" "0 \<le> e" "0 \<le> Q" using x(2) y(2) assms(5) by linarith+
  have my: "m - e \<le> \<bar>rv y\<bar>" using y(2) assms(3) by linarith
  have nz: "rv y \<noteq> 0" "s \<noteq> 0" using my assms(3,4) nn by auto
  have "rv x / rv y - r / s = ((rv x - r) - r / s * (rv y - s)) / rv y"
    using nz by (simp add: field_simps)
  moreover have "\<bar>r / s * (rv y - s)\<bar> \<le> Q * e" unfolding abs_mult using assms(5) y(2) nn by (intro mult_mono) simp_all
  then have "\<bar>(rv x - r) - r / s * (rv y - s)\<bar> \<le> d + Q * e" using x(2) by linarith
  then have "\<bar>(rv x - r) - r / s * (rv y - s)\<bar> / \<bar>rv y\<bar> \<le> (d + Q * e) / (m - e)"
    using my assms(4) nn by (intro frac_le) simp_all
  ultimately have q: "\<bar>rv x / rv y - r / s\<bar> \<le> (d + Q * e) / (m - e)" by (simp only: abs_divide)
  have "\<bar>rv x / rv y\<bar> \<le> 256" using q assms(5,6) by linarith
  note v = div_error [OF x(1) y(1) nz(1) op_error_ulps(1) this, unfolded op_error_ulps]
  have "\<bar>rv (x / y) - r / s\<bar> \<le> f" using v(2) q assms(7) by linarith
  then show ?thesis using v(1) by (simp add: near_def)
qed

lemma sqrt_difference:
  fixes x r m :: real
  assumes "0 \<le> x" "0 < m" "m \<le> sqrt r"
  shows "\<bar>sqrt x - sqrt r\<bar> \<le> \<bar>x - r\<bar> / m"
proof -
  have "0 < sqrt r" using assms(2,3) by linarith
  then have r: "0 \<le> r" by simp
  have "(sqrt x - sqrt r) * (sqrt x + sqrt r) = x - r"
    using assms(1) r by (simp add: algebra_simps)
  then have "\<bar>sqrt x - sqrt r\<bar> * \<bar>sqrt x + sqrt r\<bar> = \<bar>x - r\<bar>" by (simp only: abs_mult [symmetric])
  moreover have "m \<le> \<bar>sqrt x + sqrt r\<bar>" using assms(3) real_sqrt_ge_zero [OF assms(1)] by linarith
  then have "\<bar>sqrt x - sqrt r\<bar> * m \<le> \<bar>sqrt x - sqrt r\<bar> * \<bar>sqrt x + sqrt r\<bar>" by (rule mult_left_mono) simp
  ultimately show ?thesis using assms(2) by (simp add: field_simps)
qed

lemma near_sqrt:
  assumes "near x r d" "0 < m" "m \<le> sqrt r" "d < r" "sqrt r + d / m \<le> 32" "d / m + ulps 1 \<le> f"
  shows "near (f64_sqrt x) (sqrt r) f"
proof -
  have x: "is_finite x" "\<bar>rv x - r\<bar> \<le> d" using assms(1) by (simp_all add: near_def)
  have pos: "0 < rv x" using x(2) assms(4) by linarith
  have "\<bar>sqrt (rv x) - sqrt r\<bar> \<le> \<bar>rv x - r\<bar> / m" using pos assms(2,3) by (intro sqrt_difference) simp_all
  also have "\<dots> \<le> d / m" using x(2) assms(2) by (intro divide_right_mono) simp_all
  finally have q: "\<bar>sqrt (rv x) - sqrt r\<bar> \<le> d / m" .
  have "sqrt (rv x) \<le> 256 / 4" using q assms(5) by simp
  note s = sqrt_error [OF x(1) pos op_error_ulps(1) _ this, unfolded op_error_ulps]
  have "\<bar>rv (f64_sqrt x) - sqrt r\<bar> \<le> f" using s(2) q assms(6) by linarith
  then show ?thesis using s(1) by (simp add: near_def)
qed

lemma literals_near: "near f64_two 2 0" "near f64_half (1 / 2) 0" "near 1 1 0" "near 0 0 0"
  "near (F64 0x3E7AD7F29ABCAF48) (1 / 10000000) (1 / 10 ^ 20)"
proof -
  show "near f64_two 2 0" by (rule near_exact) (simp add: f64_literals, simp add: rv_simps)
  show "near f64_half (1 / 2) 0"
    by (rule near_exact; (subst rv_normal [where e = 1021 and f = 0])?) (simp_all add: f64_literals)
  show "near 1 1 0"
    by (rule near_exact; (subst rv_normal [where e = 1022 and f = 0])?) (simp_all add: one_f64_def f64_literals)
  have "is_finite 0" by (simp add: zero_f64_def f64_literals)
  then show "near 0 0 0" by (rule near_exact) simp
  show "near (F64 0x3E7AD7F29ABCAF48) (1 / 10000000) (1 / 10 ^ 20)"
    unfolding near_def
    by (subst rv_normal [where e = 998 and f = 3052186745220936]) (simp_all add: f64_literals)
qed

section \<open>The exact plan\<close>

text \<open>The speed reached and the duration of the cruise, without a case distinction.\<close>

lemma plan_profile_real:
  fixes eps :: real
  assumes "0 < v" "0 < a" "start_pos \<noteq> target_pos"
  defines "tr \<equiv> plan_profile (real_ops eps) start_pos target_pos v a"
    and "d \<equiv> \<bar>target_pos - start_pos\<bar>"
  shows "cruise_velocity tr = min v (sqrt (d * a))"
    and "cruise_duration_s tr = max 0 ((d - v * v / a) / v)"
    and "tr_sign tr = (if start_pos < target_pos then 1 else - 1)"
proof -
  have d: "0 < d" using assms(3) by (simp add: d_def)
  have "cruise_velocity tr = min v (sqrt (d * a)) \<and> cruise_duration_s tr = max 0 ((d - v * v / a) / v)"
  proof (cases "v * v / a \<le> d")
    case True
    then have "v\<^sup>2 \<le> d * a" using assms(2) by (simp add: field_simps power2_eq_square)
    then have "v \<le> sqrt (d * a)" by (rule real_le_rsqrt)
    then show ?thesis using True assms(1,2) assms(3) [symmetric] d
      by (simp add: tr_def plan_profile_def real_ops_def Let_def d_def [symmetric])
  next
    case False
    then have "d * a < v\<^sup>2" using assms(2) by (simp add: field_simps power2_eq_square)
    then have "sqrt (d * a) < v" using assms(1) by (intro real_less_lsqrt) simp_all
    moreover have "(d - v * v / a) / v \<le> 0" using False assms(1) by (simp add: divide_nonpos_pos)
    ultimately show ?thesis using False assms(1,2) assms(3) [symmetric] d
      by (simp add: tr_def plan_profile_def real_ops_def Let_def d_def [symmetric])
  qed
  then show "cruise_velocity tr = min v (sqrt (d * a))" "cruise_duration_s tr = max 0 ((d - v * v / a) / v)"
    by simp_all
  show "tr_sign tr = (if start_pos < target_pos then 1 else - 1)"
    using assms(3) by (auto simp: tr_def plan_profile_def real_ops_def Let_def)
qed

text \<open>
  The two planning branches agree where they meet: close to the boundary the peak velocity is close
  to the limit.
\<close>

lemma branches_meet:
  fixes d v a p :: real
  assumes "0 \<le> d" "1 / 4 \<le> v" "1 / 2 \<le> a" "a \<le> 16"
  defines "p \<equiv> sqrt (d * a)"
  shows "\<bar>p - v\<bar> \<le> 64 * \<bar>d - v * v / a\<bar>"
proof -
  define x where "x = \<bar>d - v * v / a\<bar>"
  have p: "p * p = d * a" "0 \<le> p" using assms(1,3) by (simp_all add: p_def)
  then have "(p - v) * (p + v) = a * (d - v * v / a)" using assms(3) by (simp add: field_simps)
  then have "\<bar>p - v\<bar> * \<bar>p + v\<bar> = \<bar>a\<bar> * x" by (simp only: x_def abs_mult [symmetric])
  moreover have "\<bar>p - v\<bar> * (1 / 4) \<le> \<bar>p - v\<bar> * \<bar>p + v\<bar>" using p(2) assms(2) by (intro mult_left_mono) simp_all
  moreover have "\<bar>a\<bar> * x \<le> 16 * x" using assms(3,4) by (intro mult_right_mono) (simp_all add: x_def)
  ultimately show ?thesis unfolding x_def [symmetric] by simp
qed

lemma cruise_branch:
  fixes d v a e :: real
  assumes "0 \<le> d" "1 / 4 \<le> v" "1 / 2 \<le> a" "a \<le> 16" "v * v / a \<le> d + e" "0 \<le> e"
  shows "\<bar>v - min v (sqrt (d * a))\<bar> \<le> 64 * e"
    and "\<bar>(d - v * v / a) / v - max 0 ((d - v * v / a) / v)\<bar> \<le> 4 * e"
proof -
  show "\<bar>v - min v (sqrt (d * a))\<bar> \<le> 64 * e"
  proof (cases "v \<le> sqrt (d * a)")
    case False
    have "\<not> v * v / a \<le> d"
    proof
      assume "v * v / a \<le> d"
      then have "v\<^sup>2 \<le> d * a" using assms(3) by (simp add: field_simps power2_eq_square)
      then show False using False by (simp add: real_le_rsqrt)
    qed
    then show ?thesis using branches_meet [OF assms(1-4)] assms(5) False by (simp add: min_def)
  qed (use assms(6) in \<open>simp add: min_def\<close>)
  have "- e / v \<le> (d - v * v / a) / v" using assms(2,5) by (intro divide_right_mono) simp_all
  moreover have "e / v \<le> e / (1 / 4)" using assms(2,6) by (intro divide_left_mono) simp_all
  ultimately show "\<bar>(d - v * v / a) / v - max 0 ((d - v * v / a) / v)\<bar> \<le> 4 * e" using assms(6) by (simp add: max_def)
qed

lemma peak_branch:
  fixes d v a e :: real
  assumes "0 \<le> d" "1 / 4 \<le> v" "1 / 2 \<le> a" "a \<le> 16" "d \<le> v * v / a + e" "0 \<le> e"
  shows "\<bar>sqrt (d * a) - min v (sqrt (d * a))\<bar> \<le> 64 * e" and "max 0 ((d - v * v / a) / v) \<le> 4 * e"
proof -
  show "\<bar>sqrt (d * a) - min v (sqrt (d * a))\<bar> \<le> 64 * e"
  proof (cases "sqrt (d * a) \<le> v")
    case False
    have "\<not> d \<le> v * v / a"
    proof
      assume "d \<le> v * v / a"
      then have "d * a \<le> v\<^sup>2" using assms(3) by (simp add: field_simps power2_eq_square)
      then show False using False assms(2) by (simp add: real_le_lsqrt)
    qed
    then show ?thesis using branches_meet [OF assms(1-4)] assms(5) False by (simp add: min_def)
  qed (use assms(6) in \<open>simp add: min_def\<close>)
  have "(d - v * v / a) / v \<le> e / v" using assms(2,5) by (intro divide_right_mono) simp_all
  also have "\<dots> \<le> e / (1 / 4)" using assms(2,6) by (intro divide_left_mono) simp_all
  finally show "max 0 ((d - v * v / a) / v) \<le> 4 * e" using assms(6) by simp
qed

section \<open>The plan in doubles\<close>

definition moderate_move :: "f64 \<Rightarrow> f64 \<Rightarrow> f64 \<Rightarrow> f64 \<Rightarrow> bool" where
  "moderate_move start_pos target_pos v a \<longleftrightarrow>
     is_finite start_pos \<and> is_finite target_pos \<and> is_finite v \<and> is_finite a \<and>
     \<bar>rv start_pos\<bar> \<le> 4 \<and> \<bar>rv target_pos\<bar> \<le> 4 \<and> 1 / 1024 \<le> \<bar>rv target_pos - rv start_pos\<bar> \<and>
     1 / 4 \<le> rv v \<and> rv v \<le> 4 \<and> 1 / 2 \<le> rv a \<and> rv a \<le> 16"

text \<open>A trajectory in doubles whose fields are close to those of an exact one.\<close>

definition near_plan :: "f64 trajectory \<Rightarrow> real trajectory \<Rightarrow> bool" where
  "near_plan tr exact \<longleftrightarrow>
     near (start_position tr) (start_position exact) 0 \<and>
     near (tr_target_position tr) (tr_target_position exact) 0 \<and>
     near (tr_sign tr) (tr_sign exact) 0 \<and>
     near (tr_max_acceleration tr) (tr_max_acceleration exact) 0 \<and>
     near (accel_duration_s tr) (accel_duration_s exact) (ulps 8192) \<and>
     near (cruise_duration_s tr) (cruise_duration_s exact) (ulps 512) \<and>
     near (cruise_velocity tr) (cruise_velocity exact) (ulps 4096) \<and>
     near (accel_distance tr) (accel_distance exact) (ulps 131072)"

text \<open>The ranges of the exact plan.\<close>

lemma moderate_ranges:
  fixes d v a :: real
  assumes "1 / 1024 \<le> d" "d \<le> 8" "1 / 4 \<le> v" "v \<le> 4" "1 / 2 \<le> a" "a \<le> 16"
  shows "1 / 46 \<le> sqrt (d * a)" "sqrt (d * a) \<le> 12" "sqrt (d * a) / a \<le> 4" "v * v / a \<le> 32" "v / a \<le> 8"
    "0 \<le> v * v" "v * v \<le> 16"
proof -
  have "1 / 1024 * (1 / 2) \<le> d * a" using assms by (intro mult_mono) simp_all
  then show "1 / 46 \<le> sqrt (d * a)" by (intro real_le_rsqrt) (simp add: power2_eq_square)
  have "d * a \<le> 8 * 16" using assms by (intro mult_mono) simp_all
  then show "sqrt (d * a) \<le> 12" by (intro real_le_lsqrt) simp_all
  have "d * a \<le> (4 * a)\<^sup>2"
  proof -
    have "d \<le> 16 * a" using assms by linarith
    then have "d * a \<le> 16 * a * a" using assms by (intro mult_right_mono) simp_all
    then show ?thesis by (simp add: power2_eq_square)
  qed
  then have "sqrt (d * a) \<le> 4 * a" using assms by (intro real_le_lsqrt) simp_all
  then show "sqrt (d * a) / a \<le> 4" using assms by (simp add: divide_le_eq)
  show vv: "0 \<le> v * v" "v * v \<le> 16" using assms mult_mono [of v 4 v 4] by simp_all
  have "v * v / a \<le> 16 / (1 / 2)" using vv assms by (intro frac_le) simp_all
  then show "v * v / a \<le> 32" by simp
  have "v / a \<le> 4 / (1 / 2)" using assms by (intro frac_le) simp_all
  then show "v / a \<le> 8" by simp
qed

text \<open>What \<open>plan_profile\<close> computes from \<open>v\<close> and \<open>a\<close> before it chooses a branch.\<close>

lemma planned_inputs:
  assumes "moderate_move start_pos target_pos v a"
  defines "d \<equiv> \<bar>rv target_pos - rv start_pos\<bar>" and "w \<equiv> (v * v) / (f64_two * a)"
  shows "near \<bar>target_pos - start_pos\<bar> d (ulps 1)"
    and "near w (rv v * rv v / (2 * rv a)) (ulps 19)"
    and "near (f64_two * w) (rv v * rv v / rv a) (ulps 39)"
    and "1 / 1024 \<le> d" "d \<le> 8"
proof -
  have m: "near start_pos (rv start_pos) 0" "near target_pos (rv target_pos) 0" "near v (rv v) 0" "near a (rv a) 0"
    "\<bar>rv start_pos\<bar> \<le> 4" "\<bar>rv target_pos\<bar> \<le> 4" "1 / 4 \<le> rv v" "rv v \<le> 4" "1 / 2 \<le> rv a" "rv a \<le> 16"
    using assms(1) by (simp_all add: moderate_move_def near_exact)
  show d: "1 / 1024 \<le> d" "d \<le> 8" using m(5,6) assms(1) by (auto simp: moderate_move_def d_def)
  note r = moderate_ranges [OF d m(7-10)]
  have "near (target_pos - start_pos) (rv target_pos - rv start_pos) (ulps 1)"
    using m(5,6) by (intro near_diff [OF m(2,1)]) (linarith | simp)+
  then show "near \<bar>target_pos - start_pos\<bar> d (ulps 1)" unfolding d_def by (rule near_abs)
  have n: "near (v * v) (rv v * rv v) (ulps 1)"
    by (rule near_mult [OF m(3,3), where P = 4 and Q = 4]) (use m(7-10) r in simp_all)
  have q: "near (f64_two * a) (2 * rv a) (ulps 1)"
    by (rule near_mult [OF literals_near(1) m(4), where P = 2 and Q = 16]) (use m(7-10) in simp_all)
  have "rv v * rv v / (2 * rv a) = rv v * rv v / rv a / 2" by simp
  then have le: "\<bar>rv v * rv v / (2 * rv a)\<bar> \<le> 16" using r m(9) by simp
  show w: "near w (rv v * rv v / (2 * rv a)) (ulps 19)"
    unfolding w_def by (rule near_div [OF n q, where m = 1 and Q = 16]) (use m(9) le in simp_all)
  have "near (f64_two * w) (2 * (rv v * rv v / (2 * rv a))) (ulps 39)"
    by (rule near_mult [OF literals_near(1) w, where P = 2 and Q = 16]) (use le in \<open>simp_all add: abs_mult\<close>)
  then show "near (f64_two * w) (rv v * rv v / rv a) (ulps 39)" by simp
qed

text \<open>The fields of the cruising branch, and of the branch that peaks below the limit.\<close>

lemma cruising_fields:
  assumes "moderate_move start_pos target_pos v a"
  defines "d \<equiv> \<bar>rv target_pos - rv start_pos\<bar>" and "w \<equiv> (v * v) / (f64_two * a)"
  assumes "f64_two * w \<le> \<bar>target_pos - start_pos\<bar>"
  defines "p \<equiv> min (rv v) (sqrt (d * rv a))"
  shows "near v p (ulps 4096)" "near (v / a) (p / rv a) (ulps 8192)"
    and "near ((\<bar>target_pos - start_pos\<bar> - f64_two * w) / v) (max 0 ((d - rv v * rv v / rv a) / rv v)) (ulps 512)"
    and "near w (rv a * (p / rv a)\<^sup>2 / 2) (ulps 131072)"
proof -
  have m: "near v (rv v) 0" "near a (rv a) 0" "1 / 4 \<le> rv v" "rv v \<le> 4" "1 / 2 \<le> rv a" "rv a \<le> 16"
    using assms(1) by (simp_all add: moderate_move_def near_exact)
  note i = planned_inputs [OF assms(1), folded d_def w_def]
  note r = moderate_ranges [OF i(4,5) m(3-6)]
  have "rv (f64_two * w) \<le> rv \<bar>target_pos - start_pos\<bar>"
    using assms(4) rv_le [OF near_finite [OF i(3)] near_finite [OF i(1)]] by simp
  then have b: "rv v * rv v / rv a \<le> d + ulps 41" using i(1,3) unfolding near_def by linarith
  note c = cruise_branch [OF _ m(3,5,6) b, folded p_def]
  have vp: "\<bar>rv v - p\<bar> \<le> ulps 2624" using c(1) i(4) by simp
  have "0 \<le> sqrt (d * rv a)" using r(1) by linarith
  then have p: "0 \<le> p" "p \<le> rv v" using m(3) by (simp_all add: p_def)
  show "near v p (ulps 4096)" using vp m(1) by (simp add: near_def)
  have "\<bar>rv v / rv a - p / rv a\<bar> = \<bar>rv v - p\<bar> / rv a"
    using m(5) by (simp add: abs_divide flip: diff_divide_distrib)
  also have "\<dots> \<le> ulps 2624 / (1 / 2)" using vp m(5) by (intro frac_le) simp_all
  finally have va: "\<bar>rv v / rv a - p / rv a\<bar> \<le> ulps 5248" by simp
  have "near (v / a) (rv v / rv a) (ulps 1)"
    by (rule near_div [OF m(1,2), where m = "1 / 2" and Q = 8]) (use m(3-6) r in simp_all)
  then show "near (v / a) (p / rv a) (ulps 8192)" using va unfolding near_def by linarith
  have d8: "\<bar>d - rv v * rv v / rv a\<bar> \<le> 8" using b i(4,5) r(6) m(5) zero_le_divide_iff [of "rv v * rv v" "rv a"] by linarith
  then have cd: "near (\<bar>target_pos - start_pos\<bar> - f64_two * w) (d - rv v * rv v / rv a) (ulps 41)"
    by (intro near_diff [OF i(1,3)]) linarith+
  have "\<bar>(d - rv v * rv v / rv a) / rv v\<bar> \<le> 8 / (1 / 4)" unfolding abs_divide using m(3) d8 by (intro frac_le) simp_all
  then have "near ((\<bar>target_pos - start_pos\<bar> - f64_two * w) / v) ((d - rv v * rv v / rv a) / rv v) (ulps 165)"
    by (intro near_div [OF cd m(1), where m = "1 / 4" and Q = 32]) (use m(3) in simp_all)
  then show "near ((\<bar>target_pos - start_pos\<bar> - f64_two * w) / v) (max 0 ((d - rv v * rv v / rv a) / rv v)) (ulps 512)"
    using c(2) i(4) unfolding near_def by (intro conjI; linarith)
  have "rv v * rv v / (2 * rv a) - rv a * (p / rv a)\<^sup>2 / 2 = (rv v - p) * (rv v + p) / (2 * rv a)"
    using m(5) by (simp add: power2_eq_square field_simps)
  moreover have "\<bar>(rv v - p) * (rv v + p)\<bar> \<le> ulps 2624 * 8"
    unfolding abs_mult using vp p m(4) by (intro mult_mono) simp_all
  then have "\<bar>(rv v - p) * (rv v + p) / (2 * rv a)\<bar> \<le> ulps 2624 * 8 / 1"
    unfolding abs_divide using m(5) by (intro frac_le) simp_all
  ultimately show "near w (rv a * (p / rv a)\<^sup>2 / 2) (ulps 131072)" using i(2) unfolding near_def by (intro conjI; linarith)
qed

lemma peaking_distance:
  assumes "near b a 0" "1 / 2 \<le> a" "a \<le> 16" "near y (r / a) (ulps 1567)" "r / a \<le> 4" "0 \<le> p" "p \<le> r" "p \<le> 4" "r \<le> 12"
    and "\<bar>r - p\<bar> \<le> ulps 2624"
  shows "near (f64_half * b * y * y) (a * (p / a)\<^sup>2 / 2) (ulps 131072)"
proof -
  have r0: "0 \<le> r" "0 \<le> r / a" using assms(2,6,7) by simp_all
  have h: "near (f64_half * b) (1 / 2 * a) (ulps 1)"
    by (rule near_mult [OF literals_near(2) assms(1), where P = 1 and Q = 16]) (use assms(2,3) in simp_all)
  have hs: "1 / 2 * a * (r / a) = r / 2" using assms(2) by simp
  have g: "near (f64_half * b * y) (1 / 2 * a * (r / a)) (ulps 12542)"
    by (rule near_mult [OF h assms(4), where P = 8 and Q = 4], unfold hs) (use assms r0 in simp_all)
  have "r / 2 * (r / a) \<le> 6 * 4" using assms(5,9) r0 by (intro mult_mono) simp_all
  then have f: "near (f64_half * b * y * y) (1 / 2 * a * (r / a) * (r / a)) (ulps 59572)"
    by (intro near_mult [OF g assms(4), where P = 6 and Q = 4], unfold hs) (use assms(2,5,9) r0 in \<open>simp_all add: abs_mult abs_of_nonneg\<close>)
  have "1 / 2 * a * (r / a) * (r / a) - a * (p / a)\<^sup>2 / 2 = (r - p) * (r + p) / (2 * a)"
    using assms(2) by (simp add: power2_eq_square field_simps)
  moreover have "\<bar>(r - p) * (r + p)\<bar> \<le> ulps 2624 * 16"
    unfolding abs_mult using assms(6-10) by (intro mult_mono) simp_all
  then have "\<bar>(r - p) * (r + p) / (2 * a)\<bar> \<le> ulps 2624 * 16 / 1"
    unfolding abs_divide using assms(2) by (intro frac_le) simp_all
  ultimately show ?thesis using f unfolding near_def by linarith
qed

lemma peaking_fields:
  assumes "moderate_move start_pos target_pos v a"
  defines "d \<equiv> \<bar>rv target_pos - rv start_pos\<bar>" and "w \<equiv> (v * v) / (f64_two * a)"
  assumes "\<not> f64_two * w \<le> \<bar>target_pos - start_pos\<bar>"
  defines "p \<equiv> min (rv v) (sqrt (d * rv a))" and "q \<equiv> f64_sqrt (\<bar>target_pos - start_pos\<bar> * a)"
  shows "near q p (ulps 4096)" "near (q / a) (p / rv a) (ulps 8192)"
    and "near 0 (max 0 ((d - rv v * rv v / rv a) / rv v)) (ulps 512)"
    and "near (f64_half * a * (q / a) * (q / a)) (rv a * (p / rv a)\<^sup>2 / 2) (ulps 131072)"
proof -
  have m: "near v (rv v) 0" "near a (rv a) 0" "1 / 4 \<le> rv v" "rv v \<le> 4" "1 / 2 \<le> rv a" "rv a \<le> 16"
    using assms(1) by (simp_all add: moderate_move_def near_exact)
  note i = planned_inputs [OF assms(1), folded d_def w_def]
  note r = moderate_ranges [OF i(4,5) m(3-6)]
  let ?s = "sqrt (d * rv a)"
  have "\<not> rv (f64_two * w) \<le> rv \<bar>target_pos - start_pos\<bar>"
    using assms(4) rv_le [OF near_finite [OF i(3)] near_finite [OF i(1)]] by simp
  then have b: "d \<le> rv v * rv v / rv a + ulps 41" using i(1,3) unfolding near_def by linarith
  note c = peak_branch [OF _ m(3,5,6) b, folded p_def]
  have sp: "\<bar>?s - p\<bar> \<le> ulps 2624" using c(1) i(4) by simp
  have "0 \<le> ?s" using r(1) by linarith
  then have p: "0 \<le> p" "p \<le> rv v" "p \<le> ?s" using m(3) by (simp_all add: p_def)
  have "near (\<bar>target_pos - start_pos\<bar> * a) (d * rv a) (ulps 17)"
    by (rule near_mult [OF i(1) m(2), where P = 8 and Q = 16]) (use i(4,5) m(5,6) mult_mono [of d 8 "rv a" 16] in simp_all)
  note da = this
  have "ulps 17 < d * rv a" using mult_mono [of "1 / 1024" d "1 / 2" "rv a"] i(4) m(5) by linarith
  note root = near_sqrt [OF da _ r(1) this, folded q_def]
  have q: "near q ?s (ulps 783)" by (rule root) (use r(2) in simp_all)
  then show "near q p (ulps 4096)" using sp unfolding near_def by linarith
  have "\<bar>?s / rv a - p / rv a\<bar> = \<bar>?s - p\<bar> / rv a"
    using m(5) by (simp add: abs_divide flip: diff_divide_distrib)
  also have "\<dots> \<le> ulps 2624 / (1 / 2)" using sp m(5) by (intro frac_le) simp_all
  finally have sa: "\<bar>?s / rv a - p / rv a\<bar> \<le> ulps 5248" by simp
  have s0: "0 \<le> ?s / rv a" using r(1) m(5) by (intro divide_nonneg_pos) linarith+
  have qa: "near (q / a) (?s / rv a) (ulps 1567)"
    by (rule near_div [OF q m(2), where m = "1 / 2" and Q = 4]) (use m(5) r(3) s0 in simp_all)
  then show "near (q / a) (p / rv a) (ulps 8192)" using sa unfolding near_def by linarith
  show "near 0 (max 0 ((d - rv v * rv v / rv a) / rv v)) (ulps 512)"
    using c(2) i(4) literals_near(4) unfolding near_def by simp
  show "near (f64_half * a * (q / a) * (q / a)) (rv a * (p / rv a)\<^sup>2 / 2) (ulps 131072)"
    using p m(4) by (intro peaking_distance [OF m(2,5,6) qa r(3) _ _ _ r(2) sp]) linarith+
qed

text \<open>The plan as a whole, and the ranges of the exact one.\<close>

lemma plan_near:
  fixes eps :: real
  assumes "moderate_move start_pos target_pos v a"
  shows "near_plan (plan_profile f64_ops start_pos target_pos v a)
    (plan_profile (real_ops eps) (rv start_pos) (rv target_pos) (rv v) (rv a))"
proof -
  define exact where "exact = plan_profile (real_ops eps) (rv start_pos) (rv target_pos) (rv v) (rv a)"
  define d p where "d = \<bar>rv target_pos - rv start_pos\<bar>" and "p = min (rv v) (sqrt (d * rv a))"
  have m: "0 < rv v" "0 < rv a" "rv start_pos \<noteq> rv target_pos"
    "near start_pos (rv start_pos) 0" "near target_pos (rv target_pos) 0" "near a (rv a) 0"
    using assms by (auto simp: moderate_move_def near_exact)
  note i = planned_inputs [OF assms, folded d_def]
  note e = plan_profile_ok [OF m(1-3), of eps, folded exact_def] plan_profile_real [OF m(1-3), of eps, folded exact_def d_def p_def]
  have A: "accel_duration_s exact = p / rv a" "accel_distance exact = rv a * (p / rv a)\<^sup>2 / 2"
    using e(1,4,7) m(2) by (simp_all add: profile_ok_def field_simps)
  have fin: "is_finite (target_pos - start_pos)" "is_finite 0" "is_finite \<bar>target_pos - start_pos\<bar>"
    using near_finite [OF i(1)] near_finite [OF literals_near(4)] by simp_all
  have dist: "near (target_pos - start_pos) (rv target_pos - rv start_pos) (ulps 1)"
    using assms by (intro near_diff [OF m(5,4)]) (auto simp: moderate_move_def abs_le_iff)
  have pos: "0 < \<bar>target_pos - start_pos\<bar>" "\<not> feq \<bar>target_pos - start_pos\<bar> 0"
  proof -
    show "0 < \<bar>target_pos - start_pos\<bar>" using rv_less [OF fin(2,3)] i(1,4) by (auto simp: near_def)
    then show "\<not> feq \<bar>target_pos - start_pos\<bar> 0" by (simp add: feq_def f64_order)
  qed
  have "0 < target_pos - start_pos \<longleftrightarrow> rv start_pos < rv target_pos"
    using rv_less [OF fin(2,1)] dist i(4) unfolding near_def d_def rv_zero by linarith
  then have sign: "near (if 0 < target_pos - start_pos then 1 else - 1) (tr_sign exact) 0"
    using e(9) literals_near(3) near_uminus [OF literals_near(3)] by simp
  note rest = sign pos m(4-6) e(2-4,7,8) A(1)
  have "near_plan (plan_profile f64_ops start_pos target_pos v a) exact"
  proof (cases "f64_two * ((v * v) / (f64_two * a)) \<le> \<bar>target_pos - start_pos\<bar>")
    case True
    note c = cruising_fields [OF assms True, folded d_def, folded p_def]
    show ?thesis using rest c(1-3) c(4) [folded A(2)] True
      by (simp add: plan_profile_def Let_def f64_ops_def near_plan_def)
  next
    case False
    note c = peaking_fields [OF assms False, folded d_def, folded p_def]
    show ?thesis using rest c(1-3) c(4) [folded A(2)] False
      by (simp add: plan_profile_def Let_def f64_ops_def near_plan_def)
  qed
  then show ?thesis by (simp add: exact_def)
qed

definition moderate_profile :: "real trajectory \<Rightarrow> bool" where
  "moderate_profile tr \<longleftrightarrow> profile_ok tr \<and>
     \<bar>start_position tr\<bar> \<le> 4 \<and> \<bar>tr_target_position tr\<bar> \<le> 4 \<and>
     1 / 2 \<le> tr_max_acceleration tr \<and> tr_max_acceleration tr \<le> 16 \<and>
     1 / 1000 \<le> accel_duration_s tr \<and> accel_duration_s tr \<le> 8 \<and> cruise_duration_s tr \<le> 32 \<and>
     cruise_velocity tr \<le> 4"

lemma plan_moderate:
  fixes eps :: real
  assumes "moderate_move start_pos target_pos v a"
  shows "moderate_profile (plan_profile (real_ops eps) (rv start_pos) (rv target_pos) (rv v) (rv a))"
proof -
  define exact where "exact = plan_profile (real_ops eps) (rv start_pos) (rv target_pos) (rv v) (rv a)"
  define d p where "d = \<bar>rv target_pos - rv start_pos\<bar>" and "p = min (rv v) (sqrt (d * rv a))"
  have m: "0 < rv v" "0 < rv a" "rv start_pos \<noteq> rv target_pos" "1 / 4 \<le> rv v" "rv v \<le> 4" "1 / 2 \<le> rv a" "rv a \<le> 16"
    "\<bar>rv start_pos\<bar> \<le> 4" "\<bar>rv target_pos\<bar> \<le> 4"
    using assms by (auto simp: moderate_move_def)
  note i = planned_inputs [OF assms, folded d_def]
  note r = moderate_ranges [OF i(4,5) m(4-7)]
  note e = plan_profile_ok [OF m(1-3), of eps, folded exact_def] plan_profile_real [OF m(1-3), of eps, folded exact_def d_def p_def]
  have A: "accel_duration_s exact = p / rv a" using e(1,4,7) m(2) by (simp add: profile_ok_def field_simps)
  have p: "1 / 46 \<le> p" "p \<le> 4" "p \<le> rv v" using r(1) m(4,5) by (simp_all add: p_def)
  have "1 / 46 / 16 \<le> p / rv a" using p m(6,7) by (intro frac_le) simp_all
  moreover have "p / rv a \<le> 4 / (1 / 2)" using p m(6,7) by (intro frac_le) simp_all
  moreover have "(d - rv v * rv v / rv a) / rv v \<le> 8 / (1 / 4)"
  proof (cases "rv v * rv v / rv a \<le> d")
    case True
    have "0 \<le> rv v * rv v / rv a" using m(1,2) by simp
    then show ?thesis using True i(5) m(4) by (intro frac_le) simp_all
  next
    case False
    then have "(d - rv v * rv v / rv a) / rv v \<le> 0" using m(1) by (intro divide_nonpos_pos) simp_all
    then show ?thesis by simp
  qed
  ultimately show ?thesis
    using e p m by (simp add: moderate_profile_def exact_def [symmetric] A)
qed

section \<open>The exact profile at and around the phase boundaries\<close>

text \<open>Position and speed of a phase, as functions on the whole time axis.\<close>

fun phase_position :: "nat \<Rightarrow> real trajectory \<Rightarrow> real \<Rightarrow> real" where
  "phase_position 0 tr t = 1 / 2 * tr_max_acceleration tr * t * t"
| "phase_position (Suc 0) tr t = accel_distance tr + cruise_velocity tr * (t - accel_duration_s tr)"
| "phase_position _ tr t =
     (let r = t - accel_duration_s tr - cruise_duration_s tr
      in accel_distance tr + cruise_velocity tr * cruise_duration_s tr + cruise_velocity tr * r -
         1 / 2 * tr_max_acceleration tr * r * r)"

fun phase_speed :: "nat \<Rightarrow> real trajectory \<Rightarrow> real \<Rightarrow> real" where
  "phase_speed 0 tr t = tr_max_acceleration tr * t"
| "phase_speed (Suc 0) tr t = cruise_velocity tr"
| "phase_speed _ tr t =
     cruise_velocity tr - tr_max_acceleration tr * (t - accel_duration_s tr - cruise_duration_s tr)"

text \<open>A time that is in a phase, or at most \<open>e\<close> outside of it.\<close>

definition in_phase :: "nat \<Rightarrow> real trajectory \<Rightarrow> real \<Rightarrow> real \<Rightarrow> bool" where
  "in_phase k tr e t \<longleftrightarrow>
     (let A = accel_duration_s tr; B = A + cruise_duration_s tr
      in k = 0 \<and> t \<le> A + e \<or> k = 1 \<and> A - e \<le> t \<and> t \<le> B + e \<or> k = 2 \<and> B - e \<le> t)"

text \<open>A phase as a whole: the parabolas it takes off the first one.\<close>

lemma phase_parabolas:
  assumes "profile_ok tr"
  defines "x \<equiv> \<lambda>t. t - accel_duration_s tr" and "a \<equiv> tr_max_acceleration tr"
  defines "y \<equiv> \<lambda>t. x t - cruise_duration_s tr"
  shows "phase_position k tr t = a / 2 * (t\<^sup>2 - (if k = 0 then 0 else (x t)\<^sup>2) - (if k \<le> 1 then 0 else (y t)\<^sup>2))"
    and "phase_speed k tr t = a * (t - (if k = 0 then 0 else x t) - (if k \<le> 1 then 0 else y t))"
proof -
  have ok: "cruise_velocity tr = a * accel_duration_s tr" "accel_distance tr = a * (accel_duration_s tr)\<^sup>2 / 2"
    using assms(1) by (simp_all add: profile_ok_def a_def)
  consider "k = 0" | "k = Suc 0" | n where "k = Suc (Suc n)" by (metis old.nat.exhaust)
  then show "phase_position k tr t = a / 2 * (t\<^sup>2 - (if k = 0 then 0 else (x t)\<^sup>2) - (if k \<le> 1 then 0 else (y t)\<^sup>2))"
    "phase_speed k tr t = a * (t - (if k = 0 then 0 else x t) - (if k \<le> 1 then 0 else y t))"
    by (cases; simp add: ok x_def y_def a_def [symmetric] Let_def power2_eq_square field_simps)+
qed

lemma phase_error:
  assumes "profile_ok tr" "in_phase k tr e t" "0 \<le> e"
  shows "\<bar>phase_position k tr t - progress tr t\<bar> \<le> tr_max_acceleration tr * e\<^sup>2"
    and "\<bar>phase_speed k tr t - speed tr t\<bar> \<le> tr_max_acceleration tr * (2 * e)"
proof -
  define a x y where "a = tr_max_acceleration tr" and "x = t - accel_duration_s tr"
    and "y = x - cruise_duration_s tr"
  note f = progress_parabolas [OF assms(1), of t, folded a_def x_def, folded y_def]
    phase_parabolas [OF assms(1), of k t, folded a_def x_def, folded y_def]
  have ok: "0 < a" "y \<le> x" using assms(1) by (simp_all add: profile_ok_def a_def y_def)
  have above: "(max 0 z)\<^sup>2 \<le> e\<^sup>2 \<and> 0 \<le> (max 0 z)\<^sup>2 \<and> 0 \<le> max 0 z \<and> max 0 z \<le> e" if "z \<le> e" for z
    using that assms(3) by (simp add: max_def)
  have below: "z\<^sup>2 - (max 0 z)\<^sup>2 \<le> e\<^sup>2 \<and> 0 \<le> z\<^sup>2 - (max 0 z)\<^sup>2 \<and> z \<le> max 0 z \<and> max 0 z - z \<le> e" if "- e \<le> z" for z
    using that assms(3) by (auto simp: max_def abs_le_square_iff [symmetric])
  consider "k = 0" "x \<le> e" "y \<le> e" | "k = 1" "- e \<le> x" "y \<le> e" | "k = 2" "- e \<le> x" "- e \<le> y"
    using assms(2) ok(2) by (auto simp: in_phase_def Let_def x_def y_def)
  then have d: "\<bar>(t\<^sup>2 - (if k = 0 then 0 else x\<^sup>2) - (if k \<le> 1 then 0 else y\<^sup>2)) - (t\<^sup>2 - (max 0 x)\<^sup>2 - (max 0 y)\<^sup>2)\<bar> \<le> 2 * e\<^sup>2 \<and>
    \<bar>(t - (if k = 0 then 0 else x) - (if k \<le> 1 then 0 else y)) - (t - max 0 x - max 0 y)\<bar> \<le> 2 * e"
  proof cases
    case 1
    then have k: "(if k = 0 then 0 else c) = 0" "(if k \<le> 1 then 0 else c) = 0" for c :: real by simp_all
    show ?thesis
      unfolding k using above [OF 1(2)] above [OF 1(3)] by (intro conjI; linarith)
  next
    case 2
    then have k: "(if k = 0 then 0 else c) = c" "(if k \<le> 1 then 0 else c) = 0" for c :: real by simp_all
    show ?thesis
      unfolding k using below [OF 2(2)] above [OF 2(3)] by (intro conjI; linarith)
  next
    case 3
    then have k: "(if k = 0 then 0 else c) = c" "(if k \<le> 1 then 0 else c) = c" for c :: real by simp_all
    show ?thesis
      unfolding k using below [OF 3(2)] below [OF 3(3)] by (intro conjI; linarith)
  qed
  have "\<bar>phase_position k tr t - progress tr t\<bar> \<le> a / 2 * (2 * e\<^sup>2)"
    unfolding f(1,3) right_diff_distrib [symmetric] abs_mult using d ok(1) by (intro mult_mono) simp_all
  then show "\<bar>phase_position k tr t - progress tr t\<bar> \<le> tr_max_acceleration tr * e\<^sup>2" by (simp add: a_def)
  show "\<bar>phase_speed k tr t - speed tr t\<bar> \<le> tr_max_acceleration tr * (2 * e)"
    unfolding f(2,4) right_diff_distrib [symmetric] abs_mult a_def [symmetric] using d ok(1) by (intro mult_mono) simp_all
qed

section \<open>Samples in doubles\<close>

text \<open>What the three phases rely on.\<close>

lemma near_plan_fields:
  assumes "near_plan tr exact"
  shows "near (start_position tr) (start_position exact) 0"
    and "near (tr_target_position tr) (tr_target_position exact) 0"
    and "near (tr_sign tr) (tr_sign exact) 0" "near (tr_max_acceleration tr) (tr_max_acceleration exact) 0"
    and "near (accel_duration_s tr) (accel_duration_s exact) (ulps 8192)"
    and "near (cruise_duration_s tr) (cruise_duration_s exact) (ulps 512)"
    and "near (cruise_velocity tr) (cruise_velocity exact) (ulps 4096)"
    and "near (accel_distance tr) (accel_distance exact) (ulps 131072)"
  using assms by (simp_all only: near_plan_def)

lemma moderate_facts:
  assumes "moderate_profile tr"
  defines "A \<equiv> accel_duration_s tr" and "C \<equiv> cruise_duration_s tr" and "a \<equiv> tr_max_acceleration tr"
  shows "profile_ok tr" "1 / 2 \<le> a" "a \<le> 16" "1 / 1000 \<le> A" "A \<le> 8" "0 \<le> C" "C \<le> 32"
    and "cruise_velocity tr = a * A" "0 \<le> a * A" "a * A \<le> 4" "0 \<le> accel_distance tr" "accel_distance tr \<le> 16"
    and "0 \<le> a * A * C" "a * A * C \<le> 128"
    and "\<bar>tr_sign tr\<bar> = 1" "\<bar>start_position tr\<bar> \<le> 4" "\<bar>tr_target_position tr\<bar> \<le> 4"
proof -
  show r: "profile_ok tr" "1 / 2 \<le> a" "a \<le> 16" "1 / 1000 \<le> A" "A \<le> 8" "0 \<le> C" "C \<le> 32"
    "cruise_velocity tr = a * A" "\<bar>tr_sign tr\<bar> = 1" "\<bar>start_position tr\<bar> \<le> 4" "\<bar>tr_target_position tr\<bar> \<le> 4"
    using assms(1) by (auto simp: moderate_profile_def profile_ok_def A_def C_def a_def)
  show V: "0 \<le> a * A" "a * A \<le> 4" using assms(1) r by (simp_all add: moderate_profile_def)
  have d: "accel_distance tr = a * A * A / 2" using r(1) by (simp add: profile_ok_def A_def a_def power2_eq_square)
  have "a * A * A \<le> 4 * 8" using V r by (intro mult_mono) simp_all
  then show "accel_distance tr \<le> 16" by (simp add: d)
  show "0 \<le> accel_distance tr" unfolding d using V r(4) by simp
  show "0 \<le> a * A * C" using V r(6) by simp
  have "a * A * C \<le> 4 * 32" using V r by (intro mult_mono) simp_all
  then show "a * A * C \<le> 128" by simp
qed

lemma sample_accelerating:
  assumes "near_plan tr exact" "moderate_profile exact" "is_finite x" "0 \<le> rv x"
    and "in_phase 0 exact (ulps 16384) (rv x)"
  shows "near (f64_half * tr_max_acceleration tr * x * x) (phase_position 0 exact (rv x)) (ulps 990000)"
    and "near (tr_max_acceleration tr * x) (phase_speed 0 exact (rv x)) (ulps 150000)"
proof -
  note f = near_plan_fields [OF assms(1)] and m = moderate_facts [OF assms(2)]
  let ?a = "tr_max_acceleration exact" and ?A = "accel_duration_s exact"
  have x: "near x (rv x) 0" using assms(3) by (simp add: near_exact)
  have t: "rv x \<le> ?A + ulps 16384" using assms(5) by (simp add: in_phase_def)
  then have x9: "rv x \<le> 9" using m(5) by linarith
  have "?a * rv x \<le> ?a * (?A + ulps 16384)" using t m(2) by (intro mult_left_mono) simp_all
  then have ax: "?a * rv x \<le> 5" "0 \<le> ?a * rv x" using m(2,3,10) assms(4) by (simp_all add: distrib_left)
  show "near (tr_max_acceleration tr * x) (phase_speed 0 exact (rv x)) (ulps 150000)"
    unfolding phase_speed.simps
    by (rule near_mult [OF f(4) x, where P = 16 and Q = 9]) (use m(2,3) assms(4) x9 ax in simp_all)
  have h: "near (f64_half * tr_max_acceleration tr) (1 / 2 * ?a) (ulps 1)"
    by (rule near_mult [OF literals_near(2) f(4), where P = 1 and Q = 16]) (use m(2,3) in simp_all)
  have hx: "near (f64_half * tr_max_acceleration tr * x) (1 / 2 * ?a * rv x) (ulps 10)"
    by (rule near_mult [OF h x, where P = 8 and Q = 9]) (use m(2,3) assms(4) x9 ax in simp_all)
  have "1 / 2 * ?a * rv x * rv x \<le> 5 / 2 * 9" using ax x9 assms(4) by (intro mult_mono) simp_all
  moreover have "0 \<le> 1 / 2 * ?a * rv x * rv x" using ax assms(4) by simp
  ultimately show "near (f64_half * tr_max_acceleration tr * x * x) (phase_position 0 exact (rv x)) (ulps 990000)"
    unfolding phase_position.simps
    by (intro near_mult [OF hx x, where P = 3 and Q = 9]) (use assms(4) x9 ax in simp_all)
qed

lemma sample_cruising:
  assumes "near_plan tr exact" "moderate_profile exact" "is_finite x" "0 \<le> rv x"
    and "in_phase 1 exact (ulps 16384) (rv x)"
  shows "near (accel_distance tr + cruise_velocity tr * (x - accel_duration_s tr)) (phase_position 1 exact (rv x)) (ulps 990000)"
    and "near (cruise_velocity tr) (phase_speed 1 exact (rv x)) (ulps 150000)"
proof -
  note f = near_plan_fields [OF assms(1)] and m = moderate_facts [OF assms(2)]
  let ?a = "tr_max_acceleration exact" and ?A = "accel_duration_s exact" and ?C = "cruise_duration_s exact"
  let ?V = "cruise_velocity exact"
  have x: "near x (rv x) 0" using assms(3) by (simp add: near_exact)
  have t: "- ulps 16384 \<le> rv x - ?A" "rv x - ?A \<le> ?C + ulps 16384"
    using assms(5) by (auto simp: in_phase_def Let_def)
  then have r: "\<bar>rv x - ?A\<bar> \<le> 33" using m(7) by linarith
  have V: "0 \<le> ?V" "?V \<le> 4" using m(8-10) by simp_all
  show "near (cruise_velocity tr) (phase_speed 1 exact (rv x)) (ulps 150000)"
    using near_mono [OF f(7)] by simp
  have i: "near (x - accel_duration_s tr) (rv x - ?A) (ulps 8193)"
    using r by (intro near_diff [OF x f(5)]) linarith+
  have Vr: "\<bar>?V * (rv x - ?A)\<bar> \<le> 4 * 33" unfolding abs_mult using V r by (intro mult_mono) simp_all
  have p: "near (cruise_velocity tr * (x - accel_duration_s tr)) (?V * (rv x - ?A)) (ulps 170000)"
    by (rule near_mult [OF f(7) i, where P = 4 and Q = 33]) (use V r Vr in simp_all)
  have "near (accel_distance tr + cruise_velocity tr * (x - accel_duration_s tr)) (accel_distance exact + ?V * (rv x - ?A)) (ulps 990000)"
    using m(11,12) Vr by (intro near_add [OF f(8) p]) linarith+
  then show "near (accel_distance tr + cruise_velocity tr * (x - accel_duration_s tr)) (phase_position 1 exact (rv x)) (ulps 990000)"
    by simp
qed

text \<open>The time since the cruise, and the parabola of a computed time.\<close>

lemma time_since_cruise:
  assumes "near_plan tr exact" "moderate_profile exact" "is_finite x" "in_phase 2 exact (ulps 16384) (rv x)"
    and "rv x \<le> 2 * accel_duration_s exact + cruise_duration_s exact"
  defines "q \<equiv> rv x - accel_duration_s exact - cruise_duration_s exact"
  shows "\<bar>q\<bar> \<le> 9" "\<bar>tr_max_acceleration exact * q\<bar> \<le> 5"
    and "near (x - accel_duration_s tr - cruise_duration_s tr) q (ulps 8706)"
proof -
  note f = near_plan_fields [OF assms(1)] and m = moderate_facts [OF assms(2)]
  let ?a = "tr_max_acceleration exact" and ?A = "accel_duration_s exact" and ?C = "cruise_duration_s exact"
  have x: "near x (rv x) 0" using assms(3) by (simp add: near_exact)
  have t: "- ulps 16384 \<le> q" "q \<le> ?A" using assms(4,5) by (auto simp: in_phase_def Let_def q_def)
  show q9: "\<bar>q\<bar> \<le> 9" using t m(5) by linarith
  have "?a * q \<le> ?a * ?A" "?a * - ulps 16384 \<le> ?a * q" using t m(2) by (intro mult_left_mono; simp)+
  then show "\<bar>?a * q\<bar> \<le> 5" using m(2,3,10) unfolding abs_le_iff by linarith
  have i: "near (x - accel_duration_s tr) (rv x - ?A) (ulps 8193)"
    using q9 m(6,7) unfolding q_def by (intro near_diff [OF x f(5)]) linarith+
  show "near (x - accel_duration_s tr - cruise_duration_s tr) q (ulps 8706)"
    using q9 unfolding q_def by (intro near_diff [OF i f(6)]) linarith+
qed

lemma parabola_near:
  assumes "near b a 0" "1 / 2 \<le> a" "a \<le> 16" "near r q (ulps 8706)" "\<bar>q\<bar> \<le> 9" "\<bar>a * q\<bar> \<le> 5"
  shows "near (f64_half * b * r * r) (1 / 2 * a * q * q) (ulps 653060)" "\<bar>1 / 2 * a * q * q\<bar> \<le> 5 / 2 * 9"
proof -
  have h: "near (f64_half * b) (1 / 2 * a) (ulps 1)"
    by (rule near_mult [OF literals_near(2) assms(1), where P = 1 and Q = 16]) (use assms(2,3) in simp_all)
  have aq: "\<bar>1 / 2 * a * q\<bar> \<le> 5 / 2" using assms(6) by (simp add: abs_mult)
  have hr: "near (f64_half * b * r) (1 / 2 * a * q) (ulps 69659)"
    by (rule near_mult [OF h assms(4), where P = 8 and Q = 9]) (use assms(2,3,5) aq in \<open>simp_all add: abs_mult\<close>)
  show aqq: "\<bar>1 / 2 * a * q * q\<bar> \<le> 5 / 2 * 9"
    unfolding abs_mult [of _ q] using aq assms(5) by (intro mult_mono) simp_all
  show "near (f64_half * b * r * r) (1 / 2 * a * q * q) (ulps 653060)"
    by (rule near_mult [OF hr assms(4), where P = 3 and Q = 9]) (use assms(5) aq aqq in simp_all)
qed

lemma sample_decelerating:
  assumes "near_plan tr exact" "moderate_profile exact" "is_finite x" "0 \<le> rv x"
    and "in_phase 2 exact (ulps 16384) (rv x)" "rv x \<le> 2 * accel_duration_s exact + cruise_duration_s exact"
  defines "r \<equiv> x - accel_duration_s tr - cruise_duration_s tr"
  shows "near (accel_distance tr + cruise_velocity tr * cruise_duration_s tr + cruise_velocity tr * r -
      f64_half * tr_max_acceleration tr * r * r) (phase_position 2 exact (rv x)) (ulps 990000)"
    and "near (cruise_velocity tr - tr_max_acceleration tr * r) (phase_speed 2 exact (rv x)) (ulps 150000)"
proof -
  note f = near_plan_fields [OF assms(1)] and m = moderate_facts [OF assms(2)]
  let ?a = "tr_max_acceleration exact" and ?A = "accel_duration_s exact" and ?C = "cruise_duration_s exact"
  let ?V = "cruise_velocity exact" and ?d = "accel_distance exact"
  define q where "q = rv x - ?A - ?C"
  note since = time_since_cruise [OF assms(1-3,5,6), folded q_def r_def]
  note q9 = since(1) and aq = since(2) and r = since(3)
  have V: "0 \<le> ?V" "?V \<le> 4" using m(8-10) by simp_all
  have VC: "0 \<le> ?V * ?C" "?V * ?C \<le> 128" using m(8,13,14) by simp_all
  have Vq: "\<bar>?V * q\<bar> \<le> 4 * 9" unfolding abs_mult using V q9 by (intro mult_mono) simp_all
  have c: "near (cruise_velocity tr * cruise_duration_s tr) (?V * ?C) (ulps 133122)"
    by (rule near_mult [OF f(7) f(6), where P = 4 and Q = 32]) (use V VC m(6,7) in simp_all)
  have p: "near (cruise_velocity tr * r) (?V * q) (ulps 71690)"
    by (rule near_mult [OF f(7) r, where P = 4 and Q = 9]) (use V q9 Vq in simp_all)
  have "1 / 2 \<le> ?a" using m(2) by simp
  note hrr = parabola_near [OF f(4) this m(3) r q9 aq]
  have dc: "near (accel_distance tr + cruise_velocity tr * cruise_duration_s tr) (?d + ?V * ?C) (ulps 264195)"
    using m(11,12) VC by (intro near_add [OF f(8) c]) linarith+
  have dcp: "near (accel_distance tr + cruise_velocity tr * cruise_duration_s tr + cruise_velocity tr * r)
      (?d + ?V * ?C + ?V * q) (ulps 335886)"
    using m(11,12) VC Vq by (intro near_add [OF dc p]) linarith+
  have "near (accel_distance tr + cruise_velocity tr * cruise_duration_s tr + cruise_velocity tr * r -
      f64_half * tr_max_acceleration tr * r * r) (?d + ?V * ?C + ?V * q - 1 / 2 * ?a * q * q) (ulps 990000)"
    using m(11,12) VC Vq hrr(2) by (intro near_diff [OF dcp hrr(1)]) linarith+
  then show "near (accel_distance tr + cruise_velocity tr * cruise_duration_s tr + cruise_velocity tr * r -
      f64_half * tr_max_acceleration tr * r * r) (phase_position 2 exact (rv x)) (ulps 990000)"
    by (simp add: numeral_2_eq_2 q_def Let_def)
  have ar: "near (tr_max_acceleration tr * r) (?a * q) (ulps 139298)"
    by (rule near_mult [OF f(4) r, where P = 16 and Q = 9]) (use m(2,3) q9 aq in simp_all)
  have "near (cruise_velocity tr - tr_max_acceleration tr * r) (?V - ?a * q) (ulps 150000)"
    using V aq by (intro near_diff [OF f(7) ar]) linarith+
  then show "near (cruise_velocity tr - tr_max_acceleration tr * r) (phase_speed 2 exact (rv x)) (ulps 150000)"
    by (simp add: numeral_2_eq_2 q_def)
qed

lemma not_feq: "is_finite x \<Longrightarrow> is_finite y \<Longrightarrow> rv x \<noteq> rv y \<Longrightarrow> \<not> feq x y"
  using rv_le [of x y] rv_le [of y x] by (auto simp: feq_def f64_order)

text \<open>The end of the profile, as the program computes it.\<close>

lemma end_near:
  assumes "near_plan tr exact" "moderate_profile exact"
  defines "T \<equiv> 2 * accel_duration_s exact + cruise_duration_s exact"
  shows "near (total_duration f64_ops tr) T (ulps 16898)"
    and "near (total_duration f64_ops tr - kEndpointEpsilonS f64_ops) (T - 1 / 10000000) (ulps 17000)"
    and "near (accel_duration_s tr + cruise_duration_s tr) (accel_duration_s exact + cruise_duration_s exact) (ulps 8705)"
proof -
  note f = near_plan_fields [OF assms(1)] and m = moderate_facts [OF assms(2)]
  have A: "near (f64_two * accel_duration_s tr) (2 * accel_duration_s exact) (ulps 16385)"
    by (rule near_mult [OF literals_near(1) f(5), where P = 2 and Q = 8]) (use m(4,5) in simp_all)
  show tot: "near (total_duration f64_ops tr) T (ulps 16898)"
    unfolding total_duration_def T_def f64_ops_def number_ops.simps
    using m(4-7) by (intro near_add [OF A f(6)]) linarith+
  show "near (total_duration f64_ops tr - kEndpointEpsilonS f64_ops) (T - 1 / 10000000) (ulps 17000)"
  proof -
    have "near (kEndpointEpsilonS f64_ops) (1 / 10000000) (1 / 10 ^ 20)"
      using literals_near(5) by (simp add: f64_ops_def)
    note near_diff [OF tot this]
    then show ?thesis using m(4-7) unfolding T_def by (simp add: abs_le_iff)
  qed
  show "near (accel_duration_s tr + cruise_duration_s tr) (accel_duration_s exact + cruise_duration_s exact) (ulps 8705)"
    using m(4-7) by (intro near_add [OF f(5,6)]) linarith+
qed

lemma signed_near:
  assumes "near_plan tr exact" "moderate_profile exact" "near p r (ulps 990000)" "\<bar>r\<bar> \<le> 200"
  shows "near (start_position tr + tr_sign tr * p) (start_position exact + tr_sign exact * r) (ulps 990002)"
proof -
  note f = near_plan_fields [OF assms(1)] and m = moderate_facts [OF assms(2)]
  have s: "\<bar>tr_sign exact * r\<bar> \<le> 200" using m(15) assms(4) by (simp add: abs_mult)
  have p: "near (tr_sign tr * p) (tr_sign exact * r) (ulps 990001)"
    by (rule near_mult [OF f(3) assms(3), where P = 1 and Q = 200]) (use m(15) assms(4) s in simp_all)
  show ?thesis using m(16) s by (intro near_add [OF f(1) p]) linarith+
qed

lemma signed_near_speed:
  assumes "near_plan tr exact" "moderate_profile exact" "near p r (ulps 150000)" "\<bar>r\<bar> \<le> 200"
  shows "near (tr_sign tr * p) (tr_sign exact * r) (ulps 150001)"
proof -
  note f = near_plan_fields [OF assms(1)] and m = moderate_facts [OF assms(2)]
  have s: "\<bar>tr_sign exact * r\<bar> \<le> 200" using m(15) assms(4) by (simp add: abs_mult)
  show ?thesis
    by (rule near_mult [OF f(3) assms(3), where P = 1 and Q = 200]) (use m(15) assms(4) s in simp_all)
qed

text \<open>Inside the profile a phase never leaves the range of positions and speeds.\<close>

lemma phase_range:
  assumes "moderate_profile tr" "in_phase k tr (ulps 16384) t" "0 \<le> t" "t \<le> 2 * accel_duration_s tr + cruise_duration_s tr"
  shows "\<bar>phase_position k tr t\<bar> \<le> 200" "\<bar>phase_speed k tr t\<bar> \<le> 200"
proof -
  note m = moderate_facts [OF assms(1)]
  note e = phase_error [OF m(1) assms(2)] and b = progress_bounds [OF m(1) assms(3,4)]
  have "tr_max_acceleration tr * (ulps 16384)\<^sup>2 \<le> 16 * (ulps 16384)\<^sup>2" using m(3) by (intro mult_right_mono) simp_all
  then have "\<bar>phase_position k tr t - progress tr t\<bar> \<le> 1" using e(1) by (simp add: power2_eq_square)
  moreover have "\<bar>tr_target_position tr - start_position tr\<bar> \<le> 8" using m(16,17) by linarith
  ultimately show "\<bar>phase_position k tr t\<bar> \<le> 200" using b(1,2) by linarith
  have "tr_max_acceleration tr * (2 * ulps 16384) \<le> 16 * (2 * ulps 16384)" using m(3) by (intro mult_right_mono) simp_all
  then show "\<bar>phase_speed k tr t\<bar> \<le> 200" using e(2) b(3,4) m(8,10) by linarith
qed

text \<open>The tests that \<open>sample\<close> makes before it looks at the phases.\<close>

lemma sample_tests:
  assumes "near_plan tr exact" "moderate_profile exact" "is_finite x" "0 \<le> rv x"
  defines "last_instant \<equiv> total_duration f64_ops tr - kEndpointEpsilonS f64_ops"
  shows "\<not> feq (tr_sign tr) 0" "\<not> x < 0" "last_instant \<le> total_duration f64_ops tr"
    and "x < last_instant \<longleftrightarrow> rv x < rv last_instant" "\<not> x < last_instant \<Longrightarrow> last_instant \<le> x"
    and "x < last_instant \<Longrightarrow> \<not> total_duration f64_ops tr < x" "x < last_instant \<Longrightarrow> \<not> last_instant \<le> x"
proof -
  note f = near_plan_fields [OF assms(1)] and m = moderate_facts [OF assms(2)]
  note e = end_near [OF assms(1,2), folded last_instant_def]
  have fin: "is_finite 0" "is_finite (total_duration f64_ops tr)" "is_finite last_instant" "is_finite (tr_sign tr)"
    using e f(3) literals_near(4) by (simp_all add: near_finite)
  show "\<not> feq (tr_sign tr) 0" using f(3) m(15) fin(1,4) by (intro not_feq) (auto simp: near_def)
  show "\<not> x < 0" using rv_less [OF assms(3) fin(1)] assms(4) by simp
  show le: "last_instant \<le> total_duration f64_ops tr" using rv_le [OF fin(3,2)] e(1,2) unfolding near_def by linarith
  show lt: "x < last_instant \<longleftrightarrow> rv x < rv last_instant" by (rule rv_less [OF assms(3) fin(3)])
  show "last_instant \<le> x" if "\<not> x < last_instant" using that lt rv_le [OF fin(3) assms(3)] by simp
  show "\<not> total_duration f64_ops tr < x" if "x < last_instant"
    using that lt le rv_less [OF fin(2) assms(3)] rv_le [OF fin(3,2)] by auto
  show "\<not> last_instant \<le> x" if "x < last_instant" using that lt rv_le [OF fin(3) assms(3)] by simp
qed

text \<open>A sample is the target at rest, at most 110 nanoseconds before the end, or close to one of the phases.\<close>

lemma sample_finished:
  assumes "near_plan tr exact" "moderate_profile exact" "is_finite x" "0 \<le> rv x"
    and "\<not> x < total_duration f64_ops tr - kEndpointEpsilonS f64_ops"
  shows "sample_at f64_ops tr x = \<lparr>sample_position = tr_target_position tr, sample_velocity = 0, sample_acceleration = 0\<rparr>"
    and "2 * accel_duration_s exact + cruise_duration_s exact - 11 / 100000000 \<le> rv x"
proof -
  note t = sample_tests [OF assms(1-4)]
  show "sample_at f64_ops tr x = \<lparr>sample_position = tr_target_position tr, sample_velocity = 0, sample_acceleration = 0\<rparr>"
    using t(1-3) t(5) [OF assms(5)] unfolding sample_at_def Let_def by (simp add: f64_ops_def)
  have "rv (total_duration f64_ops tr - kEndpointEpsilonS f64_ops) \<le> rv x" using assms(5) t(4) by simp
  then show "2 * accel_duration_s exact + cruise_duration_s exact - 11 / 100000000 \<le> rv x"
    using end_near(2) [OF assms(1,2)] unfolding near_def by linarith
qed

text \<open>The phase that the code chooses is the phase of the exact profile, up to the error of its borders.\<close>

lemma sample_phase:
  assumes "near_plan tr exact" "moderate_profile exact" "is_finite x" "0 \<le> rv x"
    and "x < total_duration f64_ops tr - kEndpointEpsilonS f64_ops"
    and xT: "rv x \<le> 2 * accel_duration_s exact + cruise_duration_s exact"
  defines "s \<equiv> sample_at f64_ops tr x"
  obtains k p w where "in_phase k exact (ulps 16384) (rv x)"
    "sample_position s = start_position tr + tr_sign tr * p" "near p (phase_position k exact (rv x)) (ulps 990000)"
    "sample_velocity s = tr_sign tr * w" "near w (phase_speed k exact (rv x)) (ulps 150000)"
proof -
  note f = near_plan_fields [OF assms(1)] and e = end_near [OF assms(1,2)]
  have fin: "is_finite (accel_duration_s tr)" "is_finite (accel_duration_s tr + cruise_duration_s tr)"
    using e f(5) by (simp_all add: near_finite)
  note t = sample_tests [OF assms(1-4)]
  note go = t(1,2) t(6,7) [OF assms(5)] and body = s_def sample_at_def Let_def
  consider "x \<le> accel_duration_s tr"
    | "\<not> x \<le> accel_duration_s tr" "x \<le> accel_duration_s tr + cruise_duration_s tr"
    | "\<not> x \<le> accel_duration_s tr" "\<not> x \<le> accel_duration_s tr + cruise_duration_s tr" by blast
  then show thesis
  proof cases
    case 1
    then have "rv x \<le> accel_duration_s exact + ulps 16384"
      using rv_le [OF assms(3) fin(1)] f(5) unfolding near_def by linarith
    then have "in_phase 0 exact (ulps 16384) (rv x)" by (simp add: in_phase_def)
    note p = this sample_accelerating [OF assms(1-4) this]
    show ?thesis using go 1
      by (intro that [OF p(1) _ p(2) _ p(3)]) (simp_all add: body, simp_all add: f64_ops_def)
  next
    case 2
    then have "accel_duration_s exact - ulps 16384 \<le> rv x" "rv x \<le> accel_duration_s exact + cruise_duration_s exact + ulps 16384"
      using rv_le [OF assms(3) fin(1)] f(5) rv_le [OF assms(3) fin(2)] e(3) unfolding near_def by linarith+
    then have "in_phase 1 exact (ulps 16384) (rv x)" by (simp add: in_phase_def)
    note p = this sample_cruising [OF assms(1-4) this]
    show ?thesis using go 2
      by (intro that [OF p(1) _ p(2) _ p(3)]) (simp_all add: body, simp_all add: f64_ops_def)
  next
    case 3
    then have "accel_duration_s exact + cruise_duration_s exact - ulps 16384 \<le> rv x"
      using rv_le [OF assms(3) fin(2)] e(3) unfolding near_def by linarith
    then have "in_phase 2 exact (ulps 16384) (rv x)" by (simp add: in_phase_def)
    note p = this sample_decelerating [OF assms(1-4) this xT]
    show ?thesis using go 3
      by (intro that [OF p(1) _ p(2) _ p(3)]) (simp_all add: body, simp_all add: f64_ops_def)
  qed
qed

lemma sample_running:
  assumes "near_plan tr exact" "moderate_profile exact" "is_finite x" "0 \<le> rv x"
    and "x < total_duration f64_ops tr - kEndpointEpsilonS f64_ops"
  defines "s \<equiv> sample_at f64_ops tr x"
  obtains k where "rv x \<le> 2 * accel_duration_s exact + cruise_duration_s exact" "in_phase k exact (ulps 16384) (rv x)"
    "near (sample_position s) (start_position exact + tr_sign exact * phase_position k exact (rv x)) (ulps 990002)"
    "near (sample_velocity s) (tr_sign exact * phase_speed k exact (rv x)) (ulps 150001)"
proof -
  have xT: "rv x \<le> 2 * accel_duration_s exact + cruise_duration_s exact"
    using assms(5) sample_tests(4) [OF assms(1-4)] end_near(2) [OF assms(1,2)] unfolding near_def by linarith
  obtain k p w where k: "in_phase k exact (ulps 16384) (rv x)"
    and p: "sample_position s = start_position tr + tr_sign tr * p" "near p (phase_position k exact (rv x)) (ulps 990000)"
    and w: "sample_velocity s = tr_sign tr * w" "near w (phase_speed k exact (rv x)) (ulps 150000)"
    unfolding s_def by (rule sample_phase [OF assms(1-5) xT])
  note r = phase_range [OF assms(2) k assms(4) xT]
  show thesis
    using signed_near [OF assms(1,2) p(2) r(1)] signed_near_speed [OF assms(1,2) w(2) r(2)]
    by (intro that [OF xT k]) (simp_all only: p(1) w(1))
qed

text \<open>The exact sample, at all times.\<close>

lemma sample_real:
  assumes "profile_ok tr" "0 \<le> t"
  defines "m \<equiv> min t (2 * accel_duration_s tr + cruise_duration_s tr)"
  shows "sample_position (sample_at (real_ops 0) tr t) = start_position tr + tr_sign tr * progress tr m"
    and "sample_velocity (sample_at (real_ops 0) tr t) = tr_sign tr * speed tr m"
proof -
  let ?T = "2 * accel_duration_s tr + cruise_duration_s tr"
  have tot: "total_duration (real_ops 0) tr = ?T" by (simp add: total_duration_def real_ops_def)
  have "sample_position (sample_at (real_ops 0) tr t) = start_position tr + tr_sign tr * progress tr m \<and>
    sample_velocity (sample_at (real_ops 0) tr t) = tr_sign tr * speed tr m"
  proof (cases "t < ?T")
    case True
    then show ?thesis using sample_at_real(1,2) [OF assms(1) _ assms(2), of 0] by (simp add: tot m_def)
  next
    case False
    have ok: "0 \<le> accel_duration_s tr" "0 \<le> cruise_duration_s tr" "tr_sign tr \<noteq> 0"
      using assms(1) by (auto simp: profile_ok_def)
    have e: "progress tr ?T = \<bar>tr_target_position tr - start_position tr\<bar>" "speed tr ?T = 0"
      using progress_end [OF assms(1), of ?T] ok by simp_all
    have s: "sample_at (real_ops 0) tr t =
        \<lparr>sample_position = tr_target_position tr, sample_velocity = 0, sample_acceleration = 0\<rparr>"
      using False ok(3) assms(2) unfolding sample_at_def Let_def tot by (auto simp: real_ops_def)
    show ?thesis using False signed_distance [OF assms(1)] e by (simp add: s m_def min_def)
  qed
  then show "sample_position (sample_at (real_ops 0) tr t) = start_position tr + tr_sign tr * progress tr m"
    "sample_velocity (sample_at (real_ops 0) tr t) = tr_sign tr * speed tr m" by simp_all
qed

lemma time_near:
  assumes "0 \<le> sint t"
  defines "x \<equiv> rv (seconds_of t)" and "tau \<equiv> of_int (sint t) / 1000000000"
  shows "is_finite (seconds_of t)" "0 \<le> x" and "\<bar>x - tau\<bar> \<le> ulps 1 \<or> 63 \<le> x \<and> 63 \<le> tau"
proof -
  have finite: "is_finite (seconds_of u)" for u by (rule seconds_of_finite)
  show "is_finite (seconds_of t)" by (rule finite)
  have "seconds_of 0 \<le> seconds_of t" using assms(1) by (intro seconds_of_mono) simp
  then show "0 \<le> x" using rv_le [OF finite [of 0] finite [of t]] by (simp add: x_def seconds_of_zero)
  have value_of: "\<bar>rv (seconds_of u) - of_int (sint u) / 1000000000\<bar> \<le> ulps 1"
    if "0 \<le> sint u" "sint u \<le> 64000000000" for u
  proof -
    have n: "\<bar>sint u\<bar> < 2 ^ 53" using that by simp
    have g: "is_finite f64_1e9" "rv f64_1e9 \<noteq> 0" by (simp add: f64_literals) (simp add: rv_simps)
    have "\<bar>rv (f64_of_int (sint u)) / rv f64_1e9\<bar> \<le> 256"
      using that unfolding rv_of_int [OF n] rv_literals by (simp add: abs_of_nonneg del: of_int_sint)
    from div_error(2) [OF f64_of_int_exact(2) [OF n] g op_error_ulps(1) this] show ?thesis
      unfolding rv_of_int [OF n] rv_literals op_error_ulps seconds_of_def .
  qed
  show "\<bar>x - tau\<bar> \<le> ulps 1 \<or> 63 \<le> x \<and> 63 \<le> tau"
  proof (cases "sint t \<le> 64000000000")
    case True
    then show ?thesis using value_of [OF assms(1) True] by (simp add: x_def tau_def)
  next
    case False
    have u: "sint (64000000000 :: i64) = 64000000000" by simp
    have "seconds_of 64000000000 \<le> seconds_of t" using False u by (intro seconds_of_mono) simp
    then have "rv (seconds_of 64000000000) \<le> x" using rv_le [OF finite finite] by (simp add: x_def)
    moreover have "\<bar>rv (seconds_of 64000000000) - 64\<bar> \<le> ulps 1" using value_of [of 64000000000] by (simp add: u)
    then have "63 \<le> rv (seconds_of 64000000000)" by linarith
    moreover have "(64000000000 :: real) \<le> of_int (sint t)" using False by linarith
    then have "63 \<le> tau" by (simp add: tau_def field_simps)
    ultimately show ?thesis by linarith
  qed
qed

text \<open>How fast the exact profile changes.\<close>

lemma profile_lipschitz:
  assumes "moderate_profile tr" "0 \<le> t" "t \<le> 2 * accel_duration_s tr + cruise_duration_s tr" "\<bar>u - t\<bar> \<le> 1"
  shows "\<bar>progress tr u - progress tr t\<bar> \<le> 12 * \<bar>u - t\<bar>" "\<bar>speed tr u - speed tr t\<bar> \<le> 16 * \<bar>u - t\<bar>"
proof -
  note m = moderate_facts [OF assms(1)]
  note s = progress_bounds(3,4) [OF m(1) assms(2,3)]
  have "\<bar>speed tr t * (u - t)\<bar> \<le> 4 * \<bar>u - t\<bar>"
    unfolding abs_mult using s m(8,10) by (intro mult_right_mono) simp_all
  moreover have "\<bar>u - t\<bar> * \<bar>u - t\<bar> \<le> \<bar>u - t\<bar> * 1" using assms(4) by (intro mult_left_mono) simp_all
  then have "(u - t)\<^sup>2 \<le> \<bar>u - t\<bar>" by (simp add: power2_eq_square)
  then have "tr_max_acceleration tr / 2 * (u - t)\<^sup>2 \<le> 8 * \<bar>u - t\<bar>" using m(2,3) by (intro mult_mono) simp_all
  ultimately show "\<bar>progress tr u - progress tr t\<bar> \<le> 12 * \<bar>u - t\<bar>"
    using progress_follows_speed [OF m(1), of u t] by linarith
  note p = progress_parabolas(2) [OF m(1)]
  define A B where "A = accel_duration_s tr" and "B = A + cruise_duration_s tr"
  have "\<bar>(u - max 0 (u - A) - max 0 (u - B)) - (t - max 0 (t - A) - max 0 (t - B))\<bar> \<le> \<bar>u - t\<bar>"
    using m(6) unfolding max_def B_def by (auto split: if_splits)
  then show "\<bar>speed tr u - speed tr t\<bar> \<le> 16 * \<bar>u - t\<bar>"
    unfolding p right_diff_distrib [symmetric] abs_mult diff_diff_eq A_def B_def using m(2,3)
    by (intro mult_mono) simp_all
qed

section \<open>Properties\<close>

text \<open>The exact profile in its last 120 nanoseconds, and next to a phase in which a sample was taken.\<close>

lemma profile_near_end:
  assumes "moderate_profile tr" "u \<le> 2 * accel_duration_s tr + cruise_duration_s tr"
    and "2 * accel_duration_s tr + cruise_duration_s tr - u \<le> 12 / 100000000"
  shows "\<bar>tr_target_position tr - (start_position tr + tr_sign tr * progress tr u)\<bar> \<le> 1 / 10000000"
    and "\<bar>tr_sign tr * speed tr u\<bar> \<le> 2 / 1000000"
proof -
  note m = moderate_facts [OF assms(1)]
  let ?a = "tr_max_acceleration tr" and ?r = "2 * accel_duration_s tr + cruise_duration_s tr - u"
  have r: "0 \<le> ?r" using assms(2) by simp
  have "accel_duration_s tr + cruise_duration_s tr \<le> u" using assms(3) m(4) by linarith
  note e = progress_end [OF m(1) this]
  have sg: "\<bar>tr_sign tr * y\<bar> = \<bar>y\<bar>" for y using m(15) by (simp add: abs_mult)
  have d: "tr_target_position tr - (start_position tr + tr_sign tr * progress tr u) = tr_sign tr * (?a / 2 * ?r\<^sup>2)"
    unfolding e(1) right_diff_distrib signed_distance [OF m(1)] by simp
  have "\<bar>?a / 2 * ?r\<^sup>2\<bar> = ?a / 2 * ?r\<^sup>2" using m(2) by simp
  also have "\<dots> \<le> 8 * (12 / 100000000)\<^sup>2" using m(2,3) r assms(3) by (intro mult_mono power_mono) simp_all
  also have "\<dots> \<le> 1 / 10000000" by (simp add: power2_eq_square)
  finally show "\<bar>tr_target_position tr - (start_position tr + tr_sign tr * progress tr u)\<bar> \<le> 1 / 10000000"
    unfolding d sg .
  have "?a * ?r \<le> 16 * (12 / 100000000)" using m(2,3) r assms(3) by (intro mult_mono) simp_all
  moreover have "0 \<le> ?a * ?r" using m(2) r by simp
  ultimately show "\<bar>tr_sign tr * speed tr u\<bar> \<le> 2 / 1000000" unfolding sg e(2) by simp
qed

lemma profile_near_phase:
  assumes "moderate_profile tr" "in_phase k tr (ulps 16384) t" "\<bar>t - u\<bar> \<le> ulps 1"
    and "0 \<le> u" "u \<le> 2 * accel_duration_s tr + cruise_duration_s tr"
  shows "\<bar>phase_position k tr t - progress tr u\<bar> \<le> ulps 1000" "\<bar>phase_speed k tr t - speed tr u\<bar> \<le> 1 / 1000000"
proof -
  note m = moderate_facts [OF assms(1)]
  let ?a = "tr_max_acceleration tr"
  have "(0 :: real) \<le> ulps 16384" by simp
  note e = phase_error [OF m(1) assms(2) this]
  have "\<bar>t - u\<bar> \<le> 1" using assms(3) by linarith
  note l = profile_lipschitz [OF assms(1,4,5) this]
  have "?a * (ulps 16384)\<^sup>2 \<le> 16 * (ulps 16384)\<^sup>2" "?a * (2 * ulps 16384) \<le> 16 * (2 * ulps 16384)"
    using m(3) by (intro mult_right_mono; simp)+
  moreover have "16 * (ulps 16384)\<^sup>2 \<le> ulps 1" by (simp add: power2_eq_square)
  ultimately have e': "\<bar>phase_position k tr t - progress tr t\<bar> \<le> ulps 1"
    "\<bar>phase_speed k tr t - speed tr t\<bar> \<le> 16 * (2 * ulps 16384)"
    using e by (blast intro: order_trans)+
  have l': "\<bar>progress tr t - progress tr u\<bar> \<le> ulps 12" "\<bar>speed tr t - speed tr u\<bar> \<le> ulps 16"
    by (rule order_trans [OF l(1)], use assms(3) in simp) (rule order_trans [OF l(2)], use assms(3) in simp)
  show "\<bar>phase_position k tr t - progress tr u\<bar> \<le> ulps 1000" using e'(1) l'(1) by linarith
  show "\<bar>phase_speed k tr t - speed tr u\<bar> \<le> 1 / 1000000" using e'(2) l'(2) by linarith
qed

text \<open>The distance of a sample in doubles from the exact one.\<close>

lemma sample_near:
  assumes "near_plan tr exact" "moderate_profile exact" "is_finite x" "0 \<le> rv x" "0 \<le> tau"
    and "\<bar>rv x - tau\<bar> \<le> ulps 1 \<or> 63 \<le> rv x \<and> 63 \<le> tau"
  defines "s \<equiv> sample_at f64_ops tr x" and "r \<equiv> sample_at (real_ops 0) exact tau"
  shows "near (sample_position s) (sample_position r) (1 / 10000000) \<and>
    near (sample_velocity s) (sample_velocity r) (2 / 1000000)"
proof -
  note f = near_plan_fields [OF assms(1)] and m = moderate_facts [OF assms(2)]
  define T u where "T = 2 * accel_duration_s exact + cruise_duration_s exact" and "u = min tau T"
  note real = sample_real [OF m(1) assms(5), folded r_def T_def, folded u_def]
  have T: "T \<le> 48" "0 \<le> T" using m(4-7) by (simp_all add: T_def)
  have u: "0 \<le> u" "u \<le> T" using assms(5) T by (simp_all add: u_def)
  show ?thesis
  proof (cases "x < total_duration f64_ops tr - kEndpointEpsilonS f64_ops")
    case False
    note finished = sample_finished [OF assms(1-4) False, folded s_def T_def]
    have "T - u \<le> 12 / 100000000"
    proof (cases "tau \<le> T")
      case True
      then have "\<bar>rv x - tau\<bar> \<le> ulps 1" "u = tau" using assms(6) T by (auto simp: u_def)
      then show ?thesis using finished(2) by linarith
    qed (simp add: u_def)
    from profile_near_end [OF assms(2) u(2) [unfolded T_def] this [unfolded T_def]]
    show ?thesis using f(2) literals_near(4) unfolding finished(1) near_def real by simp
  next
    case True
    obtain k where running: "rv x \<le> T" "in_phase k exact (ulps 16384) (rv x)"
      "near (sample_position s) (start_position exact + tr_sign exact * phase_position k exact (rv x)) (ulps 990002)"
      "near (sample_velocity s) (tr_sign exact * phase_speed k exact (rv x)) (ulps 150001)"
      using sample_running [OF assms(1-4) True, folded s_def T_def] by blast
    have "\<bar>rv x - u\<bar> \<le> ulps 1" using running(1) assms(6) T by (auto simp: u_def min_def)
    note p = profile_near_phase [OF assms(2) running(2) this u [unfolded T_def]]
    have "\<bar>tr_sign exact * y\<bar> = \<bar>y\<bar>" for y using m(15) by (simp add: abs_mult)
    note sg = this [of "phase_position k exact (rv x) - progress exact u"]
      this [of "phase_speed k exact (rv x) - speed exact u"]
    show ?thesis using running(3,4) p sg unfolding near_def real right_diff_distrib by (intro conjI; linarith)
  qed
qed

text \<open>C5. Rounding does not spoil the motion: at every time, in the end zone and around the phase boundaries
  too, the position that \<open>sample\<close> computes is within a tenth of a microradian of the exact profile
  and its velocity within two microradians per second, whatever branch \<open>create\<close> took: for finite
  positions of at most four radians either way and at least \<open>1 / 1024\<close> radian apart, a velocity limit from
  \<open>1 / 4\<close> to 4 rad/s and an acceleration limit from \<open>1 / 2\<close> to 16 rad/s/s (\<open>moderate_move\<close>).\<close>

theorem trajectory_follows_exact_profile:
  assumes "TrapezoidalTrajectory_create start_pos target_pos l = Ok tr"
    and "moderate_move start_pos target_pos (max_velocity l) (max_acceleration l)" and "0 \<le> sint t"
  shows "let exact = plan_profile (real_ops 0) (rv start_pos) (rv target_pos) (rv (max_velocity l)) (rv (max_acceleration l));
      s = sample tr t; r = sample_at (real_ops 0) exact (of_int (sint t) / 1000000000)
    in is_finite (sample_position s) \<and> \<bar>rv (sample_position s) - sample_position r\<bar> \<le> 1 / 10000000 \<and>
       is_finite (sample_velocity s) \<and> \<bar>rv (sample_velocity s) - sample_velocity r\<bar> \<le> 2 / 1000000"
proof -
  have tr: "tr = plan_profile f64_ops start_pos target_pos (max_velocity l) (max_acceleration l)"
    using assms(1) by (auto simp: TrapezoidalTrajectory_create_def and_then_eq_Ok split: if_splits)
  note x = time_near [OF assms(3)]
  have "0 \<le> (of_int (sint t) / 1000000000 :: real)"
    using of_int_0_le_iff [THEN iffD2, OF assms(3)] by (rule divide_nonneg_nonneg) simp
  from sample_near [OF plan_near [OF assms(2)] plan_moderate [OF assms(2)] x(1,2) this x(3)]
  show ?thesis unfolding near_def tr sample_def Let_def by simp
qed

text \<open>A move for the witnesses, from 0 to 1 with at most 2 rad/s and 5 rad/s^2.\<close>

lemma unit_move:
  "TrapezoidalTrajectory_create 0 1 unit_limits = Ok (plan_profile f64_ops 0 1 f64_two f64_five)"
  "moderate_move 0 1 (max_velocity unit_limits) (max_acceleration unit_limits)"
  "rv (max_velocity unit_limits) = 2" "rv (max_acceleration unit_limits) = 5" "rv 1 = 1"
proof -
  note ex = literals_near(3,4)
  have v: "rv (max_velocity unit_limits) = 2" "rv (max_acceleration unit_limits) = 5" "rv 1 = 1" "is_finite 1" "is_finite 0"
    using ex by (simp_all add: unit_limits_def rv_simps near_def)
  have fin: "is_finite (max_velocity unit_limits)" "is_finite (max_acceleration unit_limits)"
    by (simp_all add: unit_limits_def f64_literals)
  have "JointLimits_validate unit_limits = Ok ()" using unit_limits_ok by (simp add: limits_ok_def)
  moreover have "\<not> 0 < min_position unit_limits" "\<not> max_position unit_limits < 0"
    "\<not> 1 < min_position unit_limits" "\<not> max_position unit_limits < 1"
    by (simp_all add: unit_limits_def one_f64_def f64_literals)
  ultimately show c: "TrapezoidalTrajectory_create 0 1 unit_limits = Ok (plan_profile f64_ops 0 1 f64_two f64_five)"
    by (simp add: TrapezoidalTrajectory_create_def unit_limits_def)
  show "moderate_move 0 1 (max_velocity unit_limits) (max_acceleration unit_limits)"
    using v fin by (simp add: moderate_move_def)
  show "rv (max_velocity unit_limits) = 2" "rv (max_acceleration unit_limits) = 5" "rv 1 = 1" using v by simp_all
qed

theorem trajectory_follows_exact_profile_witness:
  "\<bar>rv (sample_position (sample (plan_profile f64_ops 0 1 f64_two f64_five) 450000000)) - 1 / 2\<bar> \<le> 1 / 10000000 \<and>
   \<bar>rv (sample_velocity (sample (plan_profile f64_ops 0 1 f64_two f64_five) 450000000)) - 2\<bar> \<le> 2 / 1000000"
proof -
  from trajectory_follows_exact_profile [OF unit_move(1,2), of 450000000]
  show ?thesis
    unfolding unit_move(3-5) Let_def by (simp add: plan_profile_def sample_at_def real_ops_def total_duration_def Let_def)
qed

text \<open>C28. In doubles, the trajectory that \<open>create\<close> plans between two finite positions ends exactly at its
  target: if its phases add up to no more than 97 days (\<open>2 ^ 23\<close> seconds), \<open>duration()\<close> is defined
  and not negative, and at that time and at every later one the sample is the target with zero
  velocity and acceleration, bit for bit; only a move between equal positions keeps the start,
  which differs from the target at most in the sign of a zero.\<close>

theorem trajectory_ends_at_target:
  assumes "TrapezoidalTrajectory_create start_pos target_pos l = Ok tr"
    and "is_finite start_pos" "is_finite target_pos"
    and "total_duration f64_ops tr \<le> F64 0x4160000000000000"
  shows "\<exists>d. duration tr = Some d \<and> 0 \<le> sint d \<and>
    (\<forall>t. sint d \<le> sint t \<longrightarrow>
      sample tr t = \<lparr>sample_position = (if feq start_pos target_pos then start_pos else target_pos),
        sample_velocity = 0, sample_acceleration = 0\<rparr>)"
proof -
  have tr: "tr = plan_profile f64_ops start_pos target_pos (max_velocity l) (max_acceleration l)"
    and v: "\<not> max_velocity l \<le> 0" "\<not> max_acceleration l \<le> 0"
    using assms(1) by (auto simp: TrapezoidalTrajectory_create_def JointLimits_validate_def and_then_eq_Ok split: if_splits)
  have T: "0 \<le> total_duration f64_ops tr"
    using plan_total_nonneg [OF v, of start_pos target_pos] f64_le_not_nan(1) [OF assms(4)] unfolding tr by blast
  note sg = plan_sign [OF assms(2,3), of "max_velocity l" "max_acceleration l", folded tr]
  show ?thesis
  proof (cases "feq start_pos target_pos")
    case True
    then have "sample tr t = \<lparr>sample_position = start_pos, sample_velocity = 0, sample_acceleration = 0\<rparr>" for t
      using sg by (simp add: sample_def sample_at_def f64_ops_def)
    then show ?thesis using duration_covers [OF T assms(4)] True by (auto simp: duration_def)
  next
    case False
    then show ?thesis using ends_at_target [OF _ T assms(4)] sg by simp
  qed
qed

theorem trajectory_ends_at_target_witness:
  "\<exists>tr d. TrapezoidalTrajectory_create 0 1 unit_limits = Ok tr \<and> duration tr = Some d \<and>
    sample tr d = \<lparr>sample_position = 1, sample_velocity = 0, sample_acceleration = 0\<rparr>"
proof -
  let ?tr = "plan_profile f64_ops 0 1 f64_two f64_five" and ?x = "plan_profile (real_ops 0) 0 1 2 5"
  have u: "max_velocity unit_limits = f64_two" "max_acceleration unit_limits = f64_five" by (simp_all add: unit_limits_def)
  note n = plan_near [OF unit_move(2), of 0, unfolded unit_move(3-5) rv_zero, unfolded u]
    and m = plan_moderate [OF unit_move(2), of 0, unfolded unit_move(3-5) rv_zero]
  have x: "2 * accel_duration_s ?x + cruise_duration_s ?x = 9 / 10"
    by (simp add: plan_profile_def real_ops_def Let_def)
  note T = end_near(1) [OF n m, unfolded x]
  have "rv (F64 0x4160000000000000) = 2 ^ 23" "is_finite (F64 0x4160000000000000)"
    by (simp_all add: rv_normal [where e = 1045 and f = 0] f64_literals)
  moreover have "rv (total_duration f64_ops ?tr) \<le> 1"
    using T unfolding near_def abs_le_iff by simp
  ultimately have "total_duration f64_ops ?tr \<le> F64 0x4160000000000000"
    using T by (simp add: rv_le near_def)
  moreover have "is_finite 0" "is_finite 1" "\<not> feq 0 1" by (simp_all add: feq_def f64_key_def)
  ultimately show ?thesis using trajectory_ends_at_target [OF unit_move(1)] unit_move(1) by auto
qed

end
