(* ===== verification/Threads.thy ===== *)
theory Threads
  imports Emulator
begin

text \<open>
  The threads of \<open>apps/robot-emulator/main.cpp\<close> and the mutex they share, lock by lock.  A thread that
  wants the mutex while another has it has no step: it waits.  The theory shows that every run is
  an interleaving of the atomic actions of \<open>Emulator\<close>, and which hangs of the control loop the
  watchdog can answer.
\<close>

section \<open>Locks\<close>

datatype thread = Control_thread | Response_thread | Main_thread

record threads =
  th_emulator :: emulator
  th_owner :: "thread option"

text \<open>
  What the threads do.  The accesses to the shared objects are made under the mutex and take effect
  when it is released; the watchdog's poll and the response thread's check need no mutex (the poll
  reads only the counter: after the increment it counts as a poll after the cycle).
\<close>

datatype thread_event =
    Control_lock | Control_unlock
  | Poll i64
  | Check | Response_lock | Response_unlock
  | Main_lock | Main_unlock frame

inductive thread_step :: "threads \<Rightarrow> thread_event \<Rightarrow> threads \<Rightarrow> bool" where
  control_lock: "th_owner s = None \<Longrightarrow>
     thread_step s Control_lock (s\<lparr>th_owner := Some Control_thread\<rparr>)"
| control_unlock: "th_owner s = Some Control_thread \<Longrightarrow>
     thread_step s Control_unlock (s\<lparr>th_emulator := control_cycle (th_emulator s), th_owner := None\<rparr>)"
| poll: "thread_step s (Poll now) (s\<lparr>th_emulator := watchdog_pass now (th_emulator s)\<rparr>)"
| check: "\<not> em_responding (th_emulator s) \<Longrightarrow>
     thread_step s Check (s\<lparr>th_emulator := response_check (th_emulator s)\<rparr>)"
| response_lock: "em_responding (th_emulator s) \<Longrightarrow> th_owner s = None \<Longrightarrow>
     thread_step s Response_lock (s\<lparr>th_owner := Some Response_thread\<rparr>)"
| response_unlock: "th_owner s = Some Response_thread \<Longrightarrow>
     thread_step s Response_unlock (s\<lparr>th_emulator := response_trigger (th_emulator s), th_owner := None\<rparr>)"
| main_lock: "th_owner s = None \<Longrightarrow>
     thread_step s Main_lock (s\<lparr>th_owner := Some Main_thread\<rparr>)"
| main_unlock: "th_owner s = Some Main_thread \<Longrightarrow>
     thread_step s (Main_unlock request)
       (s\<lparr>th_emulator := emu_step (th_emulator s) (Client_request request), th_owner := None\<rparr>)"

inductive_simps thread_step_simps:
  "thread_step s Control_lock t" "thread_step s Control_unlock t" "thread_step s (Poll now) t"
  "thread_step s Check t" "thread_step s Response_lock t" "thread_step s Response_unlock t"
  "thread_step s Main_lock t" "thread_step s (Main_unlock request) t"

inductive thread_run :: "threads \<Rightarrow> thread_event list \<Rightarrow> threads \<Rightarrow> bool" where
  run_nil: "thread_run s [] s"
| run_cons: "thread_step s e t \<Longrightarrow> thread_run t es u \<Longrightarrow> thread_run s (e # es) u"

inductive_simps thread_run_simps: "thread_run s [] t" "thread_run s (e # es) t"

section \<open>Runs are interleavings of atomic actions\<close>

fun commit :: "thread_event \<Rightarrow> emu_action list" where
  "commit Control_unlock = [Control_cycle]"
| "commit (Poll now) = [Watchdog_pass now]"
| "commit Check = [Response_check]"
| "commit Response_unlock = [Response_trigger]"
| "commit (Main_unlock request) = [Client_request request]"
| "commit _ = []"

lemma step_commits: "thread_step s e t \<Longrightarrow> th_emulator t = foldl emu_step (th_emulator s) (commit e)"
  by (induction rule: thread_step.induct) simp_all

text \<open>The model of \<open>Emulator\<close>, whose actions are atomic, has every behaviour of the threads.\<close>

theorem runs_are_interleavings:
  assumes "thread_run s es t"
  shows "th_emulator t = foldl emu_step (th_emulator s) (concat (map commit es))"
  using assms by (induction rule: thread_run.induct) (simp_all add: step_commits)

section \<open>A hung control loop\<close>

text \<open>A thread that has the mutex and never releases it keeps the others off the shared objects.\<close>

lemma owner_keeps_out:
  assumes "thread_step s e t" "th_owner s = Some Control_thread" "e \<noteq> Control_unlock"
  shows "th_owner t = Some Control_thread" "em_plant (th_emulator t) = em_plant (th_emulator s)"
  using assms by (cases rule: thread_step.cases; simp add: thread_fields)+

lemma hang_keeps_out:
  assumes "thread_run s es t" "th_owner s = Some Control_thread" "Control_unlock \<notin> set es"
  shows "em_plant (th_emulator t) = em_plant (th_emulator s)"
  using assms
proof (induction rule: thread_run.induct)
  case (run_cons s e t es u)
  have "e \<noteq> Control_unlock" using run_cons.prems(2) by auto
  then show ?case using owner_keeps_out [OF run_cons.hyps(1) run_cons.prems(1)] run_cons by simp
qed simp

section \<open>Properties\<close>

text \<open>C17. Which hangs the watchdog answers.  If the control thread hangs outside its cycle (the mutex is
  free) while the robot moves, and the counter has not moved since the watchdog last saw it change,
  at least the timeout ago, then the next poll, the check and the response engage every brake and
  take the controller to \<open>EmergencyStop\<close>, unless the one response was given before.  If it hangs
  inside its cycle, with the mutex, then whatever the other threads do, neither the controller nor
  a brake changes: the response waits for the mutex.\<close>

theorem watchdog_stops_hung_loop:
  assumes "wd_lastSeenCounter (em_watchdog em) = cl_cyclesExecuted (em_loop em)"
    and "sint (wd_timeout (em_watchdog em)) \<le> sint (now - wd_lastChangeTimeNs (em_watchdog em))"
    and "\<not> em_alreadyTripped em" "\<not> em_responding em" and "ctl_state (pl_controller (em_plant em)) = Moving"
  shows "(\<exists>t. thread_run \<lparr>th_emulator = em, th_owner = None\<rparr> [Poll now, Check, Response_lock, Response_unlock] t \<and>
      ctl_state (pl_controller (em_plant (th_emulator t))) = controller_state.EmergencyStop \<and>
      list_all VirtualBrake_isEngaged (pl_brakes (em_plant (th_emulator t)))) \<and>
    (\<forall>es t. thread_run \<lparr>th_emulator = em, th_owner = Some Control_thread\<rparr> es t \<and> Control_unlock \<notin> set es \<longrightarrow>
      em_plant (th_emulator t) = em_plant em)"
proof -
  have "wd_tripped (em_watchdog (watchdog_pass now em))"
    using assms(1,2) by (simp add: watchdog_pass_def Watchdog_poll_def ControlLoop_metrics_def Let_def)
  then show ?thesis
    using assms(3-5) hang_keeps_out [of "\<lparr>th_emulator = em, th_owner = Some Control_thread\<rparr>"]
    by (auto simp: thread_run_simps thread_step_simps thread_fields post_event_state engaged_all)
qed

theorem watchdog_stops_hung_loop_witness:
  "\<exists>t. thread_run \<lparr>th_emulator = demo_emulator Moving, th_owner = None\<rparr>
      [Poll 100000000, Check, Response_lock, Response_unlock] t \<and>
    ctl_state (pl_controller (em_plant (th_emulator t))) = controller_state.EmergencyStop"
  using watchdog_stops_hung_loop [of "demo_emulator Moving" 100000000]
  by (auto simp: demo_emulator_def started_def ControlLoop_create_def)

end
