(* ===== verification/Spec2Isabelle.thy ===== *)
theory Spec2Isabelle
  imports Websocket Fault Robotctl Trajectory Sensors Ros2_Bridge Viewer Benchmark Clock Settling Trajectory_Error
    Threads
begin

text \<open>
  A verification library for the robot emulator: a C++23 framework in which a simulated robot is
  driven by a control loop, guarded by a watchdog and operated over TCP by clients.

  \<^bold>\<open>The program.\<close>  A \<open>Robot\<close> (\<open>src/core/\<close>) is a vector of joints, each with limits, targets and a
  saturated proportional controller on doubles.  A \<open>ControllerStateMachine\<close> (\<open>src/controller/\<close>)
  holds the mode of operation; only its tables decide what an event does.  A \<open>ControlLoop\<close>
  (\<open>src/runtime/\<close>) calls the robot's \<open>update\<close> once per period, from its own thread, while the
  controller is \<open>Moving\<close>.  A \<open>Watchdog\<close> (\<open>src/safety/\<close>) polls the loop's cycle counter from a second
  thread; a third thread of \<open>apps/robot-emulator/main.cpp\<close> answers its trip by posting
  \<open>EStopTriggered\<close>.  The main thread reads frames (\<open>src/protocol/\<close>) from one connection at a time,
  lets the \<open>CommandDispatcher\<close> (\<open>src/server/\<close>) act on the shared robot, controller and brakes
  under a mutex, and sends the response back.  Three programs are its clients, all through
  \<open>cli::Client\<close> (\<open>src/cli/\<close>): the command line tool \<open>robotctl\<close>, the viewer
  (\<open>apps/robot-viewer\<close>), which passes the status on to a browser through a WebSocket endpoint
  (\<open>src/websocket/\<close>), and the ROS 2 plugin (\<open>bridges/ros2_bridge\<close>).  Beside these there are a
  trajectory planner (\<open>src/motion/\<close>), models of motors, encoders and sensors (\<open>src/hardware/\<close>,
  \<open>src/sensors/\<close>) and a registry of injected faults (\<open>src/fault/\<close>).

  \<^bold>\<open>The theories\<close>, in the order of their imports:
  \<^item> \<open>Prelude\<close>: fixed-width integers, \<open>std::expected\<close> as a sum, shared lemmas and collections.
  \<^item> \<open>Float64\<close>, \<open>Float64_Arith\<close>: \<open>double\<close> as binary64, bit for bit: order, \<open>std::min/max/clamp\<close>,
    rounding to nearest even, the four operations, the conversion of nanoseconds.  The lemmas give
    the sign, the monotonicity and the exactness facts that the control law rests on.
  \<^item> \<open>Joint\<close>, \<open>Robot\<close>: \<open>joint.cpp\<close>, \<open>joint_limits.cpp\<close>, \<open>robot.cpp\<close>, \<open>robot_config.cpp\<close>.  The
    invariant \<open>joint_ok\<close> (no NaN, position and velocity inside the limits) is kept by every call
    with a target that is not NaN; an update approaches its target and respects both rate limits.
  \<^item> \<open>Controller\<close>: the two transition tables, their lookup and \<open>handleEvent\<close>, refined against the
    transitions the comments document, with the reachability and latching properties of the machine.
  \<^item> \<open>Wire\<close>, \<open>Frame_Codec\<close>, \<open>Cli_Payload\<close>: big-endian fields as instances of one locale of
    fixed-length codecs, frames, and the payloads of the status report and the joint move.  Round
    trips in both directions, and the error of every truncated or malformed buffer.
  \<^item> \<open>Hardware_IO\<close>: the digital and analog channel banks, instances of one locale, and the brake.
  \<^item> \<open>Safety\<close>, \<open>Watchdog\<close>, \<open>Control_Loop\<close>: the emergency stop, the limit monitor, one pass of each
    background thread, and \<open>start\<close>/\<open>stop\<close> as instances of one locale of thread life cycles.
  \<^item> \<open>Command_Dispatcher\<close>: every request handler over the shared \<open>plant\<close> (robot, controller, brakes).
  \<^item> \<open>Tcp\<close>, \<open>Sockets\<close>: \<open>send\<close> and \<open>receive\<close> over what the system calls do (a \<open>::send\<close> to a peer that
    has closed raises \<open>SIGPIPE\<close>, which no program of the repository handles); the factories,
    moves, assignments and destructors of \<open>TcpConnection\<close> and \<open>TcpListener\<close> over the table of open
    descriptors, as instances of one locale, with the ownership invariant that every open
    descriptor belongs to exactly one live object.
  \<^item> \<open>Emulator\<close>: the server of \<open>main.cpp\<close>: its scenario, the receive loop, the connection loop, and
    the interleaving of the three threads and the clients, one action per section under the mutex.
    The safety properties of the whole program are invariants of these actions.
  \<^item> \<open>Threads\<close>: the same threads lock by lock, as a step relation with the owner of the mutex; its runs
    are interleavings of the actions of \<open>Emulator\<close>, and it tells which hangs the watchdog can answer.
  \<^item> \<open>Base64\<close>, \<open>Sha1\<close>, \<open>Websocket\<close>: the handshake, the frames written and the frames read.
  \<^item> \<open>Fault\<close>: the fault registry, against what its history of calls says.
  \<^item> \<open>Charconv\<close>, \<open>Cli_Command\<close>: \<open>std::from_chars\<close> and \<open>parseArgs\<close>, equivalent to the documented
    grammar.
  \<^item> \<open>Cli_Client\<close>, \<open>Link\<close>: \<open>Client::execute\<close>, and its composition with the server: what a client
    receives is the outcome of its command on the shared plant, however the bytes are cut; \<open>Link\<close>
    makes this the transport of the other clients, with the server's threads running in between.
  \<^item> \<open>Float_Text\<close>: the text of a double, with fixed decimals and as a stream prints it.
  \<^item> \<open>Robotctl\<close>: the status table, and the program.
  \<^item> \<open>Float64_Conv\<close>, \<open>Trajectory\<close>: square root, conversions to integers and error bounds; the
    trapezoidal planner, written over a record of number operations so that the code is its
    instance on doubles and the mathematical profile its instance on the reals.
  \<^item> \<open>Actuators\<close>, \<open>Sensors\<close>: the motor, the encoder and the four sensors; the first-order lag that
    the motor and the temperature sensor share is one locale.
  \<^item> \<open>Accepting\<close>: the accept loops of the two servers, whose passes share one locale, and \<open>main\<close> of the
    emulator with any number of clients, up to the one whose disappearance ends it.
  \<^item> \<open>Float64_Real\<close>: the values of doubles as reals, with the error of each rounded operation.
  \<^item> \<open>Servo\<close>, \<open>Settling\<close>: the convergence of the joint's controller.  A locale analyses a saturated
    proportional controller with rounding errors through its phases (stopping, if it starts too
    fast, acceleration, cruise, braking, one swing past the target of at most 0.2 radian, following
    the desired speed), each of which ends in bounded time.  \<open>Joint_update\<close> is its instance at every
    frequency of the control loop, and a move accepted by the emulator arrives: from rest, or from
    any motion that can brake before a hard stop, to any target that leaves the swing clear of them.
  \<^item> \<open>Trajectory_Error\<close>: the double instance of the planner against its real instance: the errors of
    every operation are carried through both planning branches and the three phases, up to a
    tenth of a microradian.
  \<^item> \<open>Clock\<close>: the contract of a monotonic clock and the manual clock, under which the watchdog trips
    exactly on a stall.
  \<^item> \<open>Benchmark\<close>: the cycles of \<open>robot-benchmark\<close> over the control loop and the sensors, its
    statistics and the text of its report.
  \<^item> \<open>Ros2_Bridge\<close>, \<open>Viewer\<close>: the callbacks of the plugin and the session with a browser, over \<open>Link\<close>.
  \<^item> This theory: what holds of both background threads.

  \<^bold>\<open>Correspondence.\<close>  A class is a \<open>record\<close> of its members, an \<open>enum class\<close> a \<open>datatype\<close>, a method a
  function from the object to the result and the object; names follow the source, prefixed by
  the class where they would clash.  \<open>std::expected\<close> is \<open>Ok\<close>/\<open>Unexpected\<close>.  \<open>std::size_t\<close> indices
  are natural numbers, all other integers are words of their width, time points and durations
  64-bit words read with \<open>sint\<close>.  Atomic members are plain fields; what another thread may do between two of
  their accesses is made explicit where it matters (\<open>Watchdog_reset\<close> is a list of three
  stores that polls may come between, the maximum of the jitter a compare-and-exchange loop).

  \<^bold>\<open>The environment.\<close>  What the operating system decides is an argument: the bytes of each
  \<open>receive\<close> or its error, what each \<open>::send\<close> does, the clock readings of each pass, the values that
  a failed compare-and-exchange finds, the order of the threads' steps.  The receive, connection
  and send loops end with these lists, and no fuel is used; a list that runs out before the loop is
  done gives \<open>None\<close> or counts as a closed connection, as each definition says.  \<open>None\<close> also stands for a
  \<open>send\<close> that \<open>SIGPIPE\<close> keeps from returning; in the two accept loops it is the end of the process.  The properties
  that a loop finishes say how long a list is long enough.  A new file descriptor is a function of the
  open ones, assumed not to be one of them.  \<open>std::exp\<close> and the draws of \<open>std::normal_distribution\<close>
  are functions; of the first only its range on arguments that are not positive is assumed
  (\<open>exp_range\<close>), of the second nothing (nor
  that its standard deviation is positive, as the standard requires and the code does not check).  \<open>std::from_chars\<close>, \<open>std::format\<close> with \<open>.2f\<close> and the default
  output of a \<open>double\<close> are modelled exactly, on the rational value of the number.

  \<^bold>\<open>Not modelled.\<close>  Sleeping, joining and the console messages of the two servers; what
  ros2_control itself does, beyond the arguments and the order of its calls.

  \<^bold>\<open>What the proofs brought to light.\<close>  NaN passes every range check of the program (targets,
  limits, analog channels, the limit monitor, trajectories, motors) and can be entered on the command
  line; the viewer prints it as text that is not JSON; a client that closes its connection before its
  response has been sent ends the emulator by \<open>SIGPIPE\<close>; a control cycle that hangs keeps the mutex that the
  watchdog's response needs, so the robot is not stopped; a watchdog reset can be undone by a concurrent
  poll; the watchdog's response is spent after its first trip even if the controller rejected it; disabling
  servos does not end a motion; a fault and its recovery reach \<open>Ready\<close> without enabling servos; the
  status payload truncates its size fields silently; the ROS 2 plugin's first write moves every
  joint to zero.  Most are theorems about the code as it is.
\<close>

section \<open>Properties\<close>

text \<open>Starting and stopping the two background threads: after any sequence of calls the thread
  runs iff the last call was a \<open>start\<close>, and a call succeeded iff it is not of the same kind as
  the one before it (a repeated \<open>start\<close> is \<open>AlreadyRunning\<close>, a repeated \<open>stop\<close> \<open>NotRunning\<close>).
  The control loop and the watchdog behave alike.\<close>

theorem thread_lifecycles_alternate:
  "(let (loop', results) = run_calls ControlLoop_call loop calls in
      map has_value results =
        map2 (\<lambda>was_running c. was_running \<longleftrightarrow> c = Call_stop) (cl_running loop # map (\<lambda>c. c \<noteq> Call_stop) calls) calls \<and>
      cl_running loop' = (if calls = [] then cl_running loop else last calls \<noteq> Call_stop)) \<and>
   (let (w', results) = run_calls Watchdog_call w calls' in
      map has_value results =
        map2 (\<lambda>was_running c. was_running \<longleftrightarrow> c = Call_stop) (wd_running w # map (\<lambda>c. c \<noteq> Call_stop) calls') calls' \<and>
      wd_running w' = (if calls' = [] then wd_running w else last calls' \<noteq> Call_stop))"
  unfolding ControlLoop_call_interface Watchdog_call_interface
  using cl.run_results [of loop calls] cl.run_running [of loop calls]
    wd.run_results [of w calls'] wd.run_running [of w calls']
  by (cases "run_calls cl.call loop calls"; cases "run_calls wd.call w calls'") simp

end
